theory Spec2Isabelle
  imports Complex_Main "HOL-Library.Multiset"
begin

section \<open>Python exceptions as values\<close>

text \<open>
  Every exception that the modelled code raises or catches is a value of this type.
  A function that may raise returns its result together with \<open>py_error option\<close>, or
  a sum \<open>py_error + 'a\<close>.
\<close>

datatype py_error =
    UniqueViolation
  | DataError
  | QueueFull
  | QueueEmpty
  | ZeroDivisionError
  | QueryFailed
  | ApiError
  | TypeError
  | KeyError
  | AttributeError

section \<open>The \<open>cma_sales\<close> table and its bulk upsert (\<open>utils/database.py\<close>)\<close>

text \<open>
  A work item of the CMA sales importer is the dictionary built in
  \<open>generate_api_tasks\<close>: the unit (\<open>property_id\<close>) and the five required request
  parameters. Its five optional entries (\<open>no_of_bedrooms\<close>, \<open>size\<close>,
  \<open>sales_activity_type\<close>, \<open>lat\<close>, \<open>lon\<close>) are the constant \<open>None\<close> and are left out.

  A Record is one dictionary built by \<open>_process_cma_sales_data\<close>: the work item's six
  fields, the nested entity id \<open>comparable_property_id\<close>, and twenty-one further columns
  that no conflict clause and no query of the importer reads; they are kept together as
  one text, \<open>other_columns\<close>. The field \<open>alias\<close> is written \<open>alias_name\<close>
  (\<open>alias\<close> is a keyword of the theory language).
\<close>

record cma_task =
  property_id :: int
  alias_name :: string
  currency :: string
  measurement :: string
  property_type :: string
  property_subtype :: string

record cma_row = cma_task +
  comparable_property_id :: int
  other_columns :: string

type_synonym cma_key = "int \<times> string \<times> string \<times> string \<times> string \<times> string \<times> int"

text \<open>
  The conflict target of the statement in \<open>insert_cma_sales_data\<close>:
  \<^verbatim>\<open>ON CONFLICT (property_id, alias, currency, measurement, property_type,
  property_subtype, comparable_property_id) DO NOTHING\<close>.
  PostgreSQL accepts such a clause only when a unique index on exactly these columns
  exists, so the same seven columns are the uniqueness constraint that \<open>COPY\<close> is
  checked against.
\<close>

definition cma_key :: "cma_row \<Rightarrow> cma_key" where
  "cma_key r =
     (property_id r, alias_name r, currency r, measurement r, property_type r,
      property_subtype r, comparable_property_id r)"

definition keys_of :: "cma_row list \<Rightarrow> cma_key list" where
  "keys_of tbl = map cma_key tbl"

text \<open>
  One row of \<^verbatim>\<open>INSERT ... ON CONFLICT (...) DO NOTHING\<close>: a row whose key is already in
  the table (stored earlier, or inserted earlier by the same statement) is skipped, any
  other row is appended.
\<close>

definition insert_do_nothing :: "cma_row list \<Rightarrow> cma_row \<Rightarrow> cma_row list" where
  "insert_do_nothing tbl r = (if cma_key r \<in> set (keys_of tbl) then tbl else tbl @ [r])"

text \<open>
  \<open>psycopg2.extras.execute_values(cur, sql, rows, page_size)\<close> cuts the rows into pages of
  \<open>page_size\<close> rows and executes one statement per page, all in the caller's transaction.
\<close>

function paginate :: "nat \<Rightarrow> 'a list \<Rightarrow> 'a list list" where
  "paginate n xs =
     (if n = 0 \<or> xs = [] then [] else take n xs # paginate n (drop n xs))"
  by pat_completeness auto
termination
  by (relation "measure (\<lambda>(n, xs). length xs)") auto

declare paginate.simps [simp del]

definition insert_statement :: "cma_row list \<Rightarrow> cma_row list \<Rightarrow> cma_row list" where
  "insert_statement tbl page = foldl insert_do_nothing tbl page"

definition execute_values :: "cma_row list \<Rightarrow> cma_row list \<Rightarrow> nat \<Rightarrow> cma_row list" where
  "execute_values tbl rows page_size = foldl insert_statement tbl (paginate page_size rows)"

text \<open>
  The text that \<open>_bulk_insert_with_copy\<close> writes for a value:
  \<^verbatim>\<open>str(value).replace('\t', ' ').replace('\n', ' ')\<close>. Integers are unchanged by it.
\<close>

definition copy_text :: "string \<Rightarrow> string" where
  "copy_text s = map (\<lambda>c. if c = CHR 0x09 \<or> c = CHR 0x0A then CHR '' '' else c) s"

definition copy_row :: "cma_row \<Rightarrow> cma_row" where
  "copy_row r =
     r\<lparr>alias_name := copy_text (alias_name r), currency := copy_text (currency r),
       measurement := copy_text (measurement r), property_type := copy_text (property_type r),
       property_subtype := copy_text (property_subtype r),
       other_columns := copy_text (other_columns r)\<rparr>"

text \<open>
  The server, as far as the repository does not determine it. The column types of
  \<open>cma_sales\<close> are declared outside the repository, so whether the server can store the
  rows sent at all is the parameter \<open>accepts\<close>, a fixed property of the rows sent. On the
  \<open>COPY\<close> path the server reads every field from its text: PostgreSQL's text format
  decodes backslash sequences (\<open>_bulk_insert_with_copy\<close> does not escape the backslash, so
  the two characters backslash and \<open>b\<close> arrive as a backspace), reads a field that consists
  of backslash and \<open>N\<close> as \<open>NULL\<close>, and parses the text by the type of the column.
  \<open>copy_reads\<close> gives the row as the server reads it from a row of the stream. For integers
  and for texts without a backslash, as the importer's own parameter values are, this is
  the row that was sent.
\<close>

record cma_server =
  accepts :: "cma_row list \<Rightarrow> bool"
  copy_reads :: "cma_row \<Rightarrow> cma_row"

text \<open>
  \<open>COPY cma_sales (...) FROM STDIN\<close> has no conflict clause. It stores every row it has
  read, or, when a row breaks the uniqueness constraint (against the table or against an
  earlier row of the stream), raises and stores nothing: the transaction is never
  committed.
\<close>

definition unique_after :: "cma_row list \<Rightarrow> cma_row list \<Rightarrow> bool" where
  "unique_after tbl rows \<longleftrightarrow>
     distinct (keys_of rows) \<and> set (keys_of rows) \<inter> set (keys_of tbl) = {}"

definition bulk_insert_with_copy ::
  "cma_server \<Rightarrow> cma_row list \<Rightarrow> cma_row list \<Rightarrow> cma_row list \<times> py_error option"
where
  "bulk_insert_with_copy srv tbl ordered_data =
     (let stream = map copy_row ordered_data;
          rows = map (copy_reads srv) stream
      in if \<not> accepts srv stream then (tbl, Some DataError)
         else if \<not> unique_after tbl rows then (tbl, Some UniqueViolation)
         else (tbl @ rows, None))"

text \<open>
  \<open>insert_cma_sales_data\<close>: nothing to do for an empty list; \<open>COPY\<close> for 5000 rows or
  more; otherwise \<open>execute_values\<close> with \<open>page_size=1000\<close> and one commit. Every
  exception is logged and raised again, with nothing committed.
\<close>

definition insert_cma_sales_data ::
  "cma_server \<Rightarrow> cma_row list \<Rightarrow> cma_row list \<Rightarrow> cma_row list \<times> py_error option"
where
  "insert_cma_sales_data srv tbl data_list =
     (if data_list = [] then (tbl, None)
      else if length data_list \<ge> 5000 then bulk_insert_with_copy srv tbl data_list
      else if \<not> accepts srv data_list then (tbl, Some DataError)
      else (execute_values tbl data_list 1000, None))"


subsection \<open>Properties of the upsert\<close>

lemma keys_insert_do_nothing:
  "set (keys_of (insert_do_nothing tbl r)) = insert (cma_key r) (set (keys_of tbl))"
  by (auto simp: insert_do_nothing_def keys_of_def)

lemma keys_insert_statement:
  "set (keys_of (insert_statement tbl rows)) = set (keys_of tbl) \<union> set (keys_of rows)"
  unfolding insert_statement_def
proof (induction rows arbitrary: tbl)
  case Nil
  show ?case by (simp add: keys_of_def)
next
  case (Cons r rows)
  have "set (keys_of (foldl insert_do_nothing (insert_do_nothing tbl r) rows)) =
        set (keys_of (insert_do_nothing tbl r)) \<union> set (keys_of rows)"
    by (rule Cons.IH)
  then show ?case
    by (simp add: keys_insert_do_nothing) (auto simp: keys_of_def)
qed

lemma insert_statement_absorbed:
  "set (keys_of rows) \<subseteq> set (keys_of tbl) \<Longrightarrow> insert_statement tbl rows = tbl"
  unfolding insert_statement_def
  by (induction rows arbitrary: tbl) (auto simp: insert_do_nothing_def keys_of_def)

lemma distinct_insert_do_nothing:
  "distinct (keys_of tbl) \<Longrightarrow> distinct (keys_of (insert_do_nothing tbl r))"
  by (auto simp: insert_do_nothing_def keys_of_def)

lemma distinct_insert_statement:
  "distinct (keys_of tbl) \<Longrightarrow> distinct (keys_of (insert_statement tbl rows))"
  unfolding insert_statement_def
  by (induction rows arbitrary: tbl) (auto simp: distinct_insert_do_nothing)

lemma concat_paginate: "0 < n \<Longrightarrow> concat (paginate n xs) = xs"
proof (induction n xs rule: paginate.induct)
  case (1 n xs)
  show ?case
  proof (cases "xs = []")
    case True
    then show ?thesis by (simp add: paginate.simps)
  next
    case False
    with 1 have "concat (paginate n (drop n xs)) = drop n xs" by simp
    with False 1(2) show ?thesis
      by (subst paginate.simps) simp
  qed
qed

lemma foldl_insert_statement_concat:
  "foldl insert_statement tbl pages = insert_statement tbl (concat pages)"
  by (induction pages arbitrary: tbl) (simp_all add: insert_statement_def)

lemma execute_values_unpaged:
  "0 < page_size \<Longrightarrow> execute_values tbl rows page_size = insert_statement tbl rows"
  by (simp add: execute_values_def foldl_insert_statement_concat concat_paginate)

lemma insert_do_nothing_extends: "\<exists>new. insert_do_nothing tbl r = tbl @ new"
  by (simp add: insert_do_nothing_def)

lemma insert_statement_extends: "\<exists>new. insert_statement tbl rows = tbl @ new"
  unfolding insert_statement_def
proof (induction rows arbitrary: tbl)
  case Nil
  show ?case by simp
next
  case (Cons r rows)
  obtain n1 where n1: "insert_do_nothing tbl r = tbl @ n1"
    using insert_do_nothing_extends by blast
  obtain n2 where "foldl insert_do_nothing (insert_do_nothing tbl r) rows = insert_do_nothing tbl r @ n2"
    using Cons.IH by blast
  with n1 have "foldl insert_do_nothing tbl (r # rows) = tbl @ (n1 @ n2)" by simp
  then show ?case by blast
qed


lemma copy_twice_state:
  assumes "ordered_data \<noteq> []"
  shows "fst (bulk_insert_with_copy srv (fst (bulk_insert_with_copy srv tbl ordered_data)) ordered_data)
         = fst (bulk_insert_with_copy srv tbl ordered_data)"
proof -
  define stream where "stream = map copy_row ordered_data"
  define rows where "rows = map (copy_reads srv) stream"
  have ne: "rows \<noteq> []" using assms by (simp add: stream_def rows_def)
  then have "set (keys_of rows) \<noteq> {}" by (simp add: keys_of_def)
  then have clash: "\<not> unique_after (tbl @ rows) rows"
    by (auto simp: unique_after_def keys_of_def)
  show ?thesis
  proof (cases "accepts srv stream \<and> unique_after tbl rows")
    case True
    with clash show ?thesis
      by (simp add: bulk_insert_with_copy_def Let_def stream_def [symmetric] rows_def [symmetric])
  next
    case False
    then show ?thesis
      by (auto simp: bulk_insert_with_copy_def Let_def stream_def [symmetric] rows_def [symmetric])
  qed
qed

lemma copy_distinct:
  assumes "distinct (keys_of tbl)"
  shows "distinct (keys_of (fst (bulk_insert_with_copy srv tbl ordered_data)))"
  using assms
  by (auto simp: bulk_insert_with_copy_def Let_def unique_after_def keys_of_def)

lemma copy_extends: "\<exists>new. fst (bulk_insert_with_copy srv tbl ordered_data) = tbl @ new"
  by (simp add: bulk_insert_with_copy_def Let_def)


text \<open>
  A server that takes every row and reads a row of the stream as it was sent, which is
  what PostgreSQL does with integers and with texts without a backslash.
\<close>

definition plain_server :: cma_server where
  "plain_server = \<lparr>accepts = (\<lambda>rows. True), copy_reads = (\<lambda>r. r)\<rparr>"

text \<open>Sample rows: the fixed parameter signature of the importer, a unit, a nested
  entity id and the other columns.\<close>

definition sample_row :: "int \<Rightarrow> int \<Rightarrow> string \<Rightarrow> cma_row" where
  "sample_row pid cid other =
     \<lparr>property_id = pid, alias_name = ''last-fifteen'', currency = ''aed'',
      measurement = ''int'', property_type = ''Commercial'', property_subtype = ''Shop'',
      comparable_property_id = cid, other_columns = other\<rparr>"

text \<open>
  Claim C1. For every batch of Records and every destination state that satisfies the
  uniqueness constraint, performing \<open>insert_cma_sales_data\<close> with that batch twice
  leaves the table exactly as performing it once does. The table after the upsert has no
  two rows with the same natural key (unit id, parameter values, nested entity id),
  whatever the order of the Records in the batch; rows stored before are kept as they
  are (a conflict keeps the stored row), and on the \<open>execute_values\<close> path the set of
  stored keys is the union of the old keys and the batch's keys. On the \<open>COPY\<close> path the
  second upsert raises and stores nothing, which leaves the state of the first one.
\<close>

theorem cma_sales_upsert_idempotent:
  assumes "distinct (keys_of tbl)"
  shows "fst (insert_cma_sales_data srv (fst (insert_cma_sales_data srv tbl batch)) batch)
           = fst (insert_cma_sales_data srv tbl batch)
       \<and> distinct (keys_of (fst (insert_cma_sales_data srv tbl batch)))
       \<and> (\<exists>new. fst (insert_cma_sales_data srv tbl batch) = tbl @ new)
       \<and> (length batch < 5000 \<and> snd (insert_cma_sales_data srv tbl batch) = None \<longrightarrow>
            set (keys_of (fst (insert_cma_sales_data srv tbl batch)))
              = set (keys_of tbl) \<union> set (keys_of batch))"
proof (cases "batch = []")
  case True
  with assms show ?thesis by (simp add: insert_cma_sales_data_def keys_of_def)
next
  case ne: False
  show ?thesis
  proof (cases "length batch \<ge> 5000")
    case True
    with ne have eq: "insert_cma_sales_data srv t batch = bulk_insert_with_copy srv t batch" for t
      by (simp add: insert_cma_sales_data_def)
    from True show ?thesis
      using copy_twice_state [OF ne, of srv tbl] copy_distinct [OF assms, of srv batch]
        copy_extends [of srv tbl batch]
      by (simp add: eq)
  next
    case small: False
    show ?thesis
    proof (cases "accepts srv batch")
      case False
      with ne small assms show ?thesis by (simp add: insert_cma_sales_data_def)
    next
      case True
      with ne small have eq: "insert_cma_sales_data srv t batch = (insert_statement t batch, None)" for t
        by (simp add: insert_cma_sales_data_def execute_values_unpaged)
      have "set (keys_of batch) \<subseteq> set (keys_of (insert_statement tbl batch))"
        by (simp add: keys_insert_statement)
      then have "insert_statement (insert_statement tbl batch) batch = insert_statement tbl batch"
        by (rule insert_statement_absorbed)
      then show ?thesis
        using distinct_insert_statement [OF assms, of batch] insert_statement_extends [of tbl batch]
        by (simp add: eq keys_insert_statement)
    qed
  qed
qed


theorem cma_sales_upsert_idempotent_witness:
  "distinct (keys_of [sample_row 1 7 ''old''])
   \<and> fst (insert_cma_sales_data plain_server
          (fst (insert_cma_sales_data plain_server [sample_row 1 7 ''old'']
             [sample_row 1 8 ''a'', sample_row 1 7 ''new'', sample_row 1 8 ''b'']))
          [sample_row 1 8 ''a'', sample_row 1 7 ''new'', sample_row 1 8 ''b''])
       = [sample_row 1 7 ''old'', sample_row 1 8 ''a'']"
proof -
  have h: "distinct (keys_of [sample_row 1 7 ''old''])"
    by (simp add: keys_of_def)
  have once: "fst (insert_cma_sales_data plain_server [sample_row 1 7 ''old'']
             [sample_row 1 8 ''a'', sample_row 1 7 ''new'', sample_row 1 8 ''b''])
          = [sample_row 1 7 ''old'', sample_row 1 8 ''a'']"
    by (simp add: insert_cma_sales_data_def execute_values_unpaged insert_statement_def
        insert_do_nothing_def keys_of_def cma_key_def sample_row_def plain_server_def)
  from cma_sales_upsert_idempotent [OF h, of plain_server
      "[sample_row 1 8 ''a'', sample_row 1 7 ''new'', sample_row 1 8 ''b'']"]
  show ?thesis using h once by simp
qed


section \<open>Task generation (\<open>import_cma_sales.py\<close>, \<open>import_cma.py\<close>)\<close>

text \<open>
  Both importers hold the value lists of their parameter dimensions as attributes set
  in \<open>__init__\<close>. The CMA sales importer maps each property type to its subtypes
  (a dict, here an association list read with \<open>map_of\<close>); the fifth dimension of the CMA
  importer is a flat list of activity types.
\<close>

record param_dims =
  aliases :: "string list"
  currencies :: "string list"
  measurements :: "string list"
  property_types :: "string list"

record cma_sales_config = param_dims +
  property_type_subtypes :: "(string \<times> string list) list"

record cma_config = param_dims +
  activity_types :: "string list"

definition cma_sales_importer :: cma_sales_config where
  "cma_sales_importer =
     \<lparr>aliases = [''last-fifteen''], currencies = [''aed''], measurements = [''int''],
      property_types = [''Commercial'', ''Land'', ''Residential'', ''Office''],
      property_type_subtypes =
        [(''Commercial'',
            [''Industrial-Warehouse'', ''Other'', ''Shop'', ''Showroom'', ''Sized Partition'',
             ''Sport & Entertainment'', ''Villa'', ''Whole Building'', ''Workshop'']),
         (''Land'',
            [''Commercial Land'', ''Land for Agriculture'', ''Land for Airport'',
             ''Land for Education'', ''Land for Government Housing'',
             ''Land for Government Organizations'', ''Land for Industrial'',
             ''Land for Labor Camp'', ''Land for Shopping Mall'', ''Land for Sports'',
             ''Land for Warehouse'', ''Land - General'', ''Other Land'', ''Residential Land'']),
         (''Residential'',
            [''Apartment'', ''Serviced/Hotel Apartment'', ''Villa'', ''Villa Plot'']),
         (''Office'',
            [''Medical Office'', ''Office'', ''Sized Partition'', ''Whole Building''])]\<rparr>"

definition cma_importer :: cma_config where
  "cma_importer =
     \<lparr>aliases = [''last-fifteen''], currencies = [''aed''], measurements = [''int''],
      property_types = [''Apartment'', ''Villa'', ''Office'', ''Serviced/Hotel Apartment''],
      activity_types = [''sales'', ''off-plan'', ''mortgage'', ''off-plan-mortgage'']\<rparr>"

text \<open>A row of \<open>SELECT id FROM property\<close>: the value under the key \<open>id\<close>.\<close>

type_synonym property_data = "int option"

definition mk_task :: "int \<Rightarrow> string \<Rightarrow> string \<Rightarrow> string \<Rightarrow> string \<Rightarrow> string \<Rightarrow> cma_task" where
  "mk_task pid a c m pt st =
     \<lparr>property_id = pid, alias_name = a, currency = c, measurement = m,
      property_type = pt, property_subtype = st\<rparr>"

text \<open>\<open>self.property_type_subtypes.get(property_type, [])\<close>.\<close>

definition relevant_subtypes :: "cma_sales_config \<Rightarrow> string \<Rightarrow> string list" where
  "relevant_subtypes cfg pt =
     (case map_of (property_type_subtypes cfg) pt of None \<Rightarrow> [] | Some sts \<Rightarrow> sts)"

text \<open>
  The five nested \<open>for\<close> loops of \<open>generate_api_tasks\<close> for one property: alias,
  currency, measurement, property type, subtype, each appending to \<open>tasks\<close>.
\<close>

definition tasks_for_property :: "cma_sales_config \<Rightarrow> int \<Rightarrow> cma_task list" where
  "tasks_for_property cfg pid =
     concat (map (\<lambda>a.
       concat (map (\<lambda>c.
         concat (map (\<lambda>m.
           concat (map (\<lambda>pt.
             map (\<lambda>st. mk_task pid a c m pt st) (relevant_subtypes cfg pt))
           (property_types cfg)))
         (measurements cfg)))
       (currencies cfg)))
     (aliases cfg))"

text \<open>
  The outer loop over the properties; \<open>if not property_id: continue\<close> skips a missing
  id and the id 0.
\<close>

fun generate_loop :: "cma_sales_config \<Rightarrow> property_data list \<Rightarrow> cma_task list" where
  "generate_loop cfg [] = []"
| "generate_loop cfg (None # ps) = generate_loop cfg ps"
| "generate_loop cfg (Some pid # ps) =
     (if pid = 0 then generate_loop cfg ps
      else tasks_for_property cfg pid @ generate_loop cfg ps)"

text \<open>
  \<open>generate_api_tasks(properties, max_combinations_per_property)\<close>. The second
  argument occurs nowhere in the body. The closing log line divides by
  \<open>len(properties)\<close>, which raises for an empty list.
\<close>

definition generate_api_tasks ::
  "cma_sales_config \<Rightarrow> property_data list \<Rightarrow> int \<Rightarrow> py_error + cma_task list"
where
  "generate_api_tasks cfg properties max_combinations_per_property =
     (if properties = [] then Inl ZeroDivisionError
      else Inr (generate_loop cfg properties))"

subsection \<open>The CMA importer: the task loop of \<open>process_cma\<close>\<close>

text \<open>
  \<open>process_cma\<close> in \<open>import_cma.py\<close> builds its task list in the same nested loops, with
  the counter \<open>combinations\<close> set to 0 for each property and compared with
  \<open>max_combinations\<close>. A task is the dictionary with the keys \<open>property_id\<close>, \<open>alias\<close>,
  \<open>currency\<close>, \<open>measurement\<close>, \<open>property_type\<close> and \<open>activity_type\<close>, here a tuple in
  this order. The state of the loops for one property: the counter and the tasks
  appended for this property.
\<close>

type_synonym activity_task = "int \<times> string \<times> string \<times> string \<times> string \<times> string"

record task_loop =
  combinations_made :: int
  appended :: "activity_task list"

text \<open>\<^verbatim>\<open>api_tasks.append({...}); combinations += 1\<close>\<close>

definition append_task :: "activity_task \<Rightarrow> task_loop \<Rightarrow> task_loop" where
  "append_task t s =
     s\<lparr>combinations_made := combinations_made s + 1, appended := appended s @ [t]\<rparr>"

text \<open>The innermost loop tests the cap before each combination.\<close>

fun activity_loop ::
  "int \<Rightarrow> (string \<Rightarrow> activity_task) \<Rightarrow> string list \<Rightarrow> task_loop \<Rightarrow> task_loop"
where
  "activity_loop cap mk [] s = s"
| "activity_loop cap mk (act # acts) s =
     (if combinations_made s \<ge> cap then s
      else activity_loop cap mk acts (append_task (mk act) s))"

text \<open>Each of the four outer loops runs its body and then tests the cap.\<close>

fun capped_for ::
  "int \<Rightarrow> ('a \<Rightarrow> task_loop \<Rightarrow> task_loop) \<Rightarrow> 'a list \<Rightarrow> task_loop \<Rightarrow> task_loop"
where
  "capped_for cap body [] s = s"
| "capped_for cap body (x # xs) s =
     (let s' = body x s in
      if combinations_made s' \<ge> cap then s' else capped_for cap body xs s')"

definition process_cma_tasks :: "cma_config \<Rightarrow> int \<Rightarrow> int \<Rightarrow> activity_task list" where
  "process_cma_tasks cfg pid max_combinations =
     appended
       (capped_for max_combinations (\<lambda>a.
          capped_for max_combinations (\<lambda>c.
            capped_for max_combinations (\<lambda>m.
              capped_for max_combinations (\<lambda>pt.
                activity_loop max_combinations (\<lambda>act. (pid, a, c, m, pt, act))
                  (activity_types cfg))
              (property_types cfg))
            (measurements cfg))
          (currencies cfg))
        (aliases cfg)
        \<lparr>combinations_made = 0, appended = []\<rparr>)"

text \<open>All combinations of one property in the nested order, before any cap.\<close>

definition all_combinations :: "cma_config \<Rightarrow> int \<Rightarrow> activity_task list" where
  "all_combinations cfg pid =
     concat (map (\<lambda>a.
       concat (map (\<lambda>c.
         concat (map (\<lambda>m.
           concat (map (\<lambda>pt.
             map (\<lambda>act. (pid, a, c, m, pt, act)) (activity_types cfg))
           (property_types cfg)))
         (measurements cfg)))
       (currencies cfg)))
     (aliases cfg))"

text \<open>
  What a loop does to the state, as far as the cap is concerned: it appends the next
  combinations of the list \<open>g\<close> until the counter reaches the cap.
\<close>

definition appends_upto :: "int \<Rightarrow> (task_loop \<Rightarrow> task_loop) \<Rightarrow> activity_task list \<Rightarrow> bool" where
  "appends_upto cap body g \<longleftrightarrow>
     (\<forall>s. appended (body s) = appended s @ take (nat (cap - combinations_made s)) g
        \<and> combinations_made (body s)
            = combinations_made s + int (length (take (nat (cap - combinations_made s)) g)))"


subsection \<open>The cap in \<open>process_cma\<close>\<close>

lemma activity_loop_appends:
  "appended (activity_loop cap mk acts s)
     = appended s @ take (nat (cap - combinations_made s)) (map mk acts)
   \<and> combinations_made (activity_loop cap mk acts s)
     = combinations_made s + int (length (take (nat (cap - combinations_made s)) (map mk acts)))"
proof (induction acts arbitrary: s)
  case Nil
  show ?case by simp
next
  case (Cons act acts)
  show ?case
  proof (cases "combinations_made s \<ge> cap")
    case True
    then show ?thesis by simp
  next
    case False
    then obtain k where k: "nat (cap - combinations_made s) = Suc k"
      by (cases "nat (cap - combinations_made s)") auto
    then have k': "nat (cap - (combinations_made s + 1)) = k" by linarith
    from False show ?thesis
      using Cons.IH [of "append_task (mk act) s"]
      by (simp add: append_task_def k k')
  qed
qed

lemma appends_upto_activity_loop:
  "appends_upto cap (activity_loop cap mk acts) (map mk acts)"
  unfolding appends_upto_def using activity_loop_appends by blast

lemma capped_for_appends:
  assumes body: "\<And>x. appends_upto cap (body x) (g x)"
  shows "appended (capped_for cap body xs s)
           = appended s @ take (nat (cap - combinations_made s)) (concat (map g xs))
       \<and> combinations_made (capped_for cap body xs s)
           = combinations_made s
             + int (length (take (nat (cap - combinations_made s)) (concat (map g xs))))"
proof (induction xs arbitrary: s)
  case Nil
  show ?case by simp
next
  case (Cons x xs)
  define s' where "s' = body x s"
  define n where "n = nat (cap - combinations_made s)"
  have r: "appended s' = appended s @ take n (g x)"
    and t: "combinations_made s' = combinations_made s + int (length (take n (g x)))"
    using body [of x] by (simp_all add: appends_upto_def s'_def n_def)
  have n': "nat (cap - combinations_made s') = n - length (g x)"
    using t by (auto simp: n_def min_def)
  show ?case
  proof (cases "combinations_made s' \<ge> cap")
    case True
    then have "n \<le> length (g x)" using t by (auto simp: n_def min_def split: if_splits)
    with True show ?thesis
      using r t by (simp add: s'_def [symmetric] n_def [symmetric])
  next
    case False
    have lt: "length (g x) < n"
    proof (rule ccontr)
      assume "\<not> length (g x) < n"
      then have "combinations_made s' = combinations_made s + int n" using t by simp
      then have "cap \<le> combinations_made s'" by (simp add: n_def)
      with False show False by simp
    qed
    then have r': "appended s' = appended s @ g x"
      and t': "combinations_made s' = combinations_made s + int (length (g x))"
      using r t by simp_all
    have n'': "nat (cap - combinations_made s') = n - length (g x)"
      using t' by (simp add: n_def)
    have tk: "take n (g x @ concat (map g xs)) = g x @ take (n - length (g x)) (concat (map g xs))"
      using lt by simp
    have len: "length (take n (g x @ concat (map g xs)))
                = length (g x) + length (take (n - length (g x)) (concat (map g xs)))"
      by (simp only: tk length_append)
    have step: "capped_for cap body (x # xs) s = capped_for cap body xs s'"
      using False by (simp add: s'_def)
    have ih_r: "appended (capped_for cap body xs s')
        = appended s' @ take (n - length (g x)) (concat (map g xs))"
      and ih_t: "combinations_made (capped_for cap body xs s')
        = combinations_made s' + int (length (take (n - length (g x)) (concat (map g xs))))"
      using Cons.IH [of s'] by (simp_all only: n'')
    have cc: "concat (map g (x # xs)) = g x @ concat (map g xs)" by simp
    have A: "appended (capped_for cap body (x # xs) s)
               = appended s @ take n (concat (map g (x # xs)))"
      by (simp only: step ih_r r' cc tk append_assoc)
    have B: "combinations_made (capped_for cap body (x # xs) s)
               = combinations_made s + int (length (take n (concat (map g (x # xs)))))"
      by (simp only: step ih_t t' cc len of_nat_add add.assoc)
    from A B show ?thesis by (simp only: n_def)
  qed
qed

lemma appends_upto_capped_for:
  "(\<And>x. appends_upto cap (body x) (g x)) \<Longrightarrow>
   appends_upto cap (capped_for cap body xs) (concat (map g xs))"
  unfolding appends_upto_def using capped_for_appends [unfolded appends_upto_def] by blast

text \<open>The sibling applies the cap: a property gets the first \<open>max_combinations\<close> combinations.\<close>

lemma process_cma_tasks_capped:
  "process_cma_tasks cfg pid cap = take (nat cap) (all_combinations cfg pid)"
proof -
  have "appends_upto cap
     (capped_for cap (\<lambda>a.
       capped_for cap (\<lambda>c.
         capped_for cap (\<lambda>m.
           capped_for cap (\<lambda>pt.
             activity_loop cap (\<lambda>act. (pid, a, c, m, pt, act)) (activity_types cfg))
           (property_types cfg))
         (measurements cfg))
       (currencies cfg))
     (aliases cfg))
     (all_combinations cfg pid)"
    unfolding all_combinations_def
    by (intro appends_upto_capped_for appends_upto_activity_loop)
  then show ?thesis
    by (simp add: appends_upto_def process_cma_tasks_def)
qed


subsection \<open>Scenario A and the cap in \<open>generate_api_tasks\<close>\<close>

text \<open>
  Scenario A of the specification: property types \<open>A\<close>, \<open>B\<close>, subtypes \<open>X\<close>, \<open>Y\<close> for
  each, one value in every other dimension.
\<close>

definition scenario_A_sales :: cma_sales_config where
  "scenario_A_sales =
     \<lparr>aliases = [''last-fifteen''], currencies = [''aed''], measurements = [''int''],
      property_types = [''A'', ''B''],
      property_type_subtypes = [(''A'', [''X'', ''Y'']), (''B'', [''X'', ''Y''])]\<rparr>"

definition scenario_A_cma :: cma_config where
  "scenario_A_cma =
     \<lparr>aliases = [''last-fifteen''], currencies = [''aed''], measurements = [''int''],
      property_types = [''A'', ''B''], activity_types = [''X'', ''Y'']\<rparr>"

definition scenario_task :: "int \<Rightarrow> string \<Rightarrow> string \<Rightarrow> cma_task" where
  "scenario_task pid pt st = mk_task pid ''last-fifteen'' ''aed'' ''int'' pt st"

lemma process_cma_tasks_scenario_A:
  "process_cma_tasks scenario_A_cma pid 2
     = [(pid, ''last-fifteen'', ''aed'', ''int'', ''A'', ''X''),
        (pid, ''last-fifteen'', ''aed'', ''int'', ''A'', ''Y'')]"
  by (simp add: process_cma_tasks_capped all_combinations_def scenario_A_cma_def)

text \<open>
  Claim C8 (the code departs from it). In the CMA sales importer the cap is not applied:
  \<open>generate_api_tasks\<close> with a cap of 2 in Scenario A returns four work items for each of
  the three units, the \<open>(B, X)\<close> and \<open>(B, Y)\<close> items among them; with the importer's own
  dimension tables and the default cap of 10 it returns 31 work items for one unit.
\<close>

theorem generate_api_tasks_ignores_cap:
  "generate_api_tasks scenario_A_sales [Some 1, Some 2, Some 3] 2
     = Inr [scenario_task 1 ''A'' ''X'', scenario_task 1 ''A'' ''Y'',
            scenario_task 1 ''B'' ''X'', scenario_task 1 ''B'' ''Y'',
            scenario_task 2 ''A'' ''X'', scenario_task 2 ''A'' ''Y'',
            scenario_task 2 ''B'' ''X'', scenario_task 2 ''B'' ''Y'',
            scenario_task 3 ''A'' ''X'', scenario_task 3 ''A'' ''Y'',
            scenario_task 3 ''B'' ''X'', scenario_task 3 ''B'' ''Y'']
   \<and> generate_api_tasks cma_sales_importer [Some 1] 10
       = Inr (tasks_for_property cma_sales_importer 1)
   \<and> length (tasks_for_property cma_sales_importer 1) = 31"
proof -
  have a: "generate_api_tasks scenario_A_sales [Some 1, Some 2, Some 3] 2
     = Inr [scenario_task 1 ''A'' ''X'', scenario_task 1 ''A'' ''Y'',
            scenario_task 1 ''B'' ''X'', scenario_task 1 ''B'' ''Y'',
            scenario_task 2 ''A'' ''X'', scenario_task 2 ''A'' ''Y'',
            scenario_task 2 ''B'' ''X'', scenario_task 2 ''B'' ''Y'',
            scenario_task 3 ''A'' ''X'', scenario_task 3 ''A'' ''Y'',
            scenario_task 3 ''B'' ''X'', scenario_task 3 ''B'' ''Y'']"
    by (simp add: generate_api_tasks_def tasks_for_property_def scenario_A_sales_def
        relevant_subtypes_def scenario_task_def)
  have b: "generate_api_tasks cma_sales_importer [Some 1] 10
       = Inr (tasks_for_property cma_sales_importer 1)"
    by (simp add: generate_api_tasks_def)
  have c: "length (tasks_for_property cma_sales_importer 1) = 31"
    by (simp add: tasks_for_property_def cma_sales_importer_def relevant_subtypes_def)
  from a b c show ?thesis by blast
qed


section \<open>The Resume Filter (\<open>import_cma_sales.py\<close>)\<close>

text \<open>
  \<open>get_processed_property_ids\<close> runs
  \<^verbatim>\<open>SELECT DISTINCT property_id FROM cma_sales WHERE alias = %s AND currency = %s
  AND measurement = %s AND property_type = %s\<close>
  with the first element of each of the four lists, and collects the ids in a set. The
  subtype is not part of the query. The whole body is inside \<open>try\<close>; any exception
  (an empty list indexed at 0, a failing query) gives the empty set. The destination is
  passed as the table the query reads, or the exception \<open>run_query\<close> raises.
\<close>

definition get_processed_property_ids ::
  "cma_sales_config \<Rightarrow> py_error + cma_row list \<Rightarrow> int set"
where
  "get_processed_property_ids cfg db =
     (case (aliases cfg, currencies cfg, measurements cfg, property_types cfg, db) of
        (a # _, c # _, m # _, pt # _, Inr tbl) \<Rightarrow>
          set (map property_id
            (filter (\<lambda>r. alias_name r = a \<and> currency r = c \<and> measurement r = m
                        \<and> property_type r = pt) tbl))
      | _ \<Rightarrow> {})"

text \<open>
  The filter step of \<open>process_cma_sales\<close>:
  \<^verbatim>\<open>if processed_property_ids:
      api_tasks = [task for task in api_tasks
                   if task["property_id"] not in processed_property_ids]\<close>
\<close>

definition resume_filter ::
  "cma_sales_config \<Rightarrow> py_error + cma_row list \<Rightarrow> cma_task list \<Rightarrow> cma_task list"
where
  "resume_filter cfg db api_tasks =
     (let processed_property_ids = get_processed_property_ids cfg db in
      if processed_property_ids \<noteq> {}
      then filter (\<lambda>task. property_id task \<notin> processed_property_ids) api_tasks
      else api_tasks)"

text \<open>
  The filter in the words of the specification, for comparison: a work item is removed
  exactly when its (unit id, parameter values) tuple is the tuple of a stored row.
\<close>

definition task_of_row :: "cma_row \<Rightarrow> cma_task" where
  "task_of_row r =
     mk_task (property_id r) (alias_name r) (currency r) (measurement r) (property_type r)
       (property_subtype r)"

definition spec_resume_filter :: "cma_row list \<Rightarrow> cma_task list \<Rightarrow> cma_task list" where
  "spec_resume_filter tbl api_tasks =
     filter (\<lambda>task. task \<notin> set (map task_of_row tbl)) api_tasks"

definition land_row :: cma_row where
  "land_row =
     \<lparr>property_id = 1, alias_name = ''last-fifteen'', currency = ''aed'',
      measurement = ''int'', property_type = ''Land'', property_subtype = ''Commercial Land'',
      comparable_property_id = 7, other_columns = []\<rparr>"


text \<open>
  What the filter computes, for any configuration and table: it works per unit and keeps
  exactly the work items whose unit has no stored row carrying the first configured
  alias, currency, measurement and property type. When the query fails, nothing is
  removed.
\<close>

lemma resume_filter_by_property:
  assumes "aliases cfg = a # as" and "currencies cfg = c # cs"
    and "measurements cfg = m # ms" and "property_types cfg = pt # pts"
  shows "resume_filter cfg (Inr tbl) api_tasks
           = filter (\<lambda>task. \<not> (\<exists>r \<in> set tbl. property_id r = property_id task
                \<and> alias_name r = a \<and> currency r = c \<and> measurement r = m
                \<and> property_type r = pt)) api_tasks
       \<and> resume_filter cfg (Inl e) api_tasks = api_tasks"
proof -
  have ids: "get_processed_property_ids cfg (Inr tbl)
      = {pid. \<exists>r \<in> set tbl. property_id r = pid \<and> alias_name r = a \<and> currency r = c
              \<and> measurement r = m \<and> property_type r = pt}"
    using assms by (auto simp: get_processed_property_ids_def)
  have fail: "get_processed_property_ids cfg (Inl e) = {}"
    by (simp add: get_processed_property_ids_def split: list.splits)
  have "resume_filter cfg (Inr tbl) api_tasks
      = filter (\<lambda>task. property_id task \<notin> get_processed_property_ids cfg (Inr tbl)) api_tasks"
    by (simp add: resume_filter_def Let_def)
  then show ?thesis
    by (simp add: ids resume_filter_def fail)
qed


text \<open>
  Claim C4 (the CMA sales importer departs from it). The docstring of
  \<open>get_processed_property_ids\<close> promises the ids \<open>already been processed with current
  parameter combinations\<close>, but the query reads the first property type only and its
  subtype clause is commented out. With one stored row for unit 1 under (Commercial,
  Shop), the filter removes all 31 work items of unit 1, although 30 of them are not
  stored; with one stored row for unit 1 under (Land, Commercial Land) and none under the
  first property type, it removes nothing, although that work item is stored. The filter
  of the specification keeps 30 work items in each case.
\<close>

theorem resume_filter_skips_by_unit:
  "length (tasks_for_property cma_sales_importer 1) = 31
   \<and> resume_filter cma_sales_importer (Inr [sample_row 1 7 ''x''])
       (tasks_for_property cma_sales_importer 1) = []
   \<and> length (spec_resume_filter [sample_row 1 7 ''x'']
       (tasks_for_property cma_sales_importer 1)) = 30
   \<and> resume_filter cma_sales_importer (Inr [land_row])
       (tasks_for_property cma_sales_importer 1) = tasks_for_property cma_sales_importer 1
   \<and> length (spec_resume_filter [land_row] (tasks_for_property cma_sales_importer 1)) = 30"
proof -
  have p1: "get_processed_property_ids cma_sales_importer (Inr [sample_row 1 7 ''x'']) = {1}"
    by (simp add: get_processed_property_ids_def cma_sales_importer_def sample_row_def)
  have p2: "get_processed_property_ids cma_sales_importer (Inr [land_row]) = {}"
    by (simp add: get_processed_property_ids_def cma_sales_importer_def land_row_def)
  have a: "resume_filter cma_sales_importer (Inr [sample_row 1 7 ''x''])
       (tasks_for_property cma_sales_importer 1) = []"
    by (simp add: resume_filter_def p1 tasks_for_property_def mk_task_def)
  have b: "length (spec_resume_filter [sample_row 1 7 ''x'']
       (tasks_for_property cma_sales_importer 1)) = 30"
    by (simp add: spec_resume_filter_def task_of_row_def sample_row_def mk_task_def
        tasks_for_property_def cma_sales_importer_def relevant_subtypes_def)
  have c: "resume_filter cma_sales_importer (Inr [land_row])
       (tasks_for_property cma_sales_importer 1) = tasks_for_property cma_sales_importer 1"
    by (simp add: resume_filter_def p2)
  have d: "length (spec_resume_filter [land_row] (tasks_for_property cma_sales_importer 1)) = 30"
    by (simp add: spec_resume_filter_def task_of_row_def land_row_def mk_task_def
        tasks_for_property_def cma_sales_importer_def relevant_subtypes_def)
  have n: "length (tasks_for_property cma_sales_importer 1) = 31"
    by (simp add: tasks_for_property_def cma_sales_importer_def relevant_subtypes_def)
  from n a b c d show ?thesis by blast
qed


section \<open>The Ingestion Queue (\<open>queue.Queue(maxsize=200000)\<close>)\<close>

text \<open>
  Python's bounded FIFO queue: \<open>maxsize \<le> 0\<close> means unbounded. \<open>put(item, timeout)\<close>
  waits up to \<open>timeout\<close> seconds for a free slot and raises \<open>Full\<close> when none has come;
  \<open>get(timeout)\<close> waits for an item and raises \<open>Empty\<close>. The functions below give the
  result of a call at the moment it returns, for the queue as it is then.
\<close>

record 'a bounded_queue =
  items :: "'a list"
  maxsize :: nat

definition queue_put :: "'a bounded_queue \<Rightarrow> 'a \<Rightarrow> py_error + 'a bounded_queue" where
  "queue_put q x =
     (if 0 < maxsize q \<and> maxsize q \<le> length (items q) then Inl QueueFull
      else Inr (q\<lparr>items := items q @ [x]\<rparr>))"

definition queue_get :: "'a bounded_queue \<Rightarrow> py_error + ('a \<times> 'a bounded_queue)" where
  "queue_get q =
     (case items q of [] \<Rightarrow> Inl QueueEmpty | x # xs \<Rightarrow> Inr (x, q\<lparr>items := xs\<rparr>))"

text \<open>
  The producer side of the CMA sales importer, \<open>add_to_queue\<close>:
  \<^verbatim>\<open>for record in data:
      try: self.data_queue.put(record, timeout=5.0)
      except Full: logger.error(...)\<close>
  A record whose \<open>put\<close> raised is logged and not retried; \<open>lost\<close> collects these
  records, \<open>taken\<close> the items consumers have received.
\<close>

record 'a pipeline =
  queue :: "'a bounded_queue"
  lost :: "'a list"
  taken :: "'a list"

definition add_record :: "('a, 'z) pipeline_scheme \<Rightarrow> 'a \<Rightarrow> ('a, 'z) pipeline_scheme" where
  "add_record p record =
     (case queue_put (queue p) record of
        Inr q' \<Rightarrow> p\<lparr>queue := q'\<rparr>
      | Inl e \<Rightarrow> p\<lparr>lost := lost p @ [record]\<rparr>)"

definition add_to_queue ::
  "('a, 'z) pipeline_scheme \<Rightarrow> 'a list \<Rightarrow> ('a, 'z) pipeline_scheme"
where
  "add_to_queue p data = foldl add_record p data"

definition consume :: "('a, 'z) pipeline_scheme \<Rightarrow> ('a, 'z) pipeline_scheme" where
  "consume p =
     (case queue_get (queue p) of
        Inr (x, q') \<Rightarrow> p\<lparr>queue := q', taken := taken p @ [x]\<rparr>
      | Inl e \<Rightarrow> p)"

definition within_capacity :: "'a bounded_queue \<Rightarrow> bool" where
  "within_capacity q \<longleftrightarrow> length (items q) \<le> maxsize q"

text \<open>
  Producers and consumers over time. A producer that finds the queue full waits inside
  \<open>put\<close>: \<open>waiting\<close> holds its Record and its deadline, the time of the call plus the
  timeout, or \<open>None\<close> for a \<open>put\<close> without timeout. The calls of an interleaving, in the
  order of their times:

  \<^item> \<open>Put_timeout\<close>: the \<^verbatim>\<open>put(record, timeout=5.0)\<close> of \<open>add_to_queue\<close>;
  \<^item> \<open>Put_blocking\<close>: the \<^verbatim>\<open>put(record)\<close> of the other importers (\<open>import_cma.py\<close>,
    \<open>import_transactions_avg.py\<close>, \<open>import_indicator_locationid.py\<close>), which waits until
    there is space;
  \<^item> \<open>Get_call\<close>: a consumer takes an item;
  \<^item> \<open>Clock\<close>: nothing but the passing of time.

  At its deadline a waiting \<open>put\<close> raises \<open>Full\<close>; \<open>add_to_queue\<close> catches it, logs an error
  and goes on with the next Record, so the Record is lost. A \<open>get\<close> frees a slot and
  wakes the producer that has waited longest, whose \<open>put\<close> then completes.
\<close>

record 'a timed_pipeline = "'a pipeline" +
  waiting :: "('a \<times> real option) list"

datatype 'a call = Put_timeout 'a real | Put_blocking 'a real | Get_call real | Clock real

fun timed_out :: "real \<Rightarrow> 'a \<times> real option \<Rightarrow> bool" where
  "timed_out now (x, None) = False"
| "timed_out now (x, Some deadline) = (deadline \<le> now)"

definition expire :: "real \<Rightarrow> 'a timed_pipeline \<Rightarrow> 'a timed_pipeline" where
  "expire now p =
     p\<lparr>lost := lost p @ map fst (filter (timed_out now) (waiting p)),
       waiting := filter (\<lambda>w. \<not> timed_out now w) (waiting p)\<rparr>"

definition put_or_wait :: "'a timed_pipeline \<Rightarrow> 'a \<Rightarrow> real option \<Rightarrow> 'a timed_pipeline" where
  "put_or_wait p x deadline =
     (case queue_put (queue p) x of
        Inr q' \<Rightarrow> p\<lparr>queue := q'\<rparr>
      | Inl e \<Rightarrow> p\<lparr>waiting := waiting p @ [(x, deadline)]\<rparr>)"

definition admit :: "'a timed_pipeline \<Rightarrow> 'a timed_pipeline" where
  "admit p =
     (case waiting p of
        [] \<Rightarrow> p
      | (x, deadline) # ws \<Rightarrow>
          (case queue_put (queue p) x of
             Inr q' \<Rightarrow> p\<lparr>queue := q', waiting := ws\<rparr>
           | Inl e \<Rightarrow> p))"

fun timed_step :: "'a timed_pipeline \<Rightarrow> 'a call \<Rightarrow> 'a timed_pipeline" where
  "timed_step p (Put_timeout x now) = put_or_wait (expire now p) x (Some (now + 5))"
| "timed_step p (Put_blocking x now) = put_or_wait (expire now p) x None"
| "timed_step p (Get_call now) = admit (consume (expire now p))"
| "timed_step p (Clock now) = expire now p"

definition run_calls :: "'a timed_pipeline \<Rightarrow> 'a call list \<Rightarrow> 'a timed_pipeline" where
  "run_calls p calls = foldl timed_step p calls"

text \<open>The Records that the calls of an interleaving put, and the calls that have a timeout.\<close>

fun records_put :: "'a call list \<Rightarrow> 'a list" where
  "records_put [] = []"
| "records_put (Put_timeout x now # calls) = x # records_put calls"
| "records_put (Put_blocking x now # calls) = x # records_put calls"
| "records_put (Get_call now # calls) = records_put calls"
| "records_put (Clock now # calls) = records_put calls"

fun with_timeout :: "'a call \<Rightarrow> bool" where
  "with_timeout (Put_timeout x now) = True"
| "with_timeout (Put_blocking x now) = False"
| "with_timeout (Get_call now) = False"
| "with_timeout (Clock now) = False"


section \<open>Flush Workers\<close>

text \<open>
  What a Flush Worker takes from the queue: the shutdown signal \<open>None\<close>, one Record, or
  a list of Records (a re-queued chunk).
\<close>

datatype 'r qitem = Poison | Single 'r | Chunk "'r list"

text \<open>
  One pass through the worker's \<open>while True\<close> loop is driven by what \<open>get(timeout=1.0)\<close>
  did: it returned an item, or it raised \<open>Empty\<close> after a second without arrivals. The
  event carries the clock reading of that pass (\<open>time.time()\<close>, one reading per pass) and,
  for the CMA sales worker, the value of \<open>self.processing_complete\<close> read in the handler.
\<close>

datatype 'r worker_event = Arrive "'r qitem" real | Idle real bool

text \<open>
  The worker's state: its private buffer, the time of the last flush, the batches handed
  to the flush operation so far, and whether it has left its loop and returned.
\<close>

record 'r flusher =
  buffer :: "'r list"
  last_flush_time :: real
  flushed :: "'r list list"
  finished :: bool

text \<open>
  \<open>_flush_buffer\<close> and \<open>_flush_batch_to_db\<close> return at once for an empty list and never
  raise; what they do with the batch is the bulk upsert. Here the call is recorded.
\<close>

definition flush_buffer :: "'r flusher \<Rightarrow> 'r list \<Rightarrow> 'r flusher" where
  "flush_buffer s batch = (if batch = [] then s else s\<lparr>flushed := flushed s @ [batch]\<rparr>)"

text \<open>
  \<^verbatim>\<open>self._flush_buffer(buffer); buffer.clear(); last_flush_time = time.time()\<close>
\<close>

definition flush_and_reset :: "'r flusher \<Rightarrow> 'r list \<Rightarrow> real \<Rightarrow> 'r flusher" where
  "flush_and_reset s batch now = (flush_buffer s batch)\<lparr>buffer := [], last_flush_time := now\<rparr>"

text \<open>
  The CMA sales worker leaves the loop with \<open>break\<close> and then runs
  \<^verbatim>\<open>if buffer: self._flush_buffer(buffer); buffer.clear()\<close> before it returns.
\<close>

definition leave_loop :: "'r flusher \<Rightarrow> 'r flusher" where
  "leave_loop s = (flush_buffer s (buffer s))\<lparr>buffer := [], finished := True\<rparr>"

definition size_check :: "int \<Rightarrow> 'r flusher \<Rightarrow> real \<Rightarrow> 'r flusher" where
  "size_check batch_size s now =
     (if int (length (buffer s)) \<ge> batch_size then flush_and_reset s (buffer s) now else s)"

fun sales_flusher_step :: "int \<Rightarrow> 'r flusher \<Rightarrow> 'r worker_event \<Rightarrow> 'r flusher" where
  "sales_flusher_step batch_size s (Arrive Poison now) = leave_loop s"
| "sales_flusher_step batch_size s (Arrive (Single r) now) =
     size_check batch_size (s\<lparr>buffer := buffer s @ [r]\<rparr>) now"
| "sales_flusher_step batch_size s (Arrive (Chunk rs) now) =
     size_check batch_size (s\<lparr>buffer := buffer s @ rs\<rparr>) now"
| "sales_flusher_step batch_size s (Idle now processing_complete) =
     (let s' = (if buffer s \<noteq> [] \<and> (now - last_flush_time s > 30 \<or> processing_complete)
                then flush_and_reset s (buffer s) now else s)
      in if processing_complete then leave_loop s' else s')"

text \<open>
  The CMA2 rents worker, \<open>_flusher_worker\<close> at lines 84 to 122 of \<open>import_cma2_rents.py\<close>.
  The module as it stands does not compile: further down, in \<open>process_single_property\<close>,
  an \<open>except\<close> at line 265 is indented less than its \<open>try\<close>. The worker itself is
  well-formed and is modelled as written; what is proved of it holds of the module once
  that line is repaired, and of nothing that runs today.

  Its variables are \<open>batch\<close> and \<open>batch_start_time\<close>. Its queue carries Records and
  the shutdown signal only, and every item other than \<open>None\<close> is appended as it is. The
  shutdown signal flushes inside the loop and breaks; after an arrival the batch is
  flushed when it has reached \<open>batch_size\<close> or is older than five seconds; a second
  without arrivals flushes whatever is there.
\<close>

datatype 'r rents_event = Item_arrives "'r option" real | No_item real

fun rents_flusher_step :: "int \<Rightarrow> 'r flusher \<Rightarrow> 'r rents_event \<Rightarrow> 'r flusher" where
  "rents_flusher_step batch_size s (Item_arrives None now) =
     (flush_buffer s (buffer s))\<lparr>finished := True\<rparr>"
| "rents_flusher_step batch_size s (Item_arrives (Some item) now) =
     (let s' = s\<lparr>buffer := buffer s @ [item]\<rparr> in
      if int (length (buffer s')) \<ge> batch_size \<or> now - last_flush_time s' > 5
      then flush_and_reset s' (buffer s') now else s')"
| "rents_flusher_step batch_size s (No_item now) =
     (if buffer s \<noteq> [] then flush_and_reset s (buffer s) now else s)"

text \<open>A worker that has returned takes no further events.\<close>

fun run_worker ::
  "('r flusher \<Rightarrow> 'e \<Rightarrow> 'r flusher) \<Rightarrow> 'r flusher \<Rightarrow> 'e list \<Rightarrow> 'r flusher"
where
  "run_worker step s [] = s"
| "run_worker step s (ev # evs) =
     (if finished s then s else run_worker step (step s ev) evs)"


section \<open>Backpressure: the queue's bound and what a full queue does to a producer\<close>

text \<open>
  Everything the pipeline holds: what is in the queue, what consumers have taken, and
  what producers have given up on; \<open>in_flight\<close> adds the Records of the producers that
  wait.
\<close>

definition holdings :: "('a, 'z) pipeline_scheme \<Rightarrow> 'a multiset" where
  "holdings p = mset (items (queue p)) + mset (lost p) + mset (taken p)"

definition in_flight :: "'a timed_pipeline \<Rightarrow> 'a multiset" where
  "in_flight p = holdings p + mset (map fst (waiting p))"

definition no_deadline :: "'a timed_pipeline \<Rightarrow> bool" where
  "no_deadline p \<longleftrightarrow> (\<forall>w \<in> set (waiting p). snd w = None)"

lemma add_record_capacity:
  "0 < maxsize (queue p) \<Longrightarrow> within_capacity (queue p) \<Longrightarrow>
   within_capacity (queue (add_record p x))"
  by (auto simp: add_record_def queue_put_def within_capacity_def split: sum.splits if_splits)

lemma consume_capacity:
  "within_capacity (queue p) \<Longrightarrow> within_capacity (queue (consume p))"
  by (auto simp: consume_def queue_get_def within_capacity_def split: sum.splits list.splits)

lemma put_full:
  "0 < maxsize (queue p) \<Longrightarrow> length (items (queue p)) = maxsize (queue p) \<Longrightarrow>
   add_record p x = p\<lparr>lost := lost p @ [x]\<rparr>"
  by (simp add: add_record_def queue_put_def)

lemma put_space:
  "length (items (queue p)) < maxsize (queue p) \<Longrightarrow>
   add_record p x = p\<lparr>queue := (queue p)\<lparr>items := items (queue p) @ [x]\<rparr>\<rparr>"
  by (simp add: add_record_def queue_put_def)

text \<open>The bound holds in every interleaving, and the capacity does not change.\<close>

lemma expire_queue: "queue (expire now p) = queue p"
  by (simp add: expire_def)

lemma put_or_wait_capacity:
  "0 < maxsize (queue p) \<Longrightarrow> within_capacity (queue p) \<Longrightarrow>
   within_capacity (queue (put_or_wait p x d)) \<and> maxsize (queue (put_or_wait p x d)) = maxsize (queue p)"
  by (auto simp: put_or_wait_def queue_put_def within_capacity_def split: sum.splits if_splits)

lemma admit_capacity:
  "0 < maxsize (queue p) \<Longrightarrow> within_capacity (queue p) \<Longrightarrow>
   within_capacity (queue (admit p)) \<and> maxsize (queue (admit p)) = maxsize (queue p)"
  by (auto simp: admit_def queue_put_def within_capacity_def split: sum.splits if_splits list.splits)

lemma consume_maxsize: "maxsize (queue (consume p)) = maxsize (queue p)"
  by (auto simp: consume_def queue_get_def split: sum.splits list.splits)

lemma timed_step_capacity:
  assumes "0 < maxsize (queue p)" and "within_capacity (queue p)"
  shows "within_capacity (queue (timed_step p c)) \<and> maxsize (queue (timed_step p c)) = maxsize (queue p)"
proof (cases c)
  case (Put_timeout x now)
  then show ?thesis using assms put_or_wait_capacity [of "expire now p" x] by (simp add: expire_queue)
next
  case (Put_blocking x now)
  then show ?thesis using assms put_or_wait_capacity [of "expire now p" x] by (simp add: expire_queue)
next
  case (Get_call now)
  have "within_capacity (queue (consume (expire now p)))"
    using assms(2) consume_capacity [of "expire now p"] by (simp add: expire_queue)
  moreover have "maxsize (queue (consume (expire now p))) = maxsize (queue p)"
    by (simp add: consume_maxsize expire_queue)
  ultimately show ?thesis
    using Get_call assms(1) admit_capacity [of "consume (expire now p)"] by simp
next
  case (Clock now)
  then show ?thesis using assms by (simp add: expire_queue)
qed

lemma run_calls_capacity:
  "0 < maxsize (queue p) \<Longrightarrow> within_capacity (queue p) \<Longrightarrow>
   within_capacity (queue (run_calls p calls)) \<and> maxsize (queue (run_calls p calls)) = maxsize (queue p)"
  unfolding run_calls_def
proof (induction calls arbitrary: p)
  case Nil
  then show ?case by simp
next
  case (Cons c calls)
  have step: "within_capacity (queue (timed_step p c))"
    "maxsize (queue (timed_step p c)) = maxsize (queue p)"
    using timed_step_capacity [OF Cons.prems, of c] by simp_all
  have "0 < maxsize (queue (timed_step p c))" using step(2) Cons.prems(1) by simp
  from Cons.IH [OF this step(1)] step(2) show ?case by simp
qed

text \<open>No Record appears or disappears: what was put is queued, taken, lost or waiting.\<close>

lemma mset_split_filter:
  "mset (map f (filter P xs)) + mset (map f (filter (\<lambda>x. \<not> P x) xs)) = mset (map f xs)"
  by (induction xs) simp_all

lemma expire_in_flight: "in_flight (expire now p) = in_flight p"
  using mset_split_filter [of fst "timed_out now" "waiting p"]
  by (simp add: in_flight_def holdings_def expire_def ac_simps)

lemma put_or_wait_in_flight: "in_flight (put_or_wait p x d) = in_flight p + {#x#}"
  by (simp add: in_flight_def holdings_def put_or_wait_def queue_put_def split: sum.splits)

lemma consume_in_flight: "in_flight (consume p) = in_flight p"
  by (auto simp: in_flight_def holdings_def consume_def queue_get_def
      split: sum.splits list.splits)

lemma admit_in_flight: "in_flight (admit p) = in_flight p"
  by (auto simp: in_flight_def holdings_def admit_def queue_put_def
      split: sum.splits list.splits if_splits)

lemma timed_step_in_flight: "in_flight (timed_step p c) = in_flight p + mset (records_put [c])"
  by (cases c)
     (simp_all add: put_or_wait_in_flight expire_in_flight admit_in_flight consume_in_flight)

lemma records_put_Cons:
  "mset (records_put (c # calls)) = mset (records_put [c]) + mset (records_put calls)"
  by (cases c) simp_all

lemma run_calls_in_flight: "in_flight (run_calls p calls) = in_flight p + mset (records_put calls)"
  unfolding run_calls_def
proof (induction calls arbitrary: p)
  case Nil
  show ?case by simp
next
  case (Cons c calls)
  show ?case
    by (simp add: Cons.IH timed_step_in_flight records_put_Cons [of c calls] ac_simps)
qed

text \<open>
  A \<open>put\<close> without timeout is never given up: in an interleaving of such puts and of gets,
  no Record is lost.
\<close>

lemma expire_no_deadline: "no_deadline p \<Longrightarrow> expire now p = p"
proof -
  assume "no_deadline p"
  then have "\<forall>w \<in> set (waiting p). \<not> timed_out now w"
    by (auto simp: no_deadline_def)
  then have "filter (timed_out now) (waiting p) = []"
    and "filter (\<lambda>w. \<not> timed_out now w) (waiting p) = waiting p"
    by (simp_all add: filter_empty_conv)
  then show ?thesis by (simp add: expire_def)
qed

lemma blocking_step:
  assumes "no_deadline p" and "\<not> with_timeout c"
  shows "no_deadline (timed_step p c) \<and> lost (timed_step p c) = lost p"
proof (cases c)
  case (Put_timeout x now)
  with assms(2) show ?thesis by simp
next
  case (Put_blocking x now)
  then show ?thesis
    using assms(1)
    by (auto simp: expire_no_deadline put_or_wait_def no_deadline_def split: sum.splits)
next
  case (Get_call now)
  then show ?thesis
    using assms(1)
    by (auto simp: expire_no_deadline admit_def consume_def no_deadline_def
        split: sum.splits list.splits)
next
  case (Clock now)
  then show ?thesis using assms(1) by (simp add: expire_no_deadline)
qed

lemma blocking_puts_lose_nothing:
  "no_deadline p \<Longrightarrow> \<forall>c \<in> set calls. \<not> with_timeout c \<Longrightarrow>
   lost (run_calls p calls) = lost p"
  unfolding run_calls_def
proof (induction calls arbitrary: p)
  case Nil
  show ?case by simp
next
  case (Cons c calls)
  have step: "no_deadline (timed_step p c)" "lost (timed_step p c) = lost p"
    using blocking_step [of p c] Cons.prems by simp_all
  from Cons.IH [OF step(1)] Cons.prems(2) step(2) show ?case by simp
qed


text \<open>The importer's queue, full: 200000 items, capacity 200000, nobody waiting.\<close>

definition full_queue :: "nat timed_pipeline" where
  "full_queue =
     \<lparr>queue = \<lparr>items = 0 # replicate 199999 0, maxsize = 200000\<rparr>, lost = [], taken = [],
      waiting = []\<rparr>"

text \<open>
  \<open>add_to_queue\<close>, which gives the state at the moment the call returns, is the timed
  \<open>put\<close> followed by its five seconds without a \<open>get\<close>.
\<close>

lemma timeout_then_clock:
  "0 < maxsize (queue p) \<Longrightarrow> length (items (queue p)) = maxsize (queue p) \<Longrightarrow>
   waiting p = [] \<Longrightarrow>
   run_calls p [Put_timeout x now, Clock (now + 5)] = add_record p x"
  by (simp add: run_calls_def expire_def put_or_wait_def queue_put_def add_record_def)


text \<open>
  Claim C2 (the CMA sales importer departs from it). The bound holds in every
  interleaving (\<open>run_calls_capacity\<close>), but \<open>add_to_queue\<close> does not block until there is
  space. On the full queue, a Record put at time 0 is given up at time 5: when the
  consumer frees a slot at time 6 the Record is neither queued nor delivered, it has been
  logged and dropped. The \<^verbatim>\<open>put(record)\<close> of the other importers keeps the same Record in
  the same interleaving, and so does \<open>add_to_queue\<close> when the slot is freed within the
  five seconds. Puts without timeout lose nothing in any interleaving
  (\<open>blocking_puts_lose_nothing\<close>).
\<close>

theorem add_to_queue_drops_record:
  "length (items (queue full_queue)) = maxsize (queue full_queue)
   \<and> add_to_queue full_queue [1] = full_queue\<lparr>lost := [1]\<rparr>
   \<and> run_calls full_queue [Put_timeout 1 0, Get_call 6]
       = \<lparr>queue = \<lparr>items = replicate 199999 0, maxsize = 200000\<rparr>, lost = [1], taken = [0],
          waiting = []\<rparr>
   \<and> run_calls full_queue [Put_blocking 1 0, Get_call 6]
       = \<lparr>queue = \<lparr>items = replicate 199999 0 @ [1], maxsize = 200000\<rparr>, lost = [], taken = [0],
          waiting = []\<rparr>
   \<and> run_calls full_queue [Put_timeout 1 0, Get_call 4]
       = \<lparr>queue = \<lparr>items = replicate 199999 0 @ [1], maxsize = 200000\<rparr>, lost = [], taken = [0],
          waiting = []\<rparr>"
  by (simp add: full_queue_def add_to_queue_def run_calls_def add_record_def consume_def
      queue_put_def queue_get_def expire_def put_or_wait_def admit_def)


section \<open>Flush triggers\<close>

text \<open>
  The Records an event brings, and the Records a worker has accepted so far: those in
  flushed batches, in order, followed by its buffer.
\<close>

fun received :: "'r worker_event \<Rightarrow> 'r list" where
  "received (Arrive Poison now) = []"
| "received (Arrive (Single r) now) = [r]"
| "received (Arrive (Chunk rs) now) = rs"
| "received (Idle now pc) = []"

definition handled :: "'r flusher \<Rightarrow> 'r list" where
  "handled s = concat (flushed s) @ buffer s"

lemma sales_flush_on_size:
  "batch_size \<le> int (length (buffer s)) + 1 \<Longrightarrow>
   flushed (sales_flusher_step batch_size s (Arrive (Single r) now)) = flushed s @ [buffer s @ [r]]
   \<and> buffer (sales_flusher_step batch_size s (Arrive (Single r) now)) = []"
  by (simp add: size_check_def flush_and_reset_def flush_buffer_def)

lemma sales_flush_on_interval:
  "buffer s \<noteq> [] \<Longrightarrow> now - last_flush_time s > 30 \<Longrightarrow>
   flushed (sales_flusher_step batch_size s (Idle now pc)) = flushed s @ [buffer s]
   \<and> buffer (sales_flusher_step batch_size s (Idle now pc)) = []"
  by (simp add: flush_and_reset_def flush_buffer_def leave_loop_def Let_def)

lemma sales_flush_on_shutdown:
  "flushed (sales_flusher_step batch_size s (Arrive Poison now))
     = (if buffer s = [] then flushed s else flushed s @ [buffer s])
   \<and> buffer (sales_flusher_step batch_size s (Arrive Poison now)) = []
   \<and> finished (sales_flusher_step batch_size s (Arrive Poison now))"
  by (simp add: leave_loop_def flush_buffer_def)

lemma sales_flush_on_completion:
  "buffer s \<noteq> [] \<Longrightarrow>
   flushed (sales_flusher_step batch_size s (Idle now True)) = flushed s @ [buffer s]
   \<and> buffer (sales_flusher_step batch_size s (Idle now True)) = []
   \<and> finished (sales_flusher_step batch_size s (Idle now True))"
  by (simp add: flush_and_reset_def flush_buffer_def leave_loop_def Let_def)

lemma rents_flush_on_size:
  "batch_size \<le> int (length (buffer s)) + 1 \<Longrightarrow>
   flushed (rents_flusher_step batch_size s (Item_arrives (Some r) now)) = flushed s @ [buffer s @ [r]]
   \<and> buffer (rents_flusher_step batch_size s (Item_arrives (Some r) now)) = []"
  by (simp add: flush_and_reset_def flush_buffer_def Let_def)

lemma rents_flush_on_idle:
  "buffer s \<noteq> [] \<Longrightarrow>
   flushed (rents_flusher_step batch_size s (No_item now)) = flushed s @ [buffer s]
   \<and> buffer (rents_flusher_step batch_size s (No_item now)) = []"
  by (simp add: flush_and_reset_def flush_buffer_def)

lemma rents_flush_on_shutdown:
  "flushed (rents_flusher_step batch_size s (Item_arrives None now))
     = (if buffer s = [] then flushed s else flushed s @ [buffer s])
   \<and> finished (rents_flusher_step batch_size s (Item_arrives None now))"
  by (simp add: flush_buffer_def)


lemma handled_flush_and_reset:
  "buffer s = b \<Longrightarrow> handled (flush_and_reset s b now) = handled s"
  by (simp add: handled_def flush_and_reset_def flush_buffer_def)

lemma handled_leave_loop: "handled (leave_loop s) = handled s"
  by (simp add: handled_def leave_loop_def flush_buffer_def)

lemma sales_step_handled:
  "handled (sales_flusher_step batch_size s ev) = handled s @ received ev"
proof (cases ev)
  case (Arrive item now)
  then show ?thesis
    by (cases item)
       (simp_all add: handled_leave_loop size_check_def handled_flush_and_reset, 
        simp_all add: handled_def)
next
  case (Idle now pc)
  then show ?thesis
    by (simp add: Let_def handled_leave_loop handled_flush_and_reset)
qed

lemma sales_worker_handled:
  "\<exists>done. handled (run_worker (sales_flusher_step batch_size) s evs) = handled s @ done"
proof (induction evs arbitrary: s)
  case Nil
  show ?case by simp
next
  case (Cons ev evs)
  show ?case
  proof (cases "finished s")
    case True
    then show ?thesis by simp
  next
    case False
    obtain d where "handled (run_worker (sales_flusher_step batch_size)
        (sales_flusher_step batch_size s ev) evs) = handled (sales_flusher_step batch_size s ev) @ d"
      using Cons.IH by blast
    with False show ?thesis by (simp add: sales_step_handled)
  qed
qed

lemma sales_worker_shutdown:
  "finished (run_worker (sales_flusher_step batch_size) s (evs @ [Arrive Poison now]))
   \<and> (\<not> finished s \<longrightarrow>
        buffer (run_worker (sales_flusher_step batch_size) s (evs @ [Arrive Poison now])) = [])"
proof (induction evs arbitrary: s)
  case Nil
  show ?case by (simp add: leave_loop_def)
next
  case (Cons ev evs)
  show ?case
  proof (cases "finished s")
    case True
    then show ?thesis by simp
  next
    case False
    show ?thesis
    proof (cases "finished (sales_flusher_step batch_size s ev)")
      case f: True
      have "buffer (sales_flusher_step batch_size s ev) = []"
      proof (cases ev)
        case (Arrive item t)
        with f False show ?thesis
          by (cases item) (auto simp: leave_loop_def size_check_def flush_and_reset_def
              flush_buffer_def split: if_splits)
      next
        case (Idle t pc)
        with f False show ?thesis
          by (auto simp: leave_loop_def flush_and_reset_def flush_buffer_def Let_def
              split: if_splits)
      qed
      moreover have "run_worker (sales_flusher_step batch_size) (sales_flusher_step batch_size s ev)
          (evs @ [Arrive Poison now]) = sales_flusher_step batch_size s ev"
        using f by (cases "evs @ [Arrive Poison now]") simp_all
      ultimately show ?thesis using False f by simp
    next
      case nf: False
      with Cons.IH [of "sales_flusher_step batch_size s ev"] False show ?thesis by simp
    qed
  qed
qed


text \<open>
  The events at which the CMA sales worker leaves its loop: the shutdown signal, and a
  wait without arrivals during which \<open>processing_complete\<close> is set. \<open>accepted\<close> lists the
  Records of the events up to the first of these, which are the Records the worker takes
  before it returns; \<open>rents_accepted\<close> does the same for the CMA2 rents worker, whose only
  exit is the shutdown signal.
\<close>

fun leaves_loop :: "'r worker_event \<Rightarrow> bool" where
  "leaves_loop (Arrive Poison now) = True"
| "leaves_loop (Arrive (Single r) now) = False"
| "leaves_loop (Arrive (Chunk rs) now) = False"
| "leaves_loop (Idle now processing_complete) = processing_complete"

fun accepted :: "'r worker_event list \<Rightarrow> 'r list" where
  "accepted [] = []"
| "accepted (ev # evs) = (if leaves_loop ev then [] else received ev @ accepted evs)"

fun rents_accepted :: "'r rents_event list \<Rightarrow> 'r list" where
  "rents_accepted [] = []"
| "rents_accepted (Item_arrives None now # evs) = []"
| "rents_accepted (Item_arrives (Some r) now # evs) = r # rents_accepted evs"
| "rents_accepted (No_item now # evs) = rents_accepted evs"

lemma sales_flush_on_chunk:
  "rs \<noteq> [] \<Longrightarrow> batch_size \<le> int (length (buffer s) + length rs) \<Longrightarrow>
   flushed (sales_flusher_step batch_size s (Arrive (Chunk rs) now)) = flushed s @ [buffer s @ rs]
   \<and> buffer (sales_flusher_step batch_size s (Arrive (Chunk rs) now)) = []"
  by (simp add: size_check_def flush_and_reset_def flush_buffer_def)

lemma sales_exit_on_completion:
  "flushed (sales_flusher_step batch_size s (Idle now True))
     = (if buffer s = [] then flushed s else flushed s @ [buffer s])
   \<and> buffer (sales_flusher_step batch_size s (Idle now True)) = []
   \<and> finished (sales_flusher_step batch_size s (Idle now True))"
  by (simp add: flush_and_reset_def flush_buffer_def leave_loop_def Let_def)

lemma sales_step_finished:
  assumes "\<not> finished s"
  shows "finished (sales_flusher_step batch_size s ev) = leaves_loop ev"
proof (cases ev)
  case (Arrive item now)
  with assms show ?thesis
    by (cases item)
       (simp_all add: leave_loop_def size_check_def flush_and_reset_def flush_buffer_def)
next
  case (Idle now pc)
  with assms show ?thesis
    by (simp add: leave_loop_def flush_and_reset_def flush_buffer_def Let_def)
qed

lemma sales_step_exit_buffer:
  assumes "leaves_loop ev"
  shows "buffer (sales_flusher_step batch_size s ev) = []"
proof (cases ev)
  case (Arrive item now)
  with assms show ?thesis by (cases item) (simp_all add: leave_loop_def)
next
  case (Idle now pc)
  with assms show ?thesis by (simp add: leave_loop_def Let_def)
qed

lemma received_exit:
  assumes "leaves_loop ev"
  shows "received ev = []"
proof (cases ev)
  case (Arrive item now)
  with assms show ?thesis by (cases item) simp_all
next
  case (Idle now pc)
  then show ?thesis by simp
qed

lemma run_worker_finished: "finished s \<Longrightarrow> run_worker step s evs = s"
  by (cases evs) simp_all

lemma sales_worker_accepts:
  "\<not> finished s \<Longrightarrow>
   handled (run_worker (sales_flusher_step batch_size) s evs) = handled s @ accepted evs"
proof (induction evs arbitrary: s)
  case Nil
  show ?case by simp
next
  case (Cons ev evs)
  show ?case
  proof (cases "leaves_loop ev")
    case True
    then have "finished (sales_flusher_step batch_size s ev)"
      using Cons.prems by (simp add: sales_step_finished)
    then have "run_worker (sales_flusher_step batch_size) (s) (ev # evs)
        = sales_flusher_step batch_size s ev"
      using Cons.prems by (simp add: run_worker_finished)
    with True show ?thesis by (simp add: sales_step_handled received_exit)
  next
    case False
    then have nf: "\<not> finished (sales_flusher_step batch_size s ev)"
      using Cons.prems by (simp add: sales_step_finished)
    from Cons.IH [OF nf] Cons.prems False show ?thesis
      by (simp add: sales_step_handled)
  qed
qed

lemma sales_worker_exit:
  "\<not> finished s \<Longrightarrow> \<exists>ev \<in> set evs. leaves_loop ev \<Longrightarrow>
   finished (run_worker (sales_flusher_step batch_size) s evs)
   \<and> buffer (run_worker (sales_flusher_step batch_size) s evs) = []"
proof (induction evs arbitrary: s)
  case Nil
  then show ?case by simp
next
  case (Cons ev evs)
  show ?case
  proof (cases "leaves_loop ev")
    case True
    then have f: "finished (sales_flusher_step batch_size s ev)"
      using Cons.prems(1) by (simp add: sales_step_finished)
    then have "run_worker (sales_flusher_step batch_size) s (ev # evs)
        = sales_flusher_step batch_size s ev"
      using Cons.prems(1) by (simp add: run_worker_finished)
    with f True show ?thesis by (simp add: sales_step_exit_buffer)
  next
    case False
    then have nf: "\<not> finished (sales_flusher_step batch_size s ev)"
      using Cons.prems(1) by (simp add: sales_step_finished)
    from False Cons.prems(2) have "\<exists>ev \<in> set evs. leaves_loop ev" by simp
    from Cons.IH [OF nf this] Cons.prems(1) show ?thesis by simp
  qed
qed

lemma sales_worker_flushes_all:
  assumes "\<not> finished s" and "\<exists>ev \<in> set evs. leaves_loop ev"
  shows "concat (flushed (run_worker (sales_flusher_step batch_size) s evs))
           = concat (flushed s) @ buffer s @ accepted evs"
proof -
  have "buffer (run_worker (sales_flusher_step batch_size) s evs) = []"
    using sales_worker_exit [OF assms] by simp
  then have "concat (flushed (run_worker (sales_flusher_step batch_size) s evs))
      = handled (run_worker (sales_flusher_step batch_size) s evs)"
    by (simp add: handled_def)
  also have "\<dots> = handled s @ accepted evs" by (rule sales_worker_accepts [OF assms(1)])
  finally show ?thesis by (simp add: handled_def)
qed

lemma rents_step_handled:
  "handled (rents_flusher_step batch_size s (Item_arrives (Some r) now)) = handled s @ [r]"
  "handled (rents_flusher_step batch_size s (No_item now)) = handled s"
  "finished (rents_flusher_step batch_size s (Item_arrives (Some r) now)) = finished s"
  "finished (rents_flusher_step batch_size s (No_item now)) = finished s"
  by (simp_all add: handled_def flush_and_reset_def flush_buffer_def Let_def)

lemma rents_worker_flushes_all:
  assumes "\<not> finished s" and "\<exists>now. Item_arrives None now \<in> set evs"
  shows "finished (run_worker (rents_flusher_step batch_size) s evs)
   \<and> concat (flushed (run_worker (rents_flusher_step batch_size) s evs))
       = concat (flushed s) @ buffer s @ rents_accepted evs"
  using assms
proof (induction evs arbitrary: s)
  case Nil
  then show ?case by simp
next
  case (Cons ev evs)
  show ?case
  proof (cases ev)
    case (No_item t)
    with Cons.prems have nf: "\<not> finished (rents_flusher_step batch_size s ev)"
      and ex: "\<exists>now. Item_arrives None now \<in> set evs"
      by (simp_all add: rents_step_handled del: rents_flusher_step.simps)
    from Cons.IH [OF nf ex] Cons.prems(1) No_item
    show ?thesis using rents_step_handled(2) [of batch_size s t]
      by (simp add: handled_def del: rents_flusher_step.simps)
  next
    case (Item_arrives item t)
    show ?thesis
    proof (cases item)
      case None
      have f: "finished (rents_flusher_step batch_size s (Item_arrives None t))" by simp
      have "run_worker (rents_flusher_step batch_size) s (ev # evs)
          = rents_flusher_step batch_size s (Item_arrives None t)"
        using Cons.prems(1) Item_arrives None f by (simp add: run_worker_finished)
      then show ?thesis using Item_arrives None by (simp add: flush_buffer_def)
    next
      case (Some r)
      with Cons.prems Item_arrives have nf: "\<not> finished (rents_flusher_step batch_size s ev)"
        and ex: "\<exists>now. Item_arrives None now \<in> set evs"
        by (simp_all add: rents_step_handled del: rents_flusher_step.simps)
      from Cons.IH [OF nf ex] Cons.prems(1) Item_arrives Some
      show ?thesis using rents_step_handled(1) [of batch_size s r t]
        by (simp add: handled_def del: rents_flusher_step.simps)
    qed
  qed
qed


lemma sales_no_flush:
  "int (length (buffer s)) + 1 < batch_size \<Longrightarrow>
   sales_flusher_step batch_size s (Arrive (Single r) now) = s\<lparr>buffer := buffer s @ [r]\<rparr>"
  "int (length (buffer s) + length rs) < batch_size \<Longrightarrow>
   sales_flusher_step batch_size s (Arrive (Chunk rs) now) = s\<lparr>buffer := buffer s @ rs\<rparr>"
  "buffer s = [] \<or> now - last_flush_time s \<le> 30 \<Longrightarrow>
   sales_flusher_step batch_size s (Idle now False) = s"
  by (auto simp: size_check_def Let_def)

lemma rents_no_flush:
  "int (length (buffer s)) + 1 < batch_size \<Longrightarrow> now - last_flush_time s \<le> 5 \<Longrightarrow>
   rents_flusher_step batch_size s (Item_arrives (Some r) now) = s\<lparr>buffer := buffer s @ [r]\<rparr>"
  "buffer s = [] \<Longrightarrow> rents_flusher_step batch_size s (No_item now) = s"
  by (auto simp: Let_def)

lemma rents_flush_on_age:
  "now - last_flush_time s > 5 \<Longrightarrow>
   flushed (rents_flusher_step batch_size s (Item_arrives (Some r) now)) = flushed s @ [buffer s @ [r]]
   \<and> buffer (rents_flusher_step batch_size s (Item_arrives (Some r) now)) = []"
  by (simp add: flush_and_reset_def flush_buffer_def Let_def)


text \<open>
  Claim C7. For every buffer state of a Flush Worker, in both importers: an arriving
  Record that brings the buffer to \<open>batch_size\<close> makes the worker flush the whole buffer,
  the new Record included, in that pass of the loop and leaves the buffer empty (so does
  a re-queued chunk, in the CMA sales worker); below \<open>batch_size\<close> the arrival is
  buffered and nothing is flushed. A non-empty buffer is flushed as a whole at the first
  one-second wait without arrivals that ends after the flush interval has elapsed since
  the last flush (thirty seconds in the CMA sales worker; the CMA2 rents worker flushes at
  the first such wait, whatever the time, and also on an arrival more than five seconds
  after the last flush). On a shutdown request the buffered partial batch is flushed and
  the worker ends: at the shutdown signal \<open>None\<close> in both workers, and in the CMA sales
  worker also at a wait during which \<open>processing_complete\<close> is set. Over a whole run no
  Record is lost or repeated: the flushed batches and the buffer hold, in order, what the
  worker held at the start and the Records it accepted, and once the worker has left its
  loop all of them are in flushed batches.
\<close>

theorem flush_triggers:
  "(batch_size \<le> int (length (buffer s)) + 1 \<longrightarrow>
      flushed (sales_flusher_step batch_size s (Arrive (Single r) now)) = flushed s @ [buffer s @ [r]]
      \<and> buffer (sales_flusher_step batch_size s (Arrive (Single r) now)) = []
      \<and> flushed (rents_flusher_step batch_size s (Item_arrives (Some r) now))
          = flushed s @ [buffer s @ [r]]
      \<and> buffer (rents_flusher_step batch_size s (Item_arrives (Some r) now)) = [])
   \<and> (rs \<noteq> [] \<and> batch_size \<le> int (length (buffer s) + length rs) \<longrightarrow>
      flushed (sales_flusher_step batch_size s (Arrive (Chunk rs) now)) = flushed s @ [buffer s @ rs]
      \<and> buffer (sales_flusher_step batch_size s (Arrive (Chunk rs) now)) = [])
   \<and> (int (length (buffer s)) + 1 < batch_size \<longrightarrow>
      sales_flusher_step batch_size s (Arrive (Single r) now) = s\<lparr>buffer := buffer s @ [r]\<rparr>
      \<and> (now - last_flush_time s \<le> 5 \<longrightarrow>
           rents_flusher_step batch_size s (Item_arrives (Some r) now)
             = s\<lparr>buffer := buffer s @ [r]\<rparr>))
   \<and> (int (length (buffer s) + length rs) < batch_size \<longrightarrow>
      sales_flusher_step batch_size s (Arrive (Chunk rs) now) = s\<lparr>buffer := buffer s @ rs\<rparr>)
   \<and> (buffer s \<noteq> [] \<and> now - last_flush_time s > 30 \<longrightarrow>
      flushed (sales_flusher_step batch_size s (Idle now pc)) = flushed s @ [buffer s]
      \<and> buffer (sales_flusher_step batch_size s (Idle now pc)) = [])
   \<and> (buffer s = [] \<or> now - last_flush_time s \<le> 30 \<longrightarrow>
      sales_flusher_step batch_size s (Idle now False) = s)
   \<and> (buffer s \<noteq> [] \<longrightarrow>
      flushed (rents_flusher_step batch_size s (No_item now)) = flushed s @ [buffer s]
      \<and> buffer (rents_flusher_step batch_size s (No_item now)) = [])
   \<and> (now - last_flush_time s > 5 \<longrightarrow>
      flushed (rents_flusher_step batch_size s (Item_arrives (Some r) now))
        = flushed s @ [buffer s @ [r]]
      \<and> buffer (rents_flusher_step batch_size s (Item_arrives (Some r) now)) = [])
   \<and> flushed (sales_flusher_step batch_size s (Arrive Poison now))
        = (if buffer s = [] then flushed s else flushed s @ [buffer s])
   \<and> buffer (sales_flusher_step batch_size s (Arrive Poison now)) = []
   \<and> finished (sales_flusher_step batch_size s (Arrive Poison now))
   \<and> flushed (sales_flusher_step batch_size s (Idle now True))
        = (if buffer s = [] then flushed s else flushed s @ [buffer s])
   \<and> buffer (sales_flusher_step batch_size s (Idle now True)) = []
   \<and> finished (sales_flusher_step batch_size s (Idle now True))
   \<and> flushed (rents_flusher_step batch_size s (Item_arrives None now))
        = (if buffer s = [] then flushed s else flushed s @ [buffer s])
   \<and> finished (rents_flusher_step batch_size s (Item_arrives None now))
   \<and> (\<not> finished s \<longrightarrow>
        handled (run_worker (sales_flusher_step batch_size) s evs) = handled s @ accepted evs
        \<and> finished (run_worker (sales_flusher_step batch_size) s (evs @ [Arrive Poison now]))
        \<and> buffer (run_worker (sales_flusher_step batch_size) s (evs @ [Arrive Poison now])) = []
        \<and> ((\<exists>ev \<in> set evs. leaves_loop ev) \<longrightarrow>
             finished (run_worker (sales_flusher_step batch_size) s evs)
             \<and> buffer (run_worker (sales_flusher_step batch_size) s evs) = []
             \<and> concat (flushed (run_worker (sales_flusher_step batch_size) s evs))
                 = concat (flushed s) @ buffer s @ accepted evs)
        \<and> ((\<exists>t. Item_arrives None t \<in> set rent_evs) \<longrightarrow>
             finished (run_worker (rents_flusher_step batch_size) s rent_evs)
             \<and> concat (flushed (run_worker (rents_flusher_step batch_size) s rent_evs))
                 = concat (flushed s) @ buffer s @ rents_accepted rent_evs))"
proof -
  have c1: "batch_size \<le> int (length (buffer s)) + 1 \<longrightarrow>
      flushed (sales_flusher_step batch_size s (Arrive (Single r) now)) = flushed s @ [buffer s @ [r]]
      \<and> buffer (sales_flusher_step batch_size s (Arrive (Single r) now)) = []
      \<and> flushed (rents_flusher_step batch_size s (Item_arrives (Some r) now))
          = flushed s @ [buffer s @ [r]]
      \<and> buffer (rents_flusher_step batch_size s (Item_arrives (Some r) now)) = []"
    using sales_flush_on_size [of batch_size s r now] rents_flush_on_size [of batch_size s r now]
    by blast
  have c2: "rs \<noteq> [] \<and> batch_size \<le> int (length (buffer s) + length rs) \<longrightarrow>
      flushed (sales_flusher_step batch_size s (Arrive (Chunk rs) now)) = flushed s @ [buffer s @ rs]
      \<and> buffer (sales_flusher_step batch_size s (Arrive (Chunk rs) now)) = []"
    using sales_flush_on_chunk [of rs batch_size s now] by blast
  have c3: "int (length (buffer s)) + 1 < batch_size \<longrightarrow>
      sales_flusher_step batch_size s (Arrive (Single r) now) = s\<lparr>buffer := buffer s @ [r]\<rparr>
      \<and> (now - last_flush_time s \<le> 5 \<longrightarrow>
           rents_flusher_step batch_size s (Item_arrives (Some r) now)
             = s\<lparr>buffer := buffer s @ [r]\<rparr>)"
    using sales_no_flush(1) [of s batch_size r now] rents_no_flush(1) [of s batch_size now r]
    by blast
  have c4: "int (length (buffer s) + length rs) < batch_size \<longrightarrow>
      sales_flusher_step batch_size s (Arrive (Chunk rs) now) = s\<lparr>buffer := buffer s @ rs\<rparr>"
    using sales_no_flush(2) [of s rs batch_size now] by blast
  have c5: "buffer s \<noteq> [] \<and> now - last_flush_time s > 30 \<longrightarrow>
      flushed (sales_flusher_step batch_size s (Idle now pc)) = flushed s @ [buffer s]
      \<and> buffer (sales_flusher_step batch_size s (Idle now pc)) = []"
    using sales_flush_on_interval [of s now batch_size pc] by blast
  have c6: "buffer s = [] \<or> now - last_flush_time s \<le> 30 \<longrightarrow>
      sales_flusher_step batch_size s (Idle now False) = s"
    using sales_no_flush(3) [of s now batch_size] by blast
  have c7: "buffer s \<noteq> [] \<longrightarrow>
      flushed (rents_flusher_step batch_size s (No_item now)) = flushed s @ [buffer s]
      \<and> buffer (rents_flusher_step batch_size s (No_item now)) = []"
    using rents_flush_on_idle [of s batch_size now] by blast
  have c8: "now - last_flush_time s > 5 \<longrightarrow>
      flushed (rents_flusher_step batch_size s (Item_arrives (Some r) now))
        = flushed s @ [buffer s @ [r]]
      \<and> buffer (rents_flusher_step batch_size s (Item_arrives (Some r) now)) = []"
    using rents_flush_on_age [of now s batch_size r] by blast
  have c9: "flushed (sales_flusher_step batch_size s (Arrive Poison now))
        = (if buffer s = [] then flushed s else flushed s @ [buffer s])
   \<and> buffer (sales_flusher_step batch_size s (Arrive Poison now)) = []
   \<and> finished (sales_flusher_step batch_size s (Arrive Poison now))"
    by (rule sales_flush_on_shutdown)
  have c10: "flushed (sales_flusher_step batch_size s (Idle now True))
        = (if buffer s = [] then flushed s else flushed s @ [buffer s])
   \<and> buffer (sales_flusher_step batch_size s (Idle now True)) = []
   \<and> finished (sales_flusher_step batch_size s (Idle now True))"
    by (rule sales_exit_on_completion)
  have c11: "flushed (rents_flusher_step batch_size s (Item_arrives None now))
        = (if buffer s = [] then flushed s else flushed s @ [buffer s])
   \<and> finished (rents_flusher_step batch_size s (Item_arrives None now))"
    by (rule rents_flush_on_shutdown)
  have c12: "\<not> finished s \<longrightarrow>
        handled (run_worker (sales_flusher_step batch_size) s evs) = handled s @ accepted evs
        \<and> finished (run_worker (sales_flusher_step batch_size) s (evs @ [Arrive Poison now]))
        \<and> buffer (run_worker (sales_flusher_step batch_size) s (evs @ [Arrive Poison now])) = []
        \<and> ((\<exists>ev \<in> set evs. leaves_loop ev) \<longrightarrow>
             finished (run_worker (sales_flusher_step batch_size) s evs)
             \<and> buffer (run_worker (sales_flusher_step batch_size) s evs) = []
             \<and> concat (flushed (run_worker (sales_flusher_step batch_size) s evs))
                 = concat (flushed s) @ buffer s @ accepted evs)
        \<and> ((\<exists>t. Item_arrives None t \<in> set rent_evs) \<longrightarrow>
             finished (run_worker (rents_flusher_step batch_size) s rent_evs)
             \<and> concat (flushed (run_worker (rents_flusher_step batch_size) s rent_evs))
                 = concat (flushed s) @ buffer s @ rents_accepted rent_evs)"
  proof
    assume nf: "\<not> finished s"
    have a: "handled (run_worker (sales_flusher_step batch_size) s evs) = handled s @ accepted evs"
      by (rule sales_worker_accepts [OF nf])
    have b: "finished (run_worker (sales_flusher_step batch_size) s (evs @ [Arrive Poison now]))"
      and b': "buffer (run_worker (sales_flusher_step batch_size) s (evs @ [Arrive Poison now])) = []"
      using sales_worker_shutdown [of batch_size s evs now] nf by blast+
    have c: "(\<exists>ev \<in> set evs. leaves_loop ev) \<longrightarrow>
             finished (run_worker (sales_flusher_step batch_size) s evs)
             \<and> buffer (run_worker (sales_flusher_step batch_size) s evs) = []
             \<and> concat (flushed (run_worker (sales_flusher_step batch_size) s evs))
                 = concat (flushed s) @ buffer s @ accepted evs"
      using sales_worker_exit [OF nf, of evs batch_size]
        sales_worker_flushes_all [OF nf, of evs batch_size] by blast
    have d: "(\<exists>t. Item_arrives None t \<in> set rent_evs) \<longrightarrow>
             finished (run_worker (rents_flusher_step batch_size) s rent_evs)
             \<and> concat (flushed (run_worker (rents_flusher_step batch_size) s rent_evs))
                 = concat (flushed s) @ buffer s @ rents_accepted rent_evs"
      using rents_worker_flushes_all [OF nf, of rent_evs batch_size] by blast
    show "handled (run_worker (sales_flusher_step batch_size) s evs) = handled s @ accepted evs
        \<and> finished (run_worker (sales_flusher_step batch_size) s (evs @ [Arrive Poison now]))
        \<and> buffer (run_worker (sales_flusher_step batch_size) s (evs @ [Arrive Poison now])) = []
        \<and> ((\<exists>ev \<in> set evs. leaves_loop ev) \<longrightarrow>
             finished (run_worker (sales_flusher_step batch_size) s evs)
             \<and> buffer (run_worker (sales_flusher_step batch_size) s evs) = []
             \<and> concat (flushed (run_worker (sales_flusher_step batch_size) s evs))
                 = concat (flushed s) @ buffer s @ accepted evs)
        \<and> ((\<exists>t. Item_arrives None t \<in> set rent_evs) \<longrightarrow>
             finished (run_worker (rents_flusher_step batch_size) s rent_evs)
             \<and> concat (flushed (run_worker (rents_flusher_step batch_size) s rent_evs))
                 = concat (flushed s) @ buffer s @ rents_accepted rent_evs)"
      by (intro conjI) (rule a b b' c d)+
  qed
  show ?thesis
    by (intro conjI) (rule c1 c2 c3 c4 c5 c6 c7 c8 c9 [THEN conjunct1]
        c9 [THEN conjunct2, THEN conjunct1] c9 [THEN conjunct2, THEN conjunct2]
        c10 [THEN conjunct1] c10 [THEN conjunct2, THEN conjunct1] c10 [THEN conjunct2, THEN conjunct2]
        c11 [THEN conjunct1] c11 [THEN conjunct2] c12)+
qed

definition sample_worker :: "nat flusher" where
  "sample_worker = \<lparr>buffer = [1, 2], last_flush_time = 0, flushed = [], finished = False\<rparr>"

theorem flush_triggers_witness:
  "3 \<le> int (length (buffer sample_worker)) + 1
   \<and> [4, 5 :: nat] \<noteq> [] \<and> 3 \<le> int (length (buffer sample_worker) + length [4, 5 :: nat])
   \<and> int (length (buffer sample_worker)) + 1 < 10
   \<and> buffer sample_worker \<noteq> [] \<and> 31 - last_flush_time sample_worker > 30
   \<and> \<not> finished sample_worker
   \<and> (\<exists>ev \<in> set [Arrive (Single (3 :: nat)) 1, Arrive (Chunk [4, 5]) 2, Idle 3 True,
                     Arrive (Single 6) 4]. leaves_loop ev)
   \<and> (\<exists>t. Item_arrives None t
          \<in> set [Item_arrives (Some (3 :: nat)) 1, No_item 2, Item_arrives None 3])
   \<and> flushed (sales_flusher_step 3 sample_worker (Arrive (Single 3) 31)) = [[1, 2, 3]]
   \<and> flushed (sales_flusher_step 3 sample_worker (Arrive (Chunk [4, 5]) 31)) = [[1, 2, 4, 5]]
   \<and> sales_flusher_step 10 sample_worker (Arrive (Single 3) 31) = sample_worker\<lparr>buffer := [1, 2, 3]\<rparr>
   \<and> flushed (sales_flusher_step 3 sample_worker (Idle 31 False)) = [[1, 2]]
   \<and> flushed (sales_flusher_step 3 sample_worker (Arrive Poison 31)) = [[1, 2]]
   \<and> flushed (sales_flusher_step 3 sample_worker (Idle 31 True)) = [[1, 2]]
   \<and> finished (sales_flusher_step 3 sample_worker (Idle 31 True))
   \<and> concat (flushed (run_worker (sales_flusher_step 10) sample_worker
        [Arrive (Single 3) 1, Arrive (Chunk [4, 5]) 2, Idle 3 True, Arrive (Single 6) 4]))
       = [1, 2, 3, 4, 5]
   \<and> concat (flushed (run_worker (rents_flusher_step 10) sample_worker
        [Item_arrives (Some 3) 1, No_item 2, Item_arrives None 3])) = [1, 2, 3]"
proof -
  have h1: "3 \<le> int (length (buffer sample_worker)) + 1"
    and h2: "[4, 5] \<noteq> ([] :: nat list)" "3 \<le> int (length (buffer sample_worker) + length [4, 5 :: nat])"
    and h3: "int (length (buffer sample_worker)) + 1 < 10"
    and h4: "buffer sample_worker \<noteq> []" "31 - last_flush_time sample_worker > 30"
    and h5: "\<not> finished sample_worker"
    and v: "flushed sample_worker = []" "buffer sample_worker = [1, 2]"
    by (simp_all add: sample_worker_def)
  have h6: "\<exists>ev \<in> set [Arrive (Single 3) 1, Arrive (Chunk [4, 5]) 2, Idle 3 True,
      Arrive (Single (6 :: nat)) 4]. leaves_loop ev"
    by simp
  have h7: "\<exists>t. Item_arrives None t
      \<in> set [Item_arrives (Some (3 :: nat)) 1, No_item 2, Item_arrives None 3]"
    by simp
  note a = flush_triggers [of 3 sample_worker 3 31 "[4, 5]" False
      "[Arrive (Single 3) 1, Arrive (Chunk [4, 5]) 2, Idle 3 True, Arrive (Single 6) 4]"
      "[Item_arrives (Some 3) 1, No_item 2, Item_arrives None 3]"]
  note b = flush_triggers [of 10 sample_worker 3 31 "[4, 5]" False
      "[Arrive (Single 3) 1, Arrive (Chunk [4, 5]) 2, Idle 3 True, Arrive (Single 6) 4]"
      "[Item_arrives (Some 3) 1, No_item 2, Item_arrives None 3]"]
  have c1: "flushed (sales_flusher_step 3 sample_worker (Arrive (Single 3) 31)) = [[1, 2, 3]]"
    using a h1 by (simp add: v)
  have c2: "flushed (sales_flusher_step 3 sample_worker (Arrive (Chunk [4, 5]) 31)) = [[1, 2, 4, 5]]"
    using a h2 by (simp add: v)
  have c3: "sales_flusher_step 10 sample_worker (Arrive (Single 3) 31)
      = sample_worker\<lparr>buffer := [1, 2, 3]\<rparr>"
    using b h3 by (simp add: v)
  have c4: "flushed (sales_flusher_step 3 sample_worker (Idle 31 False)) = [[1, 2]]"
    using a h4 by (simp add: v)
  have c5: "flushed (sales_flusher_step 3 sample_worker (Arrive Poison 31)) = [[1, 2]]"
    using a by (simp add: v)
  have c6: "flushed (sales_flusher_step 3 sample_worker (Idle 31 True)) = [[1, 2]]"
    "finished (sales_flusher_step 3 sample_worker (Idle 31 True))"
    using a by (simp_all add: v)
  have c7: "concat (flushed (run_worker (sales_flusher_step 10) sample_worker
        [Arrive (Single 3) 1, Arrive (Chunk [4, 5]) 2, Idle 3 True, Arrive (Single 6) 4]))
       = [1, 2, 3, 4, 5]"
    using b h5 h6 by (simp add: v)
  have c8: "concat (flushed (run_worker (rents_flusher_step 10) sample_worker
        [Item_arrives (Some 3) 1, No_item 2, Item_arrives None 3])) = [1, 2, 3]"
    using b h5 h7 by (simp add: v)
  from h1 h2 h3 h4 h5 h6 h7 c1 c2 c3 c4 c5 c6 c7 c8 show ?thesis by blast
qed


section \<open>The adaptive rate limiter (\<open>import_transaction_rent.py\<close>)\<close>

text \<open>
  \<open>AdaptiveRateLimiter\<close>. Rates and clock readings are Python floats; they are modelled
  as real numbers, so rounding is not part of the model. \<open>timeout_errors\<close> and
  \<open>success_requests\<close> are \<open>deque(maxlen=100)\<close>: appending to a full deque drops its oldest
  element. Each method reads the clock once per call here (\<open>now\<close>).
\<close>

record rate_limiter =
  current_rate :: real
  min_rate :: real
  max_rate :: real
  last_adjustment :: real
  adjustment_interval :: real
  timeout_errors :: "real list"
  success_requests :: "real list"
  total_requests :: nat
  total_timeouts :: nat
  total_429_errors :: nat

text \<open>\<open>__init__(initial_rate, min_rate, max_rate)\<close> at clock reading \<open>now\<close>.\<close>

definition new_rate_limiter :: "real \<Rightarrow> real \<Rightarrow> real \<Rightarrow> real \<Rightarrow> rate_limiter" where
  "new_rate_limiter now initial_rate lo hi =
     \<lparr>current_rate = initial_rate, min_rate = lo, max_rate = hi, last_adjustment = now,
      adjustment_interval = 30, timeout_errors = [], success_requests = [],
      total_requests = 0, total_timeouts = 0, total_429_errors = 0\<rparr>"

definition deque_append :: "nat \<Rightarrow> 'a list \<Rightarrow> 'a \<Rightarrow> 'a list" where
  "deque_append maxlen xs x = drop (length xs + 1 - maxlen) (xs @ [x])"

text \<open>The \<open>error_type\<close> argument: \<open>'timeout'\<close>, \<open>'429'\<close> or \<open>None\<close>.\<close>

datatype error_type = Timeout_error | Too_many_requests | No_type

definition record_request :: "real \<Rightarrow> bool \<Rightarrow> error_type \<Rightarrow> rate_limiter \<Rightarrow> rate_limiter" where
  "record_request now success et s =
     (let s1 = s\<lparr>total_requests := total_requests s + 1\<rparr> in
      if success then s1\<lparr>success_requests := deque_append 100 (success_requests s1) now\<rparr>
      else (case et of
              Timeout_error \<Rightarrow>
                s1\<lparr>timeout_errors := deque_append 100 (timeout_errors s1) now,
                   total_timeouts := total_timeouts s1 + 1\<rparr>
            | Too_many_requests \<Rightarrow> s1\<lparr>total_429_errors := total_429_errors s1 + 1\<rparr>
            | No_type \<Rightarrow> s1))"

definition should_adjust :: "real \<Rightarrow> rate_limiter \<Rightarrow> bool" where
  "should_adjust now s \<longleftrightarrow> now - last_adjustment s > adjustment_interval s"

text \<open>
  The two rates computed in \<open>adjust_rate\<close>: timeouts of the last two minutes over the
  recorded successes plus those timeouts, and all 429 responses over all requests.
\<close>

definition recent_timeouts :: "real \<Rightarrow> rate_limiter \<Rightarrow> nat" where
  "recent_timeouts now s = length (filter (\<lambda>t. now - t < 120) (timeout_errors s))"

definition timeout_rate :: "real \<Rightarrow> rate_limiter \<Rightarrow> real" where
  "timeout_rate now s =
     real (recent_timeouts now s)
       / real (max (length (success_requests s) + recent_timeouts now s) 1)"

definition error_rate :: "rate_limiter \<Rightarrow> real" where
  "error_rate s = real (total_429_errors s) / real (max (total_requests s) 1)"

definition adjust_rate :: "real \<Rightarrow> rate_limiter \<Rightarrow> rate_limiter" where
  "adjust_rate now s =
     (if \<not> should_adjust now s then s
      else
        let s1 = s\<lparr>last_adjustment := now\<rparr> in
        if timeout_rate now s > 0.1
          then s1\<lparr>current_rate := max (min_rate s) (current_rate s * 0.7)\<rparr>
        else if timeout_rate now s > 0.05
          then s1\<lparr>current_rate := max (min_rate s) (current_rate s * 0.85)\<rparr>
        else if timeout_rate now s < 0.01 \<and> error_rate s < 0.02
          then s1\<lparr>current_rate := min (max_rate s) (current_rate s * 1.1)\<rparr>
        else s1)"

text \<open>
  Sample states, all due for adjustment at clock reading 31. \<open>limiter_at_min\<close>: the rate
  has come down to \<open>min_rate\<close> and the one request in the window timed out.
  \<open>limiter_timeouts r\<close>: rate \<open>r\<close>, one timeout among four recent requests.
  \<open>limiter_some_timeouts r\<close>: one timeout among fifteen. \<open>limiter_healthy r\<close>: successes
  only.
\<close>

definition limiter_with :: "real \<Rightarrow> real list \<Rightarrow> real list \<Rightarrow> rate_limiter" where
  "limiter_with r timeouts successes =
     \<lparr>current_rate = r, min_rate = 0.5, max_rate = 5, last_adjustment = 0,
      adjustment_interval = 30, timeout_errors = timeouts, success_requests = successes,
      total_requests = length timeouts + length successes, total_timeouts = length timeouts,
      total_429_errors = 0\<rparr>"

definition limiter_at_min :: rate_limiter where
  "limiter_at_min = limiter_with 0.5 [10] []"

definition limiter_timeouts :: "real \<Rightarrow> rate_limiter" where
  "limiter_timeouts r = limiter_with r [10] [1, 2, 3]"

definition limiter_some_timeouts :: "real \<Rightarrow> rate_limiter" where
  "limiter_some_timeouts r = limiter_with r [10] (replicate 14 1)"

definition limiter_healthy :: "real \<Rightarrow> rate_limiter" where
  "limiter_healthy r = limiter_with r [] [1, 2, 3]"


subsection \<open>What one adjustment does to the rate\<close>

lemma tr_min: "timeout_rate 31 limiter_at_min = 1"
  by (simp add: timeout_rate_def recent_timeouts_def limiter_at_min_def limiter_with_def)


text \<open>
  Claim C3 as stated fails at the lower bound. A limiter whose rate has come down to
  \<open>min_rate\<close> and whose timeout rate is 100 per cent is adjusted, and its rate stays
  where it is: the product 0.35 is clamped back to 0.5, so the rate does not strictly
  decrease.
\<close>

theorem adjust_rate_at_min_counterexample:
  "should_adjust 31 limiter_at_min
   \<and> timeout_rate 31 limiter_at_min > 0.1
   \<and> current_rate (adjust_rate 31 limiter_at_min) = current_rate limiter_at_min"
  by (simp add: adjust_rate_def should_adjust_def tr_min)
     (simp add: limiter_at_min_def limiter_with_def)


text \<open>
  The importer creates its limiter with \<open>initial_rate = requests_per_second\<close> (8.0 by
  default) and \<open>max_rate = 5.0\<close>. From that start the first adjustment under timeouts
  gives 5.6, above \<open>max_rate\<close>, and the first adjustment of a healthy run lowers the
  rate to 5. The amended claim below is about states inside the bounds only.
\<close>

lemma default_limiter_above_max:
  "current_rate (adjust_rate 31 (limiter_timeouts 8)) = 5.6
   \<and> max_rate (adjust_rate 31 (limiter_timeouts 8)) = 5
   \<and> current_rate (adjust_rate 31 (limiter_healthy 8)) = 5"
  by (simp add: adjust_rate_def should_adjust_def timeout_rate_def recent_timeouts_def error_rate_def
         limiter_timeouts_def limiter_healthy_def limiter_with_def)


text \<open>
  Claim C3, amended. When the rate adjustment runs after its fixed interval on a state
  with \<open>0 < min_rate \<le> current_rate \<le> max_rate\<close>: if the windowed timeout rate exceeds
  10 per cent the rate becomes \<open>max(min_rate, 0.7 * current_rate)\<close>, which is never
  higher than before and strictly lower unless the rate was already \<open>min_rate\<close>; if the
  timeout rate is above 5 and at most 10 per cent it becomes
  \<open>max(min_rate, 0.85 * current_rate)\<close>, likewise; if the timeout rate is below 1 per
  cent and the throttle rate below 2 per cent it becomes
  \<open>min(max_rate, 1.1 * current_rate)\<close>, which is never lower than before and strictly
  higher unless the rate was already \<open>max_rate\<close>; in the remaining cases it is unchanged.
  The result always lies in \<open>[min_rate, max_rate]\<close>.
\<close>

theorem adjust_rate_effect:
  assumes due: "should_adjust now s"
    and pos: "0 < min_rate s"
    and lo: "min_rate s \<le> current_rate s"
    and hi: "current_rate s \<le> max_rate s"
  shows "(timeout_rate now s > 0.1 \<longrightarrow>
            current_rate (adjust_rate now s) = max (min_rate s) (current_rate s * 0.7)
          \<and> current_rate (adjust_rate now s) \<le> current_rate s
          \<and> (min_rate s < current_rate s \<longrightarrow> current_rate (adjust_rate now s) < current_rate s))
       \<and> (0.05 < timeout_rate now s \<and> timeout_rate now s \<le> 0.1 \<longrightarrow>
            current_rate (adjust_rate now s) = max (min_rate s) (current_rate s * 0.85)
          \<and> current_rate (adjust_rate now s) \<le> current_rate s
          \<and> (min_rate s < current_rate s \<longrightarrow> current_rate (adjust_rate now s) < current_rate s))
       \<and> (timeout_rate now s < 0.01 \<and> error_rate s < 0.02 \<longrightarrow>
            current_rate (adjust_rate now s) = min (max_rate s) (current_rate s * 1.1)
          \<and> current_rate s \<le> current_rate (adjust_rate now s)
          \<and> (current_rate s < max_rate s \<longrightarrow> current_rate s < current_rate (adjust_rate now s)))
       \<and> (0.01 \<le> timeout_rate now s \<and> timeout_rate now s \<le> 0.05
            \<or> timeout_rate now s \<le> 0.05 \<and> 0.02 \<le> error_rate s \<longrightarrow>
            current_rate (adjust_rate now s) = current_rate s)
       \<and> min_rate s \<le> current_rate (adjust_rate now s)
       \<and> current_rate (adjust_rate now s) \<le> max_rate s"
proof -
  have cpos: "0 < current_rate s" using pos lo by simp
  show ?thesis
    using due pos lo hi cpos
    by (auto simp: adjust_rate_def Let_def max_def min_def)
qed


lemma limiter_with_fields:
  "current_rate (limiter_with r ts ss) = r" "min_rate (limiter_with r ts ss) = 0.5"
  "max_rate (limiter_with r ts ss) = 5" "should_adjust 31 (limiter_with r ts ss)"
  by (simp_all add: limiter_with_def should_adjust_def)

theorem adjust_rate_effect_witness:
  "should_adjust 31 (limiter_timeouts 2) \<and> 0 < min_rate (limiter_timeouts 2)
   \<and> min_rate (limiter_timeouts 2) < current_rate (limiter_timeouts 2)
   \<and> current_rate (limiter_timeouts 2) \<le> max_rate (limiter_timeouts 2)
   \<and> timeout_rate 31 (limiter_timeouts 2) > 0.1
   \<and> current_rate (adjust_rate 31 (limiter_timeouts 2)) < current_rate (limiter_timeouts 2)
   \<and> should_adjust 31 (limiter_some_timeouts 2) \<and> 0 < min_rate (limiter_some_timeouts 2)
   \<and> min_rate (limiter_some_timeouts 2) < current_rate (limiter_some_timeouts 2)
   \<and> current_rate (limiter_some_timeouts 2) \<le> max_rate (limiter_some_timeouts 2)
   \<and> 0.05 < timeout_rate 31 (limiter_some_timeouts 2)
   \<and> timeout_rate 31 (limiter_some_timeouts 2) \<le> 0.1
   \<and> current_rate (adjust_rate 31 (limiter_some_timeouts 2))
       < current_rate (limiter_some_timeouts 2)
   \<and> should_adjust 31 (limiter_healthy 2) \<and> 0 < min_rate (limiter_healthy 2)
   \<and> min_rate (limiter_healthy 2) \<le> current_rate (limiter_healthy 2)
   \<and> current_rate (limiter_healthy 2) < max_rate (limiter_healthy 2)
   \<and> timeout_rate 31 (limiter_healthy 2) < 0.01 \<and> error_rate (limiter_healthy 2) < 0.02
   \<and> current_rate (limiter_healthy 2) < current_rate (adjust_rate 31 (limiter_healthy 2))"
proof -
  have a: "should_adjust 31 (limiter_timeouts 2)" "0 < min_rate (limiter_timeouts 2)"
    "min_rate (limiter_timeouts 2) < current_rate (limiter_timeouts 2)"
    "current_rate (limiter_timeouts 2) \<le> max_rate (limiter_timeouts 2)"
    by (simp_all add: limiter_timeouts_def limiter_with_fields)
  have a': "timeout_rate 31 (limiter_timeouts 2) > 0.1"
    by (simp add: timeout_rate_def recent_timeouts_def limiter_timeouts_def limiter_with_def)
  have b: "should_adjust 31 (limiter_some_timeouts 2)" "0 < min_rate (limiter_some_timeouts 2)"
    "min_rate (limiter_some_timeouts 2) < current_rate (limiter_some_timeouts 2)"
    "current_rate (limiter_some_timeouts 2) \<le> max_rate (limiter_some_timeouts 2)"
    by (simp_all add: limiter_some_timeouts_def limiter_with_fields)
  have b': "0.05 < timeout_rate 31 (limiter_some_timeouts 2)"
    "timeout_rate 31 (limiter_some_timeouts 2) \<le> 0.1"
    by (simp_all add: timeout_rate_def recent_timeouts_def limiter_some_timeouts_def
        limiter_with_def)
  have c: "should_adjust 31 (limiter_healthy 2)" "0 < min_rate (limiter_healthy 2)"
    "min_rate (limiter_healthy 2) \<le> current_rate (limiter_healthy 2)"
    "current_rate (limiter_healthy 2) < max_rate (limiter_healthy 2)"
    by (simp_all add: limiter_healthy_def limiter_with_fields)
  have c': "timeout_rate 31 (limiter_healthy 2) < 0.01" "error_rate (limiter_healthy 2) < 0.02"
    by (simp_all add: timeout_rate_def recent_timeouts_def error_rate_def limiter_healthy_def
        limiter_with_def)
  have "current_rate (adjust_rate 31 (limiter_timeouts 2)) < current_rate (limiter_timeouts 2)"
    using adjust_rate_effect [of 31 "limiter_timeouts 2"] a a' by simp
  moreover have "current_rate (adjust_rate 31 (limiter_some_timeouts 2))
      < current_rate (limiter_some_timeouts 2)"
    using adjust_rate_effect [of 31 "limiter_some_timeouts 2"] b b' by simp
  moreover have "current_rate (limiter_healthy 2) < current_rate (adjust_rate 31 (limiter_healthy 2))"
    using adjust_rate_effect [of 31 "limiter_healthy 2"] c c' by simp
  ultimately show ?thesis using a a' b b' c c' by blast
qed



section \<open>Paginated fetching (\<open>import_transaction_rent.py\<close>, \<open>import_transaction_sales.py\<close>)\<close>

subsection \<open>API payloads\<close>

text \<open>
  A key of a JSON object is absent, present with \<open>null\<close>, or present with a value.
  \<open>d.get(key)\<close> gives \<open>None\<close> in the first two cases; \<open>d.get(key, default)\<close> gives the
  default only when the key is absent.
\<close>

datatype 'a field = Absent | Null | Value 'a

fun field_get :: "'a field \<Rightarrow> 'a option" where
  "field_get Absent = None"
| "field_get Null = None"
| "field_get (Value v) = Some v"

fun field_get_default :: "'a field \<Rightarrow> 'a \<Rightarrow> 'a option" where
  "field_get_default Absent d = Some d"
| "field_get_default Null d = None"
| "field_get_default (Value v) d = Some v"

text \<open>
  Location ids are the integers of the \<open>location\<close> table. One element of \<open>results\<close>,
  when it is a JSON object: the keys that the loops, the filters, the de-duplication and
  the conflict clauses read (\<open>item_size\<close> is the key \<open>size\<close>, \<open>loc_location_id\<close> the key
  \<open>location_id\<close> of the nested \<open>location\<close> object), and the remaining content as one
  text.
\<close>

record raw_item =
  price :: "real field"
  date :: "string field"
  start_date :: "string field"
  end_date :: "string field"
  transaction_type :: "string field"
  item_size :: "real field"
  loc_location_id :: "int field"
  other_fields :: string

datatype api_item = Non_dict | Dict raw_item

text \<open>
  The value under the key \<open>results\<close> of a response: the key is missing; \<open>null\<close>; a boolean
  or a number, with its Python truth value (\<open>false\<close> and zero are false); a string; an
  object, with its keys; or a list.
\<close>

datatype api_results =
    Missing_results
  | Null_results
  | Scalar_results bool
  | Text_results string
  | Object_results "string list"
  | Result_list "api_item list"

datatype api_payload = Non_dict_payload | Payload api_results "string option"

text \<open>\<^verbatim>\<open>results = payload.get("results") if isinstance(payload, dict) else None\<close>, followed
  by the test \<^verbatim>\<open>isinstance(results, list) and results\<close>.\<close>

fun nonempty_results :: "api_payload \<Rightarrow> api_item list option" where
  "nonempty_results (Payload (Result_list (x # xs)) sid) = Some (x # xs)"
| "nonempty_results payload = None"

text \<open>\<^verbatim>\<open>payload.get("scroll_id") if isinstance(payload, dict) else None\<close>\<close>

fun payload_scroll_id :: "api_payload \<Rightarrow> string option" where
  "payload_scroll_id (Payload rs sid) = sid"
| "payload_scroll_id Non_dict_payload = None"

text \<open>Python's truth value of a cursor: \<open>None\<close> and the empty string are false.\<close>

fun truthy :: "string option \<Rightarrow> bool" where
  "truthy None = False"
| "truthy (Some s) = (s \<noteq> [])"

subsection \<open>The rent importer: \<open>_fetch_location_data\<close>\<close>

record rent_request =
  location :: int
  measurement_param :: string
  page_number :: nat
  scroll_id :: "string option"

text \<open>\<open>_build_api_params\<close>: the cursor is sent only when it is truthy.\<close>

definition build_api_params :: "int \<Rightarrow> string \<Rightarrow> nat \<Rightarrow> string option \<Rightarrow> rent_request" where
  "build_api_params location_id meas page_no sid =
     \<lparr>location = location_id, measurement_param = meas, page_number = page_no,
      scroll_id = (if truthy sid then sid else None)\<rparr>"

text \<open>
  \<open>ResponseFlattener.flatten_response\<close> keeps the item as \<open>raw_data\<close>, copies its direct
  keys (among them \<open>price\<close>) when present and adds the currency \<open>aed\<close> and the
  measurement. \<open>_process_api_response\<close> flattens the elements that are JSON objects and
  skips the others.
\<close>

record flat_record =
  raw_data :: raw_item
  currency_col :: string
  measurement_col :: string

definition flatten_response :: "raw_item \<Rightarrow> int \<Rightarrow> string \<Rightarrow> flat_record" where
  "flatten_response item location_id meas =
     \<lparr>raw_data = item, currency_col = ''aed'', measurement_col = meas\<rparr>"

text \<open>\<open>record.get('price')\<close> on a flattened record.\<close>

definition record_price :: "'a flat_record_scheme \<Rightarrow> real option" where
  "record_price r = field_get (price (raw_data r))"

fun process_api_response :: "api_item list \<Rightarrow> int \<Rightarrow> string \<Rightarrow> flat_record list" where
  "process_api_response [] location_id meas = []"
| "process_api_response (Non_dict # its) location_id meas =
     process_api_response its location_id meas"
| "process_api_response (Dict item # its) location_id meas =
     flatten_response item location_id meas
       # process_api_response its location_id meas"

record rent_config =
  max_pages :: int
  dry_run :: bool
  resume_scroll_id :: "string option"
  locations_per_batch :: nat
  max_accumulated_records :: nat

text \<open>
  The local variables of the pagination loops. \<open>requests\<close> is not a variable of the
  source: it lists the requests issued, in order.
\<close>

record fetch_state =
  total_records :: nat
  current_scroll_id :: "string option"
  page :: nat

record rent_fetch = fetch_state +
  accumulated_data :: "flat_record list"
  requests :: "rent_request list"

text \<open>
  The part of one pass that handles the page just received, from
  \<^verbatim>\<open>if isinstance(results, list) and results:\<close> to the \<open>break\<close>. \<open>Inl\<close> is the
  \<open>break\<close>, \<open>Inr\<close> goes on to the cursor test. An empty page has no branch of its own
  and goes on; in a dry run a page is counted and nothing else; otherwise the Records
  with a price are accumulated, and a page without any leaves the loop.
\<close>

definition rent_page_body ::
  "rent_config \<Rightarrow> int \<Rightarrow> string \<Rightarrow> api_payload \<Rightarrow> rent_fetch \<Rightarrow> rent_fetch + rent_fetch"
where
  "rent_page_body cfg location_id meas payload s =
     (case nonempty_results payload of
        None \<Rightarrow> Inr s
      | Some results \<Rightarrow>
          (let s2 = s\<lparr>total_records := total_records s + length results\<rparr> in
           if dry_run cfg then Inr s2
           else
             (let processed_data = process_api_response results location_id meas;
                  valid_data = filter (\<lambda>record. record_price record \<noteq> None) processed_data
              in if valid_data \<noteq> []
                 then Inr (s2\<lparr>accumulated_data := accumulated_data s2 @ valid_data\<rparr>)
                 else Inl s2)))"

text \<open>
  \<^verbatim>\<open>for _ in range(self.config.max_pages):\<close> with the number of passes left as the
  recursion argument. A failed call returns at once with the success flag \<open>False\<close>
  (\<open>_safe_api_call\<close> has caught the exception; it also reports the outcome to the rate
  limiter, which is not part of this function's result). After the page body the cursor
  of the response is stored, the page number is increased, and the loop ends when the
  cursor is not truthy.
\<close>

fun rent_pages ::
  "rent_config \<Rightarrow> (rent_request \<Rightarrow> py_error + api_payload) \<Rightarrow> int \<Rightarrow> string \<Rightarrow> nat
     \<Rightarrow> rent_fetch \<Rightarrow> rent_fetch \<times> bool"
where
  "rent_pages cfg api location_id meas 0 s = (s, True)"
| "rent_pages cfg api location_id meas (Suc n) s =
     (let params = build_api_params location_id meas (page s) (current_scroll_id s);
          s1 = s\<lparr>requests := requests s @ [params]\<rparr>
      in case api params of
           Inl e \<Rightarrow> (s1, False)
         | Inr payload \<Rightarrow>
             (case rent_page_body cfg location_id meas payload s1 of
                Inl s2 \<Rightarrow> (s2, True)
              | Inr s2 \<Rightarrow>
                  (let s3 = s2\<lparr>current_scroll_id := payload_scroll_id payload,
                               page := page s2 + 1\<rparr>
                   in if \<not> truthy (payload_scroll_id payload) then (s3, True)
                      else rent_pages cfg api location_id meas n s3)))"

definition fetch_location_data ::
  "rent_config \<Rightarrow> (rent_request \<Rightarrow> py_error + api_payload) \<Rightarrow> int \<Rightarrow> string
     \<Rightarrow> rent_fetch \<times> bool"
where
  "fetch_location_data cfg api location_id meas =
     rent_pages cfg api location_id meas (nat (max_pages cfg))
       \<lparr>total_records = 0, current_scroll_id = resume_scroll_id cfg, page = 1,
        accumulated_data = [], requests = []\<rparr>"


subsection \<open>The sales importer: \<open>_fetch_and_process_one\<close>\<close>

record sales_request = rent_request +
  transaction_type_param :: string
  page_size_param :: int
  currency_param :: string

text \<open>\<open>_build_params\<close> as called by \<open>_fetch_and_process_one\<close>: currency \<open>aed\<close>, no optional
  filter.\<close>

definition build_params ::
  "int \<Rightarrow> nat \<Rightarrow> string option \<Rightarrow> string \<Rightarrow> string \<Rightarrow> int \<Rightarrow> sales_request"
where
  "build_params location_id page_no sid meas ttype psize =
     \<lparr>location = location_id, measurement_param = meas, page_number = page_no,
      scroll_id = (if truthy sid then sid else None),
      transaction_type_param = ttype, page_size_param = psize, currency_param = ''aed''\<rparr>"

record sales_record = flat_record +
  location_id_col :: int
  transaction_type_col :: "string option"

text \<open>
  \<open>DataProcessor.process_transaction_sales_data\<close>: an element that is not a JSON object
  raises inside the \<open>try\<close> and is skipped; an element whose key
  \<open>(location_id, start_date, end_date, price, transaction_type, date)\<close> was seen earlier
  in the same page is skipped; the price is copied as it is.
\<close>

type_synonym sales_key =
  "int \<times> string option \<times> string option \<times> real option \<times> string option \<times> string option"

definition sales_unique_key :: "int \<Rightarrow> string \<Rightarrow> raw_item \<Rightarrow> sales_key" where
  "sales_unique_key location_id ttype item =
     (location_id, field_get (start_date item), field_get (end_date item),
      field_get (price item), field_get_default (transaction_type item) ttype,
      field_get (date item))"

fun process_transaction_sales_data ::
  "sales_key list \<Rightarrow> api_item list \<Rightarrow> int \<Rightarrow> string \<Rightarrow> string \<Rightarrow> sales_record list"
where
  "process_transaction_sales_data seen [] location_id meas ttype = []"
| "process_transaction_sales_data seen (Non_dict # its) location_id meas ttype =
     process_transaction_sales_data seen its location_id meas ttype"
| "process_transaction_sales_data seen (Dict item # its) location_id meas ttype =
     (if sales_unique_key location_id ttype item \<in> set seen
      then process_transaction_sales_data seen its location_id meas ttype
      else
        \<lparr>raw_data = item, currency_col = ''aed'', measurement_col = meas,
         location_id_col = location_id,
         transaction_type_col = field_get_default (transaction_type item) ttype\<rparr>
        # process_transaction_sales_data (sales_unique_key location_id ttype item # seen) its
            location_id meas ttype)"

text \<open>
  The loop state of \<open>_fetch_and_process_one\<close>, with the requests issued and the batches
  handed to \<open>insert_transaction_sales_data\<close> and committed. The insert may raise
  (\<open>db_rejects\<close>); the exception leaves the loop and the function returns 0.
\<close>

record sales_fetch = fetch_state +
  sales_requests :: "sales_request list"
  inserted :: "sales_record list list"

fun sales_pages ::
  "(sales_record list \<Rightarrow> bool) \<Rightarrow> (sales_request \<Rightarrow> py_error + api_payload) \<Rightarrow> int \<Rightarrow> string
     \<Rightarrow> string \<Rightarrow> int \<Rightarrow> bool \<Rightarrow> nat \<Rightarrow> sales_fetch \<Rightarrow> sales_fetch \<times> py_error option"
where
  "sales_pages db_rejects api location_id meas ttype psize dry 0 s = (s, None)"
| "sales_pages db_rejects api location_id meas ttype psize dry (Suc n) s =
     (let params = build_params location_id (page s) (current_scroll_id s) meas ttype psize;
          s1 = s\<lparr>sales_requests := sales_requests s @ [params]\<rparr>
      in case api params of
           Inl e \<Rightarrow> (s1, None)
         | Inr payload \<Rightarrow>
             (case nonempty_results payload of
                None \<Rightarrow> (s1, None)
              | Some results \<Rightarrow>
                  (let s2 = s1\<lparr>total_records := total_records s1 + length results\<rparr>;
                       valid_data =
                         (if dry then []
                          else filter (\<lambda>record. record_price record \<noteq> None)
                                 (process_transaction_sales_data [] results location_id meas ttype))
                   in if valid_data \<noteq> [] \<and> db_rejects valid_data then (s2, Some DataError)
                      else
                        (let s3 = s2\<lparr>inserted :=
                                       (if valid_data \<noteq> [] then inserted s2 @ [valid_data]
                                        else inserted s2),
                                     current_scroll_id := payload_scroll_id payload,
                                     page := page s2 + 1\<rparr>
                         in if \<not> truthy (payload_scroll_id payload) then (s3, None)
                            else sales_pages db_rejects api location_id meas ttype psize dry n s3))))"

definition fetch_and_process_one ::
  "(sales_record list \<Rightarrow> bool) \<Rightarrow> (sales_request \<Rightarrow> py_error + api_payload)
     \<Rightarrow> sales_record list list \<Rightarrow> int \<Rightarrow> string \<Rightarrow> string \<Rightarrow> int \<Rightarrow> int \<Rightarrow> bool
     \<Rightarrow> sales_fetch \<times> nat"
where
  "fetch_and_process_one db_rejects api db location_id meas ttype max_pgs psize dry =
     (case sales_pages db_rejects api location_id meas ttype psize dry (nat max_pgs)
             \<lparr>total_records = 0, current_scroll_id = None, page = 1,
              sales_requests = [], inserted = db\<rparr> of
        (s, None) \<Rightarrow> (s, total_records s)
      | (s, Some e) \<Rightarrow> (s, 0))"


subsection \<open>Scenario B: pages of 50, 50 and 0 Records\<close>

text \<open>
  A server that answers by page number: 50 Records and a cursor on pages 1 and 2; an
  empty page 3 that still carries a cursor, as a scroll API does; empty pages without a
  cursor from page 4 on.
\<close>

definition priced_item :: raw_item where
  "priced_item =
     \<lparr>price = Value 1000, date = Value ''2025-06-18'', start_date = Absent, end_date = Absent,
      transaction_type = Absent, item_size = Value 75, loc_location_id = Value 23437,
      other_fields = []\<rparr>"

definition unpriced_item :: raw_item where
  "unpriced_item = priced_item\<lparr>price := Null\<rparr>"

definition scenario_B_page :: "nat \<Rightarrow> api_payload" where
  "scenario_B_page n =
     (if n = 1
        then Payload (Result_list (Dict priced_item # replicate 49 (Dict priced_item))) (Some ''s1'')
      else if n = 2
        then Payload (Result_list (Dict priced_item # replicate 49 (Dict priced_item))) (Some ''s2'')
      else if n = 3 then Payload (Result_list []) (Some ''s3'')
      else Payload (Result_list []) None)"

definition scenario_B_api :: "'a rent_request_scheme \<Rightarrow> py_error + api_payload" where
  "scenario_B_api req = Inr (scenario_B_page (page_number req))"

text \<open>\<open>OptimizedProcessingConfig\<close> with its default values.\<close>

definition rent_default_config :: rent_config where
  "rent_default_config =
     \<lparr>max_pages = 20, dry_run = False, resume_scroll_id = None, locations_per_batch = 2001,
      max_accumulated_records = 50000\<rparr>"

text \<open>A server whose first page holds one Record without a price, and a cursor.\<close>

definition unpriced_page_api :: "'a rent_request_scheme \<Rightarrow> py_error + api_payload" where
  "unpriced_page_api req =
     (if page_number req = 1 then Inr (Payload (Result_list [Dict unpriced_item]) (Some ''s1''))
      else Inr (Payload (Result_list [Dict priced_item]) None))"


subsection \<open>The pagination loops, pass by pass\<close>

lemma process_api_response_replicate:
  "process_api_response (replicate k (Dict item)) loc meas = replicate k (flatten_response item loc meas)"
  by (induction k) simp_all

text \<open>The state after the cursor step.\<close>

definition next_page :: "api_payload \<Rightarrow> rent_fetch \<Rightarrow> rent_fetch" where
  "next_page payload s = s\<lparr>current_scroll_id := payload_scroll_id payload, page := page s + 1\<rparr>"

definition request_sent :: "int \<Rightarrow> string \<Rightarrow> rent_fetch \<Rightarrow> rent_fetch" where
  "request_sent loc meas s =
     s\<lparr>requests := requests s @ [build_api_params loc meas (page s) (current_scroll_id s)]\<rparr>"

lemma rent_pages_failed_call:
  assumes "api (build_api_params loc meas (page s) (current_scroll_id s)) = Inl e"
  shows "rent_pages cfg api loc meas (Suc n) s = (request_sent loc meas s, False)"
  using assms by (simp add: Let_def request_sent_def)

lemma rent_pages_break:
  assumes "api (build_api_params loc meas (page s) (current_scroll_id s)) = Inr payload"
    and "rent_page_body cfg loc meas payload (request_sent loc meas s) = Inl s2"
  shows "rent_pages cfg api loc meas (Suc n) s = (s2, True)"
  using assms by (simp add: Let_def request_sent_def)

lemma rent_pages_last_page:
  assumes "api (build_api_params loc meas (page s) (current_scroll_id s)) = Inr payload"
    and "rent_page_body cfg loc meas payload (request_sent loc meas s) = Inr s2"
    and "\<not> truthy (payload_scroll_id payload)"
  shows "rent_pages cfg api loc meas (Suc n) s = (next_page payload s2, True)"
  using assms by (simp add: Let_def request_sent_def next_page_def)

lemma rent_pages_next_page:
  assumes "api (build_api_params loc meas (page s) (current_scroll_id s)) = Inr payload"
    and "rent_page_body cfg loc meas payload (request_sent loc meas s) = Inr s2"
    and "truthy (payload_scroll_id payload)"
  shows "rent_pages cfg api loc meas (Suc n) s = rent_pages cfg api loc meas n (next_page payload s2)"
  using assms by (simp add: Let_def request_sent_def next_page_def)

declare rent_pages.simps(2) [simp del]

text \<open>The page body, case by case.\<close>

lemma body_empty_page:
  "nonempty_results payload = None \<Longrightarrow> rent_page_body cfg loc meas payload s = Inr s"
  by (simp add: rent_page_body_def)

lemma body_dry_run:
  "nonempty_results payload = Some results \<Longrightarrow> dry_run cfg \<Longrightarrow>
   rent_page_body cfg loc meas payload s
     = Inr (s\<lparr>total_records := total_records s + length results\<rparr>)"
  by (simp add: rent_page_body_def)

lemma body_unpriced_page:
  "nonempty_results payload = Some results \<Longrightarrow> \<not> dry_run cfg \<Longrightarrow>
   filter (\<lambda>record. record_price record \<noteq> None) (process_api_response results loc meas) = [] \<Longrightarrow>
   rent_page_body cfg loc meas payload s
     = Inl (s\<lparr>total_records := total_records s + length results\<rparr>)"
  by (simp add: rent_page_body_def Let_def)

lemma body_priced_page:
  "nonempty_results payload = Some results \<Longrightarrow> \<not> dry_run cfg \<Longrightarrow>
   filter (\<lambda>record. record_price record \<noteq> None) (process_api_response results loc meas) = valid \<Longrightarrow>
   valid \<noteq> [] \<Longrightarrow>
   rent_page_body cfg loc meas payload s
     = Inr (s\<lparr>total_records := total_records s + length results,
              accumulated_data := accumulated_data s @ valid\<rparr>)"
  by (simp add: rent_page_body_def Let_def)



lemma priced_filter: "\<forall>r \<in> set (filter (\<lambda>record. record_price record \<noteq> None) xs). record_price r \<noteq> None"
  by simp

lemma rent_page_body_priced:
  assumes "\<forall>r \<in> set (accumulated_data s). record_price r \<noteq> None"
    and "rent_page_body cfg loc meas payload s = Inr s2 \<or> rent_page_body cfg loc meas payload s = Inl s2"
  shows "\<forall>r \<in> set (accumulated_data s2). record_price r \<noteq> None"
  using assms
  by (auto simp: rent_page_body_def Let_def split: option.splits if_splits)

lemma rent_pages_priced:
  "\<forall>r \<in> set (accumulated_data s). record_price r \<noteq> None \<Longrightarrow>
   \<forall>r \<in> set (accumulated_data (fst (rent_pages cfg api loc meas n s))). record_price r \<noteq> None"
proof (induction n arbitrary: s)
  case 0
  then show ?case by simp
next
  case (Suc n)
  define s1 where "s1 = request_sent loc meas s"
  have p1: "\<forall>r \<in> set (accumulated_data s1). record_price r \<noteq> None"
    using Suc.prems by (simp add: s1_def request_sent_def)
  show ?case
  proof (cases "api (build_api_params loc meas (page s) (current_scroll_id s))")
    case (Inl e)
    then have "rent_pages cfg api loc meas (Suc n) s = (s1, False)"
      by (simp add: rent_pages_failed_call s1_def)
    with p1 show ?thesis by simp
  next
    case (Inr payload)
    show ?thesis
    proof (cases "rent_page_body cfg loc meas payload s1")
      case (Inl s2)
      with p1 have "\<forall>r \<in> set (accumulated_data s2). record_price r \<noteq> None"
        using rent_page_body_priced by blast
      with Inr Inl show ?thesis by (simp add: rent_pages_break s1_def)
    next
      case body: (Inr s2)
      with p1 have p2: "\<forall>r \<in> set (accumulated_data s2). record_price r \<noteq> None"
        using rent_page_body_priced by blast
      then have p3: "\<forall>r \<in> set (accumulated_data (next_page payload s2)). record_price r \<noteq> None"
        by (simp add: next_page_def)
      show ?thesis
      proof (cases "truthy (payload_scroll_id payload)")
        case True
        with Inr body have "rent_pages cfg api loc meas (Suc n) s
            = rent_pages cfg api loc meas n (next_page payload s2)"
          by (simp add: rent_pages_next_page s1_def)
        with Suc.IH [OF p3] show ?thesis by simp
      next
        case False
        with Inr body have "rent_pages cfg api loc meas (Suc n) s = (next_page payload s2, True)"
          by (simp add: rent_pages_last_page s1_def)
        with p3 show ?thesis by simp
      qed
    qed
  qed
qed

lemma fetch_location_data_priced:
  "\<forall>r \<in> set (accumulated_data (fst (fetch_location_data cfg api loc meas))). record_price r \<noteq> None"
  unfolding fetch_location_data_def by (rule rent_pages_priced) simp

lemma unpriced_results:
  "(\<forall>item. Dict item \<in> set results \<longrightarrow> field_get (price item) = None) \<Longrightarrow>
   filter (\<lambda>record. record_price record \<noteq> None) (process_api_response results loc meas) = []"
proof (induction results)
  case Nil
  show ?case by simp
next
  case (Cons x xs)
  then show ?case
    by (cases x) (simp_all add: record_price_def flatten_response_def)
qed

lemma rent_pages_unpriced_page_ends:
  assumes "\<not> dry_run cfg"
    and "api (build_api_params loc meas (page s) (current_scroll_id s)) = Inr payload"
    and "nonempty_results payload = Some results"
    and "\<forall>item. Dict item \<in> set results \<longrightarrow> field_get (price item) = None"
  shows "rent_pages cfg api loc meas (Suc n) s
     = ((request_sent loc meas s)\<lparr>total_records := total_records s + length results\<rparr>, True)"
proof -
  have "rent_page_body cfg loc meas payload (request_sent loc meas s)
      = Inl ((request_sent loc meas s)
               \<lparr>total_records := total_records (request_sent loc meas s) + length results\<rparr>)"
    by (rule body_unpriced_page [OF assms(3) assms(1) unpriced_results [OF assms(4)]])
  then show ?thesis
    using assms(2) by (simp add: rent_pages_break request_sent_def)
qed


definition sales_request_sent :: "int \<Rightarrow> string \<Rightarrow> string \<Rightarrow> int \<Rightarrow> sales_fetch \<Rightarrow> sales_fetch" where
  "sales_request_sent loc meas ttype psize s =
     s\<lparr>sales_requests := sales_requests s
         @ [build_params loc (page s) (current_scroll_id s) meas ttype psize]\<rparr>"

lemma sales_pages_failed_call:
  assumes "api (build_params loc (page s) (current_scroll_id s) meas ttype psize) = Inl e"
  shows "sales_pages db_rejects api loc meas ttype psize dry (Suc n) s
           = (sales_request_sent loc meas ttype psize s, None)"
  using assms by (simp add: Let_def sales_request_sent_def)

lemma sales_pages_empty_page_ends:
  assumes "api (build_params loc (page s) (current_scroll_id s) meas ttype psize) = Inr payload"
    and "nonempty_results payload = None"
  shows "sales_pages db_rejects api loc meas ttype psize dry (Suc n) s
           = (sales_request_sent loc meas ttype psize s, None)"
  using assms by (simp add: Let_def sales_request_sent_def)

definition only_priced :: "'a flat_record_scheme list list \<Rightarrow> bool" where
  "only_priced batches \<longleftrightarrow> (\<forall>b \<in> set batches. \<forall>r \<in> set b. record_price r \<noteq> None)"

lemma only_priced_append:
  "only_priced bs \<Longrightarrow> \<forall>r \<in> set b. record_price r \<noteq> None \<Longrightarrow> only_priced (bs @ [b])"
  by (auto simp: only_priced_def)

lemma sales_pages_priced:
  "only_priced (inserted s) \<Longrightarrow>
   only_priced (inserted (fst (sales_pages db_rejects api loc meas ttype psize dry n s)))"
proof (induction n arbitrary: s)
  case 0
  then show ?case by simp
next
  case (Suc n)
  define s1 where "s1 = sales_request_sent loc meas ttype psize s"
  have p1: "only_priced (inserted s1)"
    using Suc.prems by (simp add: s1_def sales_request_sent_def)
  show ?case
  proof (cases "api (build_params loc (page s) (current_scroll_id s) meas ttype psize)")
    case (Inl e)
    then show ?thesis using p1 by (simp add: Let_def s1_def sales_request_sent_def)
  next
    case (Inr payload)
    show ?thesis
    proof (cases "nonempty_results payload")
      case None
      with Inr show ?thesis using p1 by (simp add: Let_def s1_def sales_request_sent_def)
    next
      case (Some results)
      define valid where "valid = (if dry then []
          else filter (\<lambda>record. record_price record \<noteq> None)
                 (process_transaction_sales_data [] results loc meas ttype))"
      define s2 where "s2 = s1\<lparr>total_records := total_records s1 + length results\<rparr>"
      define s3 where "s3 = s2\<lparr>inserted := (if valid \<noteq> [] then inserted s2 @ [valid] else inserted s2),
          current_scroll_id := payload_scroll_id payload, page := page s2 + 1\<rparr>"
      have v: "\<forall>r \<in> set valid. record_price r \<noteq> None" by (simp add: valid_def)
      have p2: "only_priced (inserted s2)" using p1 by (simp add: s2_def)
      have p3: "only_priced (inserted s3)"
        using p2 v by (simp add: s3_def only_priced_append)
      have unfold: "sales_pages db_rejects api loc meas ttype psize dry (Suc n) s
          = (if valid \<noteq> [] \<and> db_rejects valid then (s2, Some DataError)
             else if \<not> truthy (payload_scroll_id payload) then (s3, None)
             else sales_pages db_rejects api loc meas ttype psize dry n s3)"
        using Inr Some
        by (simp add: Let_def s1_def s2_def s3_def valid_def sales_request_sent_def)
      show ?thesis
        using p2 p3 Suc.IH [OF p3] by (simp only: unfold split: if_splits) simp
    qed
  qed
qed

lemma fetch_and_process_one_priced:
  "only_priced db \<Longrightarrow>
   only_priced (inserted (fst (fetch_and_process_one db_rejects api db loc meas ttype max_pgs psize dry)))"
proof -
  assume db: "only_priced db"
  define s0 :: sales_fetch where "s0 = \<lparr>total_records = 0, current_scroll_id = None, page = 1,
              sales_requests = [], inserted = db\<rparr>"
  have "only_priced (inserted s0)" using db by (simp add: s0_def)
  then have "only_priced (inserted (fst (sales_pages db_rejects api loc meas ttype psize dry (nat max_pgs) s0)))"
    by (rule sales_pages_priced)
  then show ?thesis
    unfolding fetch_and_process_one_def s0_def [symmetric]
    by (cases "sales_pages db_rejects api loc meas ttype psize dry (nat max_pgs) s0")
       (auto split: option.splits)
qed


lemma scenario_pages:
  "scenario_B_page (Suc 0)
     = Payload (Result_list (Dict priced_item # replicate 49 (Dict priced_item))) (Some ''s1'')"
  "scenario_B_page (Suc (Suc 0))
     = Payload (Result_list (Dict priced_item # replicate 49 (Dict priced_item))) (Some ''s2'')"
  "scenario_B_page (Suc (Suc (Suc 0))) = Payload (Result_list []) (Some ''s3'')"
  "scenario_B_page (Suc (Suc (Suc (Suc 0)))) = Payload (Result_list []) None"
  by (simp_all add: scenario_B_page_def)

lemma rent_pages_numeral:
  "rent_pages cfg api loc meas (numeral k) s
     = rent_pages cfg api loc meas (Suc (pred_numeral k)) s"
  by (simp only: numeral_eq_Suc)

lemmas rent_pages_step = rent_pages_numeral [unfolded rent_pages.simps(2)]

lemma sales_duplicates_skipped:
  "sales_unique_key loc ttype item \<in> set seen \<Longrightarrow>
   process_transaction_sales_data seen (replicate k (Dict item)) loc meas ttype = []"
  by (induction k) simp_all

lemma sales_pages_numeral:
  "sales_pages db_rejects api loc meas ttype psize dry (numeral k) s
     = sales_pages db_rejects api loc meas ttype psize dry (Suc (pred_numeral k)) s"
  by (simp only: numeral_eq_Suc)

lemmas sales_pages_step = sales_pages_numeral [unfolded sales_pages.simps(2)]

lemma sales_stops_at_empty_page:
  "map page_number (sales_requests (fst (fetch_and_process_one (\<lambda>batch. False) scenario_B_api []
      1 ''int'' ''Sales - Ready'' 5 1000 False))) = [1, 2, 3]"
  by (simp add: fetch_and_process_one_def sales_pages_step scenario_B_api_def
      build_params_def Let_def scenario_pages sales_duplicates_skipped
      record_price_def priced_item_def split del: if_split)


text \<open>
  Claim C5 (the rent loop departs from it). On the Scenario B server the rent importer's
  \<open>_fetch_location_data\<close>, with its default bound of 20 pages, accumulates the 100
  Records and then does not stop at the empty third page: the page still carries a
  cursor, the loop has no branch for an empty page, and a fourth request is issued. The
  sales importer's loop, whose \<open>else: break\<close> belongs to the test for a non-empty page,
  issues three requests on the same server (\<open>sales_stops_at_empty_page\<close>).
\<close>

theorem rent_requests_after_empty_page:
  "map page_number (requests (fst (fetch_location_data rent_default_config scenario_B_api 1 ''int'')))
       = [1, 2, 3, 4]
   \<and> length (accumulated_data (fst (fetch_location_data rent_default_config scenario_B_api 1 ''int'')))
       = 100"
  by (simp add: fetch_location_data_def rent_default_config_def rent_pages_step scenario_B_api_def
      build_api_params_def Let_def scenario_pages process_api_response_replicate rent_page_body_def
      record_price_def flatten_response_def priced_item_def split del: if_split)



section \<open>The \<open>transaction_raw_rent\<close> loader: \<open>COPY\<close> with a fallback (\<open>utils/database.py\<close>)\<close>

text \<open>
  The fallback statement names the uniqueness constraint of the table:
  \<^verbatim>\<open>ON CONFLICT (loc_location_id, currency, measurement, date, price, size)
  WHERE ((date IS NOT NULL) AND (price IS NOT NULL)) DO NOTHING\<close>,
  a partial unique index. A row is in the index when its date and price are not null;
  two index entries clash when their six columns are equal and none of them is null
  (PostgreSQL treats nulls in a unique index as distinct). \<open>rent_index_key\<close> gives the
  entry of a row that can clash, \<open>None\<close> for any other row.
\<close>

type_synonym rent_key = "int \<times> string \<times> string \<times> string \<times> real \<times> real"

definition rent_index_key :: "flat_record \<Rightarrow> rent_key option" where
  "rent_index_key r =
     (case (field_get (loc_location_id (raw_data r)), field_get (date (raw_data r)),
            field_get (price (raw_data r)), field_get (item_size (raw_data r))) of
        (Some l, Some d, Some p, Some z) \<Rightarrow> Some (l, currency_col r, measurement_col r, d, p, z)
      | _ \<Rightarrow> None)"

fun index_entries :: "flat_record list \<Rightarrow> rent_key list" where
  "index_entries [] = []"
| "index_entries (r # rs) =
     (case rent_index_key r of None \<Rightarrow> index_entries rs | Some k \<Rightarrow> k # index_entries rs)"

text \<open>
  The server as far as the repository does not determine it: which \<open>COPY\<close> streams and
  which parameter lists it can store at all (column types, statement timeout), apart
  from the uniqueness constraint.
\<close>

record rent_server =
  copy_accepts :: "flat_record list \<Rightarrow> bool"
  insert_accepts :: "flat_record list \<Rightarrow> bool"

text \<open>
  \<open>cursor.copy_expert\<close> followed by \<open>conn.commit()\<close>: all rows are stored, or the command
  raises and nothing is stored. \<open>_bulk_insert_with_copy_optimized\<close> writes tab, newline and
  carriage return as the backslash sequences that \<open>COPY\<close> reads back, so a value without a
  backslash is stored as it is. The backslash itself is not escaped; a text with a
  backslash in it, which the server would read as the start of a sequence, is outside
  this model, whose rows are stored as they are. Numbers, on which the price filter and
  the claims about it rest, are not touched by this.
\<close>

definition copy_expert :: "rent_server \<Rightarrow> flat_record list \<Rightarrow> flat_record list \<Rightarrow> py_error + flat_record list" where
  "copy_expert srv tbl batch_data =
     (if \<not> copy_accepts srv batch_data then Inl DataError
      else if \<not> distinct (index_entries (tbl @ batch_data)) then Inl UniqueViolation
      else Inr (tbl @ batch_data))"

text \<open>One row of the fallback statement: skipped when its index entry is taken.\<close>

definition insert_on_conflict :: "flat_record list \<Rightarrow> flat_record \<Rightarrow> flat_record list" where
  "insert_on_conflict tbl r =
     (case rent_index_key r of
        None \<Rightarrow> tbl @ [r]
      | Some k \<Rightarrow> if k \<in> set (index_entries tbl) then tbl else tbl @ [r])"

text \<open>
  \<open>_bulk_insert_with_execute_values_fallback\<close>: one transaction, committed at the end;
  an exception leaves the table as it was and is not caught here.
\<close>

definition bulk_insert_with_execute_values_fallback ::
  "rent_server \<Rightarrow> flat_record list \<Rightarrow> flat_record list \<Rightarrow> py_error + flat_record list"
where
  "bulk_insert_with_execute_values_fallback srv tbl batch_data =
     (if \<not> insert_accepts srv batch_data then Inl DataError
      else Inr (foldl insert_on_conflict tbl batch_data))"

text \<open>
  \<open>_bulk_insert_with_copy_optimized\<close>: when \<open>COPY\<close> raises, \<open>conn.rollback()\<close> and the
  fallback with the same batch; an exception of the fallback is logged and raised again.
\<close>

definition bulk_insert_with_copy_optimized ::
  "rent_server \<Rightarrow> flat_record list \<Rightarrow> flat_record list \<Rightarrow> flat_record list \<times> py_error option"
where
  "bulk_insert_with_copy_optimized srv tbl batch_data =
     (case copy_expert srv tbl batch_data of
        Inr tbl' \<Rightarrow> (tbl', None)
      | Inl copy_error \<Rightarrow>
          (case bulk_insert_with_execute_values_fallback srv tbl batch_data of
             Inr tbl' \<Rightarrow> (tbl', None)
           | Inl e \<Rightarrow> (tbl, Some e)))"

text \<open>
  \<open>insert_transaction_raw_rent_data\<close>: nothing for an empty list; otherwise batches of
  50000 rows, each loaded and committed on its own, so that an exception in a later
  batch leaves the earlier ones stored.
\<close>

fun insert_batches ::
  "rent_server \<Rightarrow> flat_record list \<Rightarrow> flat_record list list \<Rightarrow> flat_record list \<times> py_error option"
where
  "insert_batches srv tbl [] = (tbl, None)"
| "insert_batches srv tbl (b # bs) =
     (case bulk_insert_with_copy_optimized srv tbl b of
        (tbl', None) \<Rightarrow> insert_batches srv tbl' bs
      | (tbl', Some e) \<Rightarrow> (tbl', Some e))"

definition insert_transaction_raw_rent_data ::
  "rent_server \<Rightarrow> flat_record list \<Rightarrow> flat_record list \<Rightarrow> flat_record list \<times> py_error option"
where
  "insert_transaction_raw_rent_data srv tbl data_list =
     (if data_list = [] then (tbl, None)
      else insert_batches srv tbl (paginate 50000 data_list))"

section \<open>The flush operation of the CMA sales importer: \<open>_flush_buffer\<close>\<close>

text \<open>
  What \<open>_flush_buffer\<close> works on: the Ingestion Queue (the pipeline of the
  backpressure section, whose items are now those of a Flush Worker), the \<open>cma_sales\<close>
  table and the two counters of the final report.
\<close>

record flush_env = "cma_row qitem pipeline" +
  table :: "cma_row list"
  total_records_inserted :: nat
  total_batches_flushed :: nat

text \<open>
  The handler of \<open>_flush_buffer\<close> cuts the buffer into chunks of
  \<open>min(100, len(buffer))\<close> Records and puts each chunk on the queue as one list, with a
  timeout of one second; a chunk that meets a full queue is logged and dropped.
\<close>

definition requeue_chunk :: "cma_row qitem bounded_queue \<Rightarrow> cma_row list \<Rightarrow> cma_row qitem bounded_queue" where
  "requeue_chunk q chunk = (case queue_put q (Chunk chunk) of Inr q' \<Rightarrow> q' | Inl e \<Rightarrow> q)"

definition requeue :: "cma_row qitem bounded_queue \<Rightarrow> cma_row list \<Rightarrow> cma_row qitem bounded_queue" where
  "requeue q buf = foldl requeue_chunk q (paginate (min 100 (length buf)) buf)"

definition flush_buffer_to_db :: "cma_server \<Rightarrow> flush_env \<Rightarrow> cma_row list \<Rightarrow> flush_env" where
  "flush_buffer_to_db srv env buf =
     (if buf = [] then env
      else case insert_cma_sales_data srv (table env) buf of
             (tbl', None) \<Rightarrow>
               env\<lparr>table := tbl',
                   total_records_inserted := total_records_inserted env + length buf,
                   total_batches_flushed := total_batches_flushed env + 1\<rparr>
           | (tbl', Some e) \<Rightarrow> env\<lparr>table := tbl', queue := requeue (queue env) buf\<rparr>)"

text \<open>
  The failing input of claim C6: one stored Record of unit 1 with nested entity 0, and a
  buffer of 5000 Records of unit 1 with nested entities 0 to 4999, on an empty queue.
\<close>

definition big_batch :: "cma_row list" where
  "big_batch = map (\<lambda>i. sample_row 1 (int i) ''new'') [1..<5001]"

definition env_with_old_row :: flush_env where
  "env_with_old_row =
     \<lparr>queue = \<lparr>items = [], maxsize = 200000\<rparr>, lost = [], taken = [],
      table = [sample_row 1 1 ''old''], total_records_inserted = 0,
      total_batches_flushed = 0\<rparr>"

fun chunk_records :: "'r qitem \<Rightarrow> 'r list" where
  "chunk_records Poison = []"
| "chunk_records (Single r) = [r]"
| "chunk_records (Chunk rs) = rs"


section \<open>A failing \<open>COPY\<close>\<close>

subsection \<open>The rent loader falls back\<close>

lemma rent_copy_failure_falls_back:
  "copy_expert srv tbl batch_data = Inl e \<Longrightarrow> insert_accepts srv batch_data \<Longrightarrow>
   bulk_insert_with_copy_optimized srv tbl batch_data = (foldl insert_on_conflict tbl batch_data, None)"
  by (simp add: bulk_insert_with_copy_optimized_def bulk_insert_with_execute_values_fallback_def)

lemma rent_loader_atomic:
  "bulk_insert_with_copy_optimized srv tbl batch_data = (tbl', Some e) \<Longrightarrow> tbl' = tbl"
  by (auto simp: bulk_insert_with_copy_optimized_def split: sum.splits)

lemma index_entries_append:
  "index_entries (xs @ ys) = index_entries xs @ index_entries ys"
  by (induction xs) (simp_all split: option.splits)

lemma insert_on_conflict_index:
  "distinct (index_entries tbl) \<Longrightarrow> distinct (index_entries (insert_on_conflict tbl r))"
  by (auto simp: insert_on_conflict_def index_entries_append split: option.splits)

lemma rent_fallback_keeps_index:
  "distinct (index_entries tbl) \<Longrightarrow> distinct (index_entries (foldl insert_on_conflict tbl batch_data))"
  by (induction batch_data arbitrary: tbl) (simp_all add: insert_on_conflict_index)

lemma rent_loader_keeps_index:
  "distinct (index_entries tbl) \<Longrightarrow>
   distinct (index_entries (fst (bulk_insert_with_copy_optimized srv tbl batch_data)))"
  by (auto simp: bulk_insert_with_copy_optimized_def copy_expert_def
      bulk_insert_with_execute_values_fallback_def rent_fallback_keeps_index
      split: sum.splits if_splits)


subsection \<open>The CMA sales loader does not\<close>

lemma copy_row_sample: "copy_row (sample_row p c ''new'') = sample_row p c ''new''"
  by (simp add: copy_row_def copy_text_def sample_row_def)

lemma big_batch_clash: "\<not> unique_after [sample_row 1 1 ''old''] (map copy_row big_batch)"
proof -
  have "sample_row 1 (int 1) ''new'' \<in> set big_batch"
    by (auto simp: big_batch_def intro!: image_eqI [where x = 1])
  then have "copy_row (sample_row 1 1 ''new'') \<in> set (map copy_row big_batch)" by force
  then have "cma_key (sample_row 1 1 ''new'') \<in> set (keys_of (map copy_row big_batch))"
    by (force simp: keys_of_def copy_row_sample)
  moreover have "cma_key (sample_row 1 1 ''new'') \<in> set (keys_of [sample_row 1 1 ''old''])"
    by (simp add: keys_of_def cma_key_def sample_row_def)
  ultimately show ?thesis by (auto simp: unique_after_def)
qed

lemma big_batch_insert:
  "insert_cma_sales_data plain_server [sample_row 1 1 ''old''] big_batch
     = ([sample_row 1 1 ''old''], Some UniqueViolation)"
proof -
  have "length big_batch = 5000" by (simp add: big_batch_def)
  moreover have "map (copy_reads plain_server) (map copy_row big_batch) = map copy_row big_batch"
    by (simp add: plain_server_def)
  moreover have "big_batch \<noteq> []" using \<open>length big_batch = 5000\<close> by auto
  ultimately show ?thesis
    using big_batch_clash
    by (simp add: insert_cma_sales_data_def bulk_insert_with_copy_def Let_def plain_server_def
        del: map_map)
qed

lemma length_paginate:
  "0 < n \<Longrightarrow> length xs = k * n \<Longrightarrow> length (paginate n xs) = k"
proof (induction k arbitrary: xs)
  case 0
  then show ?case by (simp add: paginate.simps)
next
  case (Suc k)
  then have ne: "xs \<noteq> []" by auto
  have "length (drop n xs) = k * n" using Suc.prems by simp
  then have "length (paginate n (drop n xs)) = k" using Suc.IH Suc.prems(1) by blast
  then show ?case using ne Suc.prems(1) by (subst paginate.simps) simp
qed


lemma requeue_chunks_fit:
  "maxsize q = 0 \<or> length (items q) + length chunks \<le> maxsize q \<Longrightarrow>
   foldl requeue_chunk q chunks = q\<lparr>items := items q @ map Chunk chunks\<rparr>"
proof (induction chunks arbitrary: q)
  case Nil
  show ?case by simp
next
  case (Cons c cs)
  have step: "requeue_chunk q c = q\<lparr>items := items q @ [Chunk c]\<rparr>"
    using Cons.prems by (auto simp: requeue_chunk_def queue_put_def)
  have "maxsize (requeue_chunk q c) = 0
      \<or> length (items (requeue_chunk q c)) + length cs \<le> maxsize (requeue_chunk q c)"
    using Cons.prems by (auto simp: step)
  from Cons.IH [OF this] show ?case by (simp add: step)
qed

lemma big_batch_chunks:
  "length (paginate 100 big_batch) = 50" "concat (paginate 100 big_batch) = big_batch"
  by (simp_all add: length_paginate [where k = 50] concat_paginate big_batch_def)

lemma big_batch_keys_distinct: "distinct (keys_of big_batch)"
proof -
  have "inj_on (\<lambda>i. cma_key (sample_row 1 (int i) ''new'')) (set [1..<5001])"
    by (rule inj_onI) (simp add: cma_key_def sample_row_def)
  then show ?thesis
    by (simp add: keys_of_def big_batch_def distinct_map comp_def)
qed

lemma big_batch_conflict_safe:
  "length (insert_statement [sample_row 1 1 ''old''] big_batch) = 5000"
proof -
  let ?res = "insert_statement [sample_row 1 1 ''old''] big_batch"
  have old: "cma_key (sample_row 1 1 ''old'') \<in> set (keys_of big_batch)"
  proof -
    have "sample_row 1 (int 1) ''new'' \<in> set big_batch"
      by (auto simp: big_batch_def intro!: image_eqI [where x = 1])
    then have "cma_key (sample_row 1 1 ''new'') \<in> set (keys_of big_batch)"
      by (force simp: keys_of_def)
    then show ?thesis by (simp add: cma_key_def sample_row_def)
  qed
  have d: "distinct (keys_of ?res)"
    by (rule distinct_insert_statement) (simp add: keys_of_def)
  have "set (keys_of [sample_row 1 1 ''old'']) \<subseteq> set (keys_of big_batch)"
    using old by (simp add: keys_of_def)
  then have "set (keys_of ?res) = set (keys_of big_batch)"
    unfolding keys_insert_statement by blast
  then have "card (set (keys_of ?res)) = card (set (keys_of big_batch))" by simp
  then have "length (keys_of ?res) = length (keys_of big_batch)"
    using d big_batch_keys_distinct by (simp add: distinct_card)
  then show ?thesis by (simp add: keys_of_def big_batch_def)
qed


text \<open>
  Claim C6 (the CMA sales loader departs from it). A buffer of 5000 Records, one of which
  has the key of a stored row, goes down the \<open>COPY\<close> path of \<open>insert_cma_sales_data\<close>.
  \<open>COPY\<close> raises, nothing is stored, and the exception propagates out of
  \<open>_bulk_insert_with_copy\<close> and \<open>insert_cma_sales_data\<close>: there is no retry of the batch by
  an insert with a conflict clause. \<open>_flush_buffer\<close> catches the exception and puts the
  5000 Records back on the queue as 50 lists of 100. The insert with
  \<open>ON CONFLICT DO NOTHING\<close> that the claim describes would have left 5000 rows in the
  table, the 4999 new ones among them. The rent loader does fall back
  (\<open>rent_copy_failure_falls_back\<close>).
\<close>

theorem cma_sales_copy_failure_goes_back_to_queue:
  "insert_cma_sales_data plain_server (table env_with_old_row) big_batch
     = (table env_with_old_row, Some UniqueViolation)
   \<and> flush_buffer_to_db plain_server env_with_old_row big_batch
     = env_with_old_row
         \<lparr>queue := \<lparr>items = map Chunk (paginate 100 big_batch), maxsize = 200000\<rparr>\<rparr>
   \<and> length (paginate 100 big_batch) = 50
   \<and> concat (paginate 100 big_batch) = big_batch
   \<and> length (insert_statement (table env_with_old_row) big_batch) = 5000"
proof -
  have len: "length big_batch = 5000" by (simp add: big_batch_def)
  then have ne: "big_batch \<noteq> []" by auto
  have ins: "insert_cma_sales_data plain_server (table env_with_old_row) big_batch
     = (table env_with_old_row, Some UniqueViolation)"
    using big_batch_insert by (simp add: env_with_old_row_def)
  have "requeue (queue env_with_old_row) big_batch
      = \<lparr>items = map Chunk (paginate 100 big_batch), maxsize = 200000\<rparr>"
    unfolding requeue_def len
    by (subst requeue_chunks_fit) (simp_all add: big_batch_chunks env_with_old_row_def)
  then have fl: "flush_buffer_to_db plain_server env_with_old_row big_batch
     = env_with_old_row
         \<lparr>queue := \<lparr>items = map Chunk (paginate 100 big_batch), maxsize = 200000\<rparr>\<rparr>"
    using ne ins by (simp add: flush_buffer_to_db_def)
  have "length (insert_statement (table env_with_old_row) big_batch) = 5000"
    by (simp add: env_with_old_row_def big_batch_conflict_safe)
  with ins fl big_batch_chunks show ?thesis by blast
qed




section \<open>Whole runs\<close>

text \<open>
  The runs below put the pieces together. The worker pools of the source are modelled by
  one schedule: work items are handled one after the other in list order. Where a
  property depends on the schedule, it is stated for this one only; the properties
  proved of dry runs and of the prices of stored rows do not.
\<close>

subsection \<open>\<open>process_optimized_transaction_rent_batch\<close>\<close>

text \<open>
  \<open>create_location_batches\<close>: for every template (a measurement), the location ids cut
  into slices of \<open>locations_per_batch\<close>. \<open>range(0, n, 0)\<close> raises \<open>ValueError\<close>.
\<close>

definition create_location_batches ::
  "rent_config \<Rightarrow> int list \<Rightarrow> string list \<Rightarrow> py_error + (string \<times> int list) list"
where
  "create_location_batches cfg location_ids templates =
     (if templates \<noteq> [] \<and> locations_per_batch cfg = 0 then Inl DataError
      else Inr (concat (map (\<lambda>template.
                  map (\<lambda>batch_location_ids. (template, batch_location_ids))
                    (paginate (locations_per_batch cfg) location_ids)) templates)))"

text \<open>
  \<open>_process_batch_request\<close>: every location of the batch is fetched; the Records of a
  location are kept only when its success flag is set. \<open>batch_requests\<close> lists the
  requests issued.
\<close>

record batch_result =
  batch_records :: nat
  all_processed_data :: "flat_record list"
  successful_locations :: nat
  failed_locations :: nat
  batch_requests :: "rent_request list"

definition process_location ::
  "rent_config \<Rightarrow> (rent_request \<Rightarrow> py_error + api_payload) \<Rightarrow> string \<Rightarrow> batch_result \<Rightarrow> int
     \<Rightarrow> batch_result"
where
  "process_location cfg api template b location_id =
     (case fetch_location_data cfg api location_id template of
        (s, success) \<Rightarrow>
          b\<lparr>batch_records := batch_records b + total_records s,
            all_processed_data :=
              (if success then all_processed_data b @ accumulated_data s
               else all_processed_data b),
            successful_locations := successful_locations b + (if success then 1 else 0),
            failed_locations := failed_locations b + (if success then 0 else 1),
            batch_requests := batch_requests b @ requests s\<rparr>)"

definition process_batch_request ::
  "rent_config \<Rightarrow> (rent_request \<Rightarrow> py_error + api_payload) \<Rightarrow> string \<times> int list \<Rightarrow> batch_result"
where
  "process_batch_request cfg api batch_request =
     foldl (process_location cfg api (fst batch_request))
       \<lparr>batch_records = 0, all_processed_data = [], successful_locations = 0,
        failed_locations = 0, batch_requests = []\<rparr>
       (snd batch_request)"

text \<open>
  The state of the main loop: the counters of \<open>ProcessingResult\<close>, the accumulator, the
  destination table and the requests issued so far.
\<close>

record rent_run =
  run_total_records :: nat
  total_successful_requests :: nat
  total_failed_requests :: nat
  all_accumulated_data :: "flat_record list"
  rent_table :: "flat_record list"
  run_requests :: "rent_request list"

text \<open>
  One completed batch: its Records join the accumulator; at the threshold, outside a
  dry run, the accumulator is inserted and emptied. An exception of the insert is caught
  by the loop, which counts the batch's locations as failed and keeps the accumulator.
\<close>

definition rent_batch_done ::
  "rent_config \<Rightarrow> rent_server \<Rightarrow> (rent_request \<Rightarrow> py_error + api_payload) \<Rightarrow> rent_run
     \<Rightarrow> string \<times> int list \<Rightarrow> rent_run"
where
  "rent_batch_done cfg srv api r batch_request =
     (let b = process_batch_request cfg api batch_request;
          r1 = r\<lparr>run_total_records := run_total_records r + batch_records b,
                 total_successful_requests := total_successful_requests r + successful_locations b,
                 total_failed_requests := total_failed_requests r + failed_locations b,
                 all_accumulated_data := all_accumulated_data r @ all_processed_data b,
                 run_requests := run_requests r @ batch_requests b\<rparr>
      in if length (all_accumulated_data r1) \<ge> max_accumulated_records cfg \<and> \<not> dry_run cfg
         then (case insert_transaction_raw_rent_data srv (rent_table r1) (all_accumulated_data r1) of
                 (tbl', None) \<Rightarrow> r1\<lparr>rent_table := tbl', all_accumulated_data := []\<rparr>
               | (tbl', Some e) \<Rightarrow>
                   r1\<lparr>rent_table := tbl',
                      total_failed_requests :=
                        total_failed_requests r1 + length (snd batch_request)\<rparr>)
         else r1)"

text \<open>
  \<open>process_optimized_transaction_rent_batch\<close>. \<open>locations\<close> is what \<open>_get_locations\<close>
  returned (the empty list when the query failed). The measurements are \<open>int\<close> and
  \<open>imp\<close>. The final insert is outside any handler: its exception ends the run.
\<close>

definition process_optimized_transaction_rent_batch ::
  "rent_config \<Rightarrow> rent_server \<Rightarrow> (rent_request \<Rightarrow> py_error + api_payload) \<Rightarrow> flat_record list
     \<Rightarrow> int list \<Rightarrow> rent_run \<times> py_error option"
where
  "process_optimized_transaction_rent_batch cfg srv api tbl locations =
     (let r0 = \<lparr>run_total_records = 0, total_successful_requests = 0,
                total_failed_requests = 0, all_accumulated_data = [], rent_table = tbl,
                run_requests = []\<rparr>
      in if locations = [] then (r0, None)
         else case create_location_batches cfg locations [''int'', ''imp''] of
                Inl e \<Rightarrow> (r0, Some e)
              | Inr batch_reqs \<Rightarrow>
                  (let r = foldl (rent_batch_done cfg srv api) r0 batch_reqs
                   in if all_accumulated_data r \<noteq> [] \<and> \<not> dry_run cfg
                      then (case insert_transaction_raw_rent_data srv (rent_table r)
                                   (all_accumulated_data r) of
                              (tbl', err) \<Rightarrow> (r\<lparr>rent_table := tbl'\<rparr>, err))
                      else (r, None)))"

subsection \<open>\<open>process_transaction_list_etl\<close>\<close>

text \<open>
  The importer's dimensions and \<open>generate_parameter_combinations\<close>: property type,
  activity type, currency, measurement, in this nesting.
\<close>

type_synonym param_set = "string \<times> string \<times> string \<times> string"

definition generate_parameter_combinations :: "param_set list" where
  "generate_parameter_combinations =
     concat (map (\<lambda>pt.
       concat (map (\<lambda>act.
         concat (map (\<lambda>cur. map (\<lambda>meas. (pt, act, cur, meas)) [''imp'']) [''aed'']))
       [''ready'', ''off-plan'', ''mortgage'', ''off-plan-mortgage'']))
     [''residential'', ''office''])"

text \<open>
  The collaborators of the loop: the API call (it raises, or returns a payload), the rows
  that \<open>process_transaction_list_data\<close> builds from a list of items (a pure function of the
  items, the location and the parameters; every item is handled inside a \<open>try\<close>, so this
  part does not raise), and \<open>insert_transaction_list_data\<close> (it raises and stores nothing,
  or returns the new table). \<open>etl_api_calls\<close> and \<open>etl_transformed\<close> are not variables of
  the source: they list the calls made to the API and to the transform.
\<close>

record 'row etl_world =
  etl_api :: "param_set \<Rightarrow> int \<Rightarrow> py_error + api_payload"
  etl_transform :: "api_item list \<Rightarrow> int \<Rightarrow> param_set \<Rightarrow> 'row list"
  etl_insert :: "'row list \<Rightarrow> 'row list \<Rightarrow> py_error + 'row list"

record 'row etl_run =
  etl_table :: "'row list"
  etl_total_records :: nat
  etl_successful_requests :: nat
  etl_failed_requests :: nat
  etl_api_calls :: "(param_set \<times> int) list"
  etl_transformed :: "(param_set \<times> int) list"

text \<open>Python's truth value of the results.\<close>

fun results_truthy :: "api_results \<Rightarrow> bool" where
  "results_truthy Missing_results = False"
| "results_truthy Null_results = False"
| "results_truthy (Scalar_results b) = b"
| "results_truthy (Text_results s) = (s \<noteq> [])"
| "results_truthy (Object_results ks) = (ks \<noteq> [])"
| "results_truthy (Result_list its) = (its \<noteq> [])"

text \<open>\<^verbatim>\<open>response.get("results", [])\<close>: the default stands in for a missing key only.\<close>

fun get_results_or_empty :: "api_results \<Rightarrow> api_results" where
  "get_results_or_empty Missing_results = Result_list []"
| "get_results_or_empty rs = rs"

text \<open>
  \<open>process_transaction_list_data\<close> as a whole. It iterates over \<open>raw_data\<close>, whatever that
  is: \<open>null\<close>, a boolean or a number cannot be iterated and \<open>for item in raw_data\<close> raises
  \<open>TypeError\<close>; a string gives its characters and an object its keys, all of which are
  skipped by \<^verbatim>\<open>if not isinstance(item, dict): continue\<close>. After the loop, when no row was
  built and \<open>len(raw_data) > 0\<close>, the log line reads \<open>raw_data[0]\<close>, which raises \<open>KeyError\<close>
  on an object (its keys are strings). Nothing of this is caught inside the function.
\<close>

fun process_transaction_list_data ::
  "'row etl_world \<Rightarrow> api_results \<Rightarrow> int \<Rightarrow> param_set \<Rightarrow> py_error + 'row list"
where
  "process_transaction_list_data w Missing_results location_id pset = Inl TypeError"
| "process_transaction_list_data w Null_results location_id pset = Inl TypeError"
| "process_transaction_list_data w (Scalar_results b) location_id pset = Inl TypeError"
| "process_transaction_list_data w (Text_results s) location_id pset = Inr []"
| "process_transaction_list_data w (Object_results ks) location_id pset =
     (if ks = [] then Inr [] else Inl KeyError)"
| "process_transaction_list_data w (Result_list its) location_id pset =
     Inr (etl_transform w its location_id pset)"

text \<open>
  The body of the inner loop for one parameter set and one location. A response that is
  not a JSON object makes \<open>response.get\<close> raise; the transform is called when the results
  are true in Python's sense (\<^verbatim>\<open>if results:\<close>), list or not; every exception of the body is
  caught and counted as a failed request.
\<close>

definition etl_one ::
  "'row etl_world \<Rightarrow> bool \<Rightarrow> param_set \<Rightarrow> 'row etl_run \<Rightarrow> int \<Rightarrow> 'row etl_run"
where
  "etl_one w dry pset s location_id =
     (let s1 = s\<lparr>etl_api_calls := etl_api_calls s @ [(pset, location_id)]\<rparr> in
      case etl_api w pset location_id of
        Inl e \<Rightarrow> s1\<lparr>etl_failed_requests := etl_failed_requests s1 + 1\<rparr>
      | Inr Non_dict_payload \<Rightarrow> s1\<lparr>etl_failed_requests := etl_failed_requests s1 + 1\<rparr>
      | Inr (Payload rs sid) \<Rightarrow>
          (let results = get_results_or_empty rs in
           if \<not> results_truthy results
           then s1\<lparr>etl_successful_requests := etl_successful_requests s1 + 1\<rparr>
           else
             (let s2 = s1\<lparr>etl_transformed := etl_transformed s1 @ [(pset, location_id)]\<rparr> in
              case process_transaction_list_data w results location_id pset of
                Inl e \<Rightarrow> s2\<lparr>etl_failed_requests := etl_failed_requests s2 + 1\<rparr>
              | Inr processed_data \<Rightarrow>
                  if processed_data \<noteq> [] \<and> \<not> dry
                  then (case etl_insert w (etl_table s2) processed_data of
                          Inl e \<Rightarrow> s2\<lparr>etl_failed_requests := etl_failed_requests s2 + 1\<rparr>
                        | Inr tbl' \<Rightarrow>
                            s2\<lparr>etl_table := tbl',
                               etl_total_records := etl_total_records s2 + length processed_data,
                               etl_successful_requests := etl_successful_requests s2 + 1\<rparr>)
                  else s2\<lparr>etl_successful_requests := etl_successful_requests s2 + 1\<rparr>)))"

definition process_transaction_list_etl ::
  "'row etl_world \<Rightarrow> bool \<Rightarrow> 'row list \<Rightarrow> int list \<Rightarrow> 'row etl_run"
where
  "process_transaction_list_etl w dry tbl locations =
     (let s0 = \<lparr>etl_table = tbl, etl_total_records = 0, etl_successful_requests = 0,
                etl_failed_requests = 0, etl_api_calls = [], etl_transformed = []\<rparr>
      in if locations = [] then s0
         else foldl (\<lambda>s pset. foldl (etl_one w dry pset) s locations) s0
                generate_parameter_combinations)"


subsection \<open>\<open>process_cma_sales\<close>\<close>

text \<open>
  The \<open>results\<close> of the CMA sales endpoint as \<open>process_single_api_call\<close> hands them on: a
  list of elements. (Results that are not a list put nothing on the queue either: a
  string or an object is iterated and every element skipped, a number raises in the loop
  header and the call returns 0; they are covered by the empty list and by an exception of
  the call.) An element is not a JSON object, or an object with

  \<^item> the value of \<open>property_id\<close>: false in Python's sense (missing, \<open>null\<close>, zero, empty);
    true, but refused by \<open>int()\<close>; or true, with the integer that \<open>int()\<close> gives (which can
    be 0, for the string \<open>"0"\<close>);
  \<^item> the other columns of the Record as one text, or \<open>None\<close> when building them raises
    (\<open>location\<close> is \<open>null\<close> or not an object, so that \<open>location.get\<close> raises).
\<close>

datatype id_value = No_id | Bad_id | Id int

datatype cma_item = Cma_non_dict | Cma_dict id_value "string option"

text \<open>
  \<open>_process_cma_sales_data\<close>. The body of the loop is inside \<open>try\<close>, and the handler logs and
  goes on to the next element. An element that is not an object, or whose \<open>property_id\<close>
  is false, is skipped; \<open>int(comparable_property_id)\<close> raises before the key exists; an
  element whose unique key was seen earlier in the same response is skipped. The key is
  added to \<open>seen_keys\<close> before the Record is built: when building it raises, the element is
  dropped and its key stays, so that a later element with the same id is skipped as a
  duplicate.
\<close>

fun process_cma_sales_data :: "cma_key list \<Rightarrow> cma_item list \<Rightarrow> cma_task \<Rightarrow> cma_row list" where
  "process_cma_sales_data seen [] t = []"
| "process_cma_sales_data seen (Cma_non_dict # its) t = process_cma_sales_data seen its t"
| "process_cma_sales_data seen (Cma_dict No_id other # its) t = process_cma_sales_data seen its t"
| "process_cma_sales_data seen (Cma_dict Bad_id other # its) t = process_cma_sales_data seen its t"
| "process_cma_sales_data seen (Cma_dict (Id cid) other # its) t =
     (let unique_key = (property_id t, alias_name t, currency t, measurement t,
                        property_type t, property_subtype t, cid)
      in if unique_key \<in> set seen then process_cma_sales_data seen its t
         else case other of
                None \<Rightarrow> process_cma_sales_data (unique_key # seen) its t
              | Some columns \<Rightarrow>
                  \<lparr>property_id = property_id t, alias_name = alias_name t, currency = currency t,
                   measurement = measurement t, property_type = property_type t,
                   property_subtype = property_subtype t, comparable_property_id = cid,
                   other_columns = columns\<rparr>
                  # process_cma_sales_data (unique_key # seen) its t)"

text \<open>
  The state of a run: the flush environment (queue, table, counters), the Flush Worker,
  and the requests issued to the API (not a variable of the source).
\<close>

record sales_run =
  env :: flush_env
  worker :: "cma_row flusher"
  cma_requests :: "cma_task list"

text \<open>
  One pass of the Flush Worker with its flush operation: the batches the pass hands over
  are flushed to the table by \<open>_flush_buffer\<close>.
\<close>

definition worker_pass ::
  "cma_server \<Rightarrow> int \<Rightarrow> flush_env \<times> cma_row flusher \<Rightarrow> cma_row worker_event
     \<Rightarrow> flush_env \<times> cma_row flusher"
where
  "worker_pass srv batch_size ew ev =
     (let w' = sales_flusher_step batch_size (snd ew) ev;
          handed_over = drop (length (flushed (snd ew))) (flushed w')
      in (foldl (flush_buffer_to_db srv) (fst ew) handed_over, w'))"

text \<open>
  The worker takes what is on the queue, at most \<open>n\<close> items, and stops when the queue is
  empty or when it has left its loop.
\<close>

fun drain ::
  "cma_server \<Rightarrow> int \<Rightarrow> real \<Rightarrow> nat \<Rightarrow> flush_env \<times> cma_row flusher
     \<Rightarrow> flush_env \<times> cma_row flusher"
where
  "drain srv batch_size now 0 ew = ew"
| "drain srv batch_size now (Suc n) ew =
     (if finished (snd ew) then ew
      else case queue_get (queue (fst ew)) of
             Inl e \<Rightarrow> ew
           | Inr (item, q') \<Rightarrow>
               drain srv batch_size now n
                 (worker_pass srv batch_size
                    ((fst ew)\<lparr>queue := q', taken := taken (fst ew) @ [item]\<rparr>, snd ew)
                    (Arrive item now)))"

text \<open>
  \<open>process_single_api_call\<close> for one work item, followed by the worker taking what the
  call has queued. An exception of the API call is caught and the call returns 0.
\<close>

definition sales_task ::
  "cma_server \<Rightarrow> int \<Rightarrow> real \<Rightarrow> (cma_task \<Rightarrow> py_error + cma_item list) \<Rightarrow> sales_run
     \<Rightarrow> cma_task \<Rightarrow> sales_run"
where
  "sales_task srv batch_size now api s t =
     (let s1 = s\<lparr>cma_requests := cma_requests s @ [t]\<rparr> in
      case api t of
        Inl e \<Rightarrow> s1
      | Inr results \<Rightarrow>
          (let processed_data = process_cma_sales_data [] results t;
               env1 = add_to_queue (env s1) (map Single processed_data);
               ew = drain srv batch_size now (length (items (queue env1))) (env1, worker s1)
           in s1\<lparr>env := fst ew, worker := snd ew\<rparr>))"

text \<open>
  \<open>stop_flusher_threads\<close> puts the shutdown signal on the queue (it retries until the
  put succeeds) and waits for the worker, which takes what is left up to the signal.
\<close>

definition stop_flusher ::
  "cma_server \<Rightarrow> int \<Rightarrow> real \<Rightarrow> sales_run \<Rightarrow> sales_run"
where
  "stop_flusher srv batch_size now s =
     (let q = queue (env s);
          env1 = (env s)\<lparr>queue := q\<lparr>items := items q @ [Poison]\<rparr>\<rparr>;
          ew = drain srv batch_size now (length (items (queue env1))) (env1, worker s)
      in s\<lparr>env := fst ew, worker := snd ew\<rparr>)"

text \<open>
  \<open>process_cma_sales\<close>. \<open>properties\<close> is what \<open>get_properties\<close> returned (the empty list
  when the query failed). The first statement after the log lines is
  \<^verbatim>\<open>if dry_run: ... return\<close>.
\<close>

definition process_cma_sales ::
  "cma_sales_config \<Rightarrow> cma_server \<Rightarrow> (cma_task \<Rightarrow> py_error + cma_item list) \<Rightarrow> int
     \<Rightarrow> real \<Rightarrow> bool \<Rightarrow> int \<Rightarrow> cma_row list \<Rightarrow> property_data list \<Rightarrow> sales_run"
where
  "process_cma_sales cfg srv api batch_size now dry max_comb tbl properties =
     (let s0 = \<lparr>env = \<lparr>queue = \<lparr>items = [], maxsize = 200000\<rparr>, lost = [], taken = [],
                       table = tbl, total_records_inserted = 0, total_batches_flushed = 0\<rparr>,
                worker = \<lparr>buffer = [], last_flush_time = now, flushed = [], finished = False\<rparr>,
                cma_requests = []\<rparr>
      in if dry then s0
         else if properties = [] then s0
         else case generate_api_tasks cfg properties max_comb of
                Inl e \<Rightarrow> s0
              | Inr api_tasks \<Rightarrow>
                  (let remaining = resume_filter cfg (Inr tbl) api_tasks
                   in if remaining = [] then s0
                      else stop_flusher srv batch_size now
                             (foldl (sales_task srv batch_size now api) s0 remaining)))"

text \<open>An API that answers every work item with one comparable property.\<close>

definition one_comparable :: "cma_task \<Rightarrow> py_error + cma_item list" where
  "one_comparable t = Inr [Cma_dict (Id 7) (Some ''row'')]"


section \<open>Dry runs\<close>

subsection \<open>The rent importer in a dry run\<close>

lemma rent_page_body_dry:
  assumes "dry_run cfg"
    and "rent_page_body cfg loc meas payload s = Inr s2 \<or> rent_page_body cfg loc meas payload s = Inl s2"
  shows "accumulated_data s2 = accumulated_data s"
  using assms by (auto simp: rent_page_body_def Let_def split: option.splits)

lemma rent_pages_dry:
  "dry_run cfg \<Longrightarrow>
   accumulated_data (fst (rent_pages cfg api loc meas n s)) = accumulated_data s"
proof (induction n arbitrary: s)
  case 0
  show ?case by simp
next
  case (Suc n)
  define s1 where "s1 = request_sent loc meas s"
  have a1: "accumulated_data s1 = accumulated_data s" by (simp add: s1_def request_sent_def)
  show ?case
  proof (cases "api (build_api_params loc meas (page s) (current_scroll_id s))")
    case (Inl e)
    then have "rent_pages cfg api loc meas (Suc n) s = (s1, False)"
      by (simp add: rent_pages_failed_call s1_def)
    with a1 show ?thesis by simp
  next
    case (Inr payload)
    show ?thesis
    proof (cases "rent_page_body cfg loc meas payload s1")
      case (Inl s2)
      with Suc.prems have "accumulated_data s2 = accumulated_data s1"
        using rent_page_body_dry by blast
      moreover have "rent_pages cfg api loc meas (Suc n) s = (s2, True)"
        using Inr Inl by (simp add: rent_pages_break s1_def)
      ultimately show ?thesis using a1 by simp
    next
      case body: (Inr s2)
      with Suc.prems have a2: "accumulated_data s2 = accumulated_data s1"
        using rent_page_body_dry by blast
      have a3: "accumulated_data (next_page payload s2) = accumulated_data s"
        using a1 a2 by (simp add: next_page_def)
      show ?thesis
      proof (cases "truthy (payload_scroll_id payload)")
        case True
        with Inr body have "rent_pages cfg api loc meas (Suc n) s
            = rent_pages cfg api loc meas n (next_page payload s2)"
          by (simp add: rent_pages_next_page s1_def)
        with Suc.IH [OF Suc.prems, of "next_page payload s2"] a3 show ?thesis by simp
      next
        case False
        with Inr body have "rent_pages cfg api loc meas (Suc n) s = (next_page payload s2, True)"
          by (simp add: rent_pages_last_page s1_def)
        with a3 show ?thesis by simp
      qed
    qed
  qed
qed

lemma fetch_location_data_dry:
  "dry_run cfg \<Longrightarrow> accumulated_data (fst (fetch_location_data cfg api loc meas)) = []"
  by (simp add: fetch_location_data_def rent_pages_dry)

lemma process_location_dry:
  "dry_run cfg \<Longrightarrow> all_processed_data b = [] \<Longrightarrow>
   all_processed_data (process_location cfg api template b loc) = []"
  using fetch_location_data_dry [of cfg api loc template]
  by (cases "fetch_location_data cfg api loc template") (simp add: process_location_def)

lemma process_locations_dry:
  "dry_run cfg \<Longrightarrow> all_processed_data b = [] \<Longrightarrow>
   all_processed_data (foldl (process_location cfg api template) b locs) = []"
  by (induction locs arbitrary: b) (simp_all add: process_location_dry)

lemma process_batch_request_dry:
  "dry_run cfg \<Longrightarrow> all_processed_data (process_batch_request cfg api br) = []"
  by (simp add: process_batch_request_def process_locations_dry)

lemma rent_batch_done_dry:
  "dry_run cfg \<Longrightarrow> all_accumulated_data r = [] \<Longrightarrow>
   rent_table (rent_batch_done cfg srv api r br) = rent_table r
   \<and> all_accumulated_data (rent_batch_done cfg srv api r br) = []"
  by (simp add: rent_batch_done_def Let_def process_batch_request_dry)

lemma rent_batches_dry:
  "dry_run cfg \<Longrightarrow> all_accumulated_data r = [] \<Longrightarrow>
   rent_table (foldl (rent_batch_done cfg srv api) r brs) = rent_table r
   \<and> all_accumulated_data (foldl (rent_batch_done cfg srv api) r brs) = []"
proof (induction brs arbitrary: r)
  case Nil
  then show ?case by simp
next
  case (Cons br brs)
  have "rent_table (rent_batch_done cfg srv api r br) = rent_table r"
    and e: "all_accumulated_data (rent_batch_done cfg srv api r br) = []"
    using rent_batch_done_dry [OF Cons.prems] by simp_all
  with Cons.IH [OF Cons.prems(1) e] show ?case by simp
qed

lemma rent_run_dry:
  assumes "dry_run cfg"
  shows "rent_table (fst (process_optimized_transaction_rent_batch cfg srv api tbl locations)) = tbl
       \<and> all_accumulated_data (fst (process_optimized_transaction_rent_batch cfg srv api tbl locations)) = []"
proof -
  define r0 :: rent_run where "r0 = \<lparr>run_total_records = 0, total_successful_requests = 0,
                total_failed_requests = 0, all_accumulated_data = [], rent_table = tbl,
                run_requests = []\<rparr>"
  have r0: "all_accumulated_data r0 = []" "rent_table r0 = tbl" by (simp_all add: r0_def)
  have f: "rent_table (foldl (rent_batch_done cfg srv api) r0 brs) = tbl
       \<and> all_accumulated_data (foldl (rent_batch_done cfg srv api) r0 brs) = []" for brs
    using rent_batches_dry [OF assms r0(1), of srv api brs] r0(2) by simp
  show ?thesis
    unfolding process_optimized_transaction_rent_batch_def r0_def [symmetric] Let_def
    using assms f r0 by (auto split: sum.splits)
qed


subsection \<open>The requests of a rent run\<close>

lemma rent_page_body_requests:
  "rent_page_body cfg loc meas payload s = Inr s2 \<or> rent_page_body cfg loc meas payload s = Inl s2
   \<Longrightarrow> requests s2 = requests s"
  by (auto simp: rent_page_body_def Let_def split: option.splits if_splits)

lemma rent_pages_requests_grow:
  "\<exists>more. requests (fst (rent_pages cfg api loc meas n s)) = requests s @ more"
proof (induction n arbitrary: s)
  case 0
  show ?case by simp
next
  case (Suc n)
  define s1 where "s1 = request_sent loc meas s"
  have r1: "requests s1 = requests s @ [build_api_params loc meas (page s) (current_scroll_id s)]"
    by (simp add: s1_def request_sent_def)
  show ?case
  proof (cases "api (build_api_params loc meas (page s) (current_scroll_id s))")
    case (Inl e)
    then have "rent_pages cfg api loc meas (Suc n) s = (s1, False)"
      by (simp add: rent_pages_failed_call s1_def)
    with r1 show ?thesis by simp
  next
    case (Inr payload)
    show ?thesis
    proof (cases "rent_page_body cfg loc meas payload s1")
      case (Inl s2)
      then have "requests s2 = requests s1" using rent_page_body_requests by blast
      moreover have "rent_pages cfg api loc meas (Suc n) s = (s2, True)"
        using Inr Inl by (simp add: rent_pages_break s1_def)
      ultimately show ?thesis using r1 by simp
    next
      case body: (Inr s2)
      then have "requests s2 = requests s1" using rent_page_body_requests by blast
      then have r3: "requests (next_page payload s2) = requests s1" by (simp add: next_page_def)
      show ?thesis
      proof (cases "truthy (payload_scroll_id payload)")
        case True
        with Inr body have "rent_pages cfg api loc meas (Suc n) s
            = rent_pages cfg api loc meas n (next_page payload s2)"
          by (simp add: rent_pages_next_page s1_def)
        moreover obtain more where "requests (fst (rent_pages cfg api loc meas n (next_page payload s2)))
            = requests (next_page payload s2) @ more"
          using Suc.IH by blast
        ultimately show ?thesis using r1 r3 by simp
      next
        case False
        with Inr body have "rent_pages cfg api loc meas (Suc n) s = (next_page payload s2, True)"
          by (simp add: rent_pages_last_page s1_def)
        with r1 r3 show ?thesis by simp
      qed
    qed
  qed
qed

lemma rent_pages_first_request:
  "\<exists>more. requests (fst (rent_pages cfg api loc meas (Suc n) s))
      = requests s @ build_api_params loc meas (page s) (current_scroll_id s) # more"
proof -
  define s1 where "s1 = request_sent loc meas s"
  have r1: "requests s1 = requests s @ [build_api_params loc meas (page s) (current_scroll_id s)]"
    by (simp add: s1_def request_sent_def)
  show ?thesis
  proof (cases "api (build_api_params loc meas (page s) (current_scroll_id s))")
    case (Inl e)
    then have "rent_pages cfg api loc meas (Suc n) s = (s1, False)"
      by (simp add: rent_pages_failed_call s1_def)
    with r1 show ?thesis by simp
  next
    case (Inr payload)
    show ?thesis
    proof (cases "rent_page_body cfg loc meas payload s1")
      case (Inl s2)
      then have "requests s2 = requests s1" using rent_page_body_requests by blast
      moreover have "rent_pages cfg api loc meas (Suc n) s = (s2, True)"
        using Inr Inl by (simp add: rent_pages_break s1_def)
      ultimately show ?thesis using r1 by simp
    next
      case body: (Inr s2)
      then have "requests s2 = requests s1" using rent_page_body_requests by blast
      then have r3: "requests (next_page payload s2) = requests s1" by (simp add: next_page_def)
      show ?thesis
      proof (cases "truthy (payload_scroll_id payload)")
        case True
        with Inr body have "rent_pages cfg api loc meas (Suc n) s
            = rent_pages cfg api loc meas n (next_page payload s2)"
          by (simp add: rent_pages_next_page s1_def)
        moreover obtain more where "requests (fst (rent_pages cfg api loc meas n (next_page payload s2)))
            = requests (next_page payload s2) @ more"
          using rent_pages_requests_grow by blast
        ultimately show ?thesis using r1 r3 by simp
      next
        case False
        with Inr body have "rent_pages cfg api loc meas (Suc n) s = (next_page payload s2, True)"
          by (simp add: rent_pages_last_page s1_def)
        with r1 r3 show ?thesis by simp
      qed
    qed
  qed
qed

lemma fetch_location_data_requests:
  assumes "0 < max_pages cfg"
  shows "\<exists>req \<in> set (requests (fst (fetch_location_data cfg api loc meas))).
           location req = loc \<and> page_number req = 1"
proof -
  obtain n where n: "nat (max_pages cfg) = Suc n"
    using assms by (cases "nat (max_pages cfg)") auto
  define s0 :: rent_fetch where "s0 = \<lparr>total_records = 0, current_scroll_id = resume_scroll_id cfg,
      page = 1, accumulated_data = [], requests = []\<rparr>"
  obtain more where "requests (fst (rent_pages cfg api loc meas (Suc n) s0))
      = requests s0 @ build_api_params loc meas (page s0) (current_scroll_id s0) # more"
    using rent_pages_first_request by blast
  then have "requests (fst (fetch_location_data cfg api loc meas))
      = build_api_params loc meas 1 (resume_scroll_id cfg) # more"
    by (simp add: fetch_location_data_def n s0_def)
  then show ?thesis by (simp add: build_api_params_def)
qed

lemma process_locations_requests:
  "batch_requests (foldl (process_location cfg api template) b locs)
     = batch_requests b
       @ concat (map (\<lambda>loc. requests (fst (fetch_location_data cfg api loc template))) locs)"
proof (induction locs arbitrary: b)
  case Nil
  show ?case by simp
next
  case (Cons loc locs)
  have "batch_requests (process_location cfg api template b loc)
      = batch_requests b @ requests (fst (fetch_location_data cfg api loc template))"
    by (cases "fetch_location_data cfg api loc template") (simp add: process_location_def)
  then show ?case by (simp add: Cons.IH)
qed

lemma process_batch_request_requests:
  "batch_requests (process_batch_request cfg api br)
     = concat (map (\<lambda>loc. requests (fst (fetch_location_data cfg api loc (fst br)))) (snd br))"
  by (simp add: process_batch_request_def process_locations_requests)

lemma rent_batch_done_requests:
  "run_requests (rent_batch_done cfg srv api r br)
     = run_requests r @ batch_requests (process_batch_request cfg api br)"
  by (simp add: rent_batch_done_def Let_def split: prod.splits option.splits)

lemma rent_batches_requests:
  "run_requests (foldl (rent_batch_done cfg srv api) r brs)
     = run_requests r @ concat (map (\<lambda>br. batch_requests (process_batch_request cfg api br)) brs)"
  by (induction brs arbitrary: r) (simp_all add: rent_batch_done_requests)

lemma rent_run_requests_every_location:
  assumes "0 < max_pages cfg" and "0 < locations_per_batch cfg" and "loc \<in> set locations"
  shows "\<exists>req \<in> set (run_requests (fst (process_optimized_transaction_rent_batch cfg srv api tbl locations))).
           location req = loc \<and> page_number req = 1"
proof -
  define r0 :: rent_run where "r0 = \<lparr>run_total_records = 0, total_successful_requests = 0,
                total_failed_requests = 0, all_accumulated_data = [], rent_table = tbl,
                run_requests = []\<rparr>"
  define brs where "brs = concat (map (\<lambda>template.
                  map (\<lambda>batch_location_ids. (template, batch_location_ids))
                    (paginate (locations_per_batch cfg) locations)) [''int'', ''imp''])"
  have ne: "locations \<noteq> []" using assms(3) by auto
  have cb: "create_location_batches cfg locations [''int'', ''imp''] = Inr brs"
    using assms(2) by (simp add: create_location_batches_def brs_def)
  have "loc \<in> set (concat (paginate (locations_per_batch cfg) locations))"
    using assms(2,3) by (simp add: concat_paginate)
  then obtain chunk where chunk: "chunk \<in> set (paginate (locations_per_batch cfg) locations)"
    and loc: "loc \<in> set chunk" by auto
  then have br: "(''int'', chunk) \<in> set brs" by (auto simp: brs_def)
  obtain req where req: "req \<in> set (requests (fst (fetch_location_data cfg api loc ''int'')))"
    and ok: "location req = loc \<and> page_number req = 1"
    using fetch_location_data_requests [OF assms(1)] by blast
  have "req \<in> set (batch_requests (process_batch_request cfg api (''int'', chunk)))"
    using req loc by (auto simp: process_batch_request_requests)
  with br have in_fold: "req \<in> set (run_requests (foldl (rent_batch_done cfg srv api) r0 brs))"
    by (auto simp: rent_batches_requests)
  have "run_requests (fst (process_optimized_transaction_rent_batch cfg srv api tbl locations))
      = run_requests (foldl (rent_batch_done cfg srv api) r0 brs)"
    unfolding process_optimized_transaction_rent_batch_def r0_def [symmetric] Let_def
    using ne cb by (auto split: prod.splits)
  with in_fold ok show ?thesis by auto
qed

subsection \<open>The transaction-list ETL in a dry run\<close>

text \<open>
  The work items of the ETL are the pairs of a parameter set and a location, parameter sets
  outermost. \<open>has_results\<close> says whether the response to a work item is an object whose
  results are true in Python's sense, which is when the ETL calls the transform.
\<close>

definition has_results :: "'row etl_world \<Rightarrow> param_set \<times> int \<Rightarrow> bool" where
  "has_results w pl =
     (case etl_api w (fst pl) (snd pl) of
        Inr (Payload rs sid) \<Rightarrow> results_truthy (get_results_or_empty rs)
      | Inr Non_dict_payload \<Rightarrow> False
      | Inl e \<Rightarrow> False)"

definition etl_work_items :: "int list \<Rightarrow> (param_set \<times> int) list" where
  "etl_work_items locations =
     concat (map (\<lambda>pset. map (\<lambda>location_id. (pset, location_id)) locations)
       generate_parameter_combinations)"

lemma etl_one_calls:
  "etl_api_calls (etl_one w dry pset s loc) = etl_api_calls s @ [(pset, loc)]"
  by (simp add: etl_one_def Let_def split: sum.splits api_payload.splits option.splits)

lemma etl_one_transformed:
  "etl_transformed (etl_one w dry pset s loc)
     = etl_transformed s @ filter (has_results w) [(pset, loc)]"
  by (auto simp: etl_one_def Let_def has_results_def
      split: sum.splits api_payload.splits option.splits)

lemma etl_one_dry_table: "etl_table (etl_one w True pset s loc) = etl_table s"
  by (simp add: etl_one_def Let_def split: sum.splits api_payload.splits option.splits)

lemma etl_locations_calls:
  "etl_api_calls (foldl (etl_one w dry pset) s locs)
     = etl_api_calls s @ map (\<lambda>location_id. (pset, location_id)) locs"
  by (induction locs arbitrary: s) (simp_all add: etl_one_calls)

lemma etl_locations_transformed:
  "etl_transformed (foldl (etl_one w dry pset) s locs)
     = etl_transformed s @ filter (has_results w) (map (\<lambda>location_id. (pset, location_id)) locs)"
  by (induction locs arbitrary: s) (simp_all add: etl_one_transformed)

lemma etl_locations_dry_table:
  "etl_table (foldl (etl_one w True pset) s locs) = etl_table s"
  by (induction locs arbitrary: s) (simp_all add: etl_one_dry_table)

lemma etl_psets_calls:
  "etl_api_calls (foldl (\<lambda>s pset. foldl (etl_one w dry pset) s locs) s psets)
     = etl_api_calls s
       @ concat (map (\<lambda>pset. map (\<lambda>location_id. (pset, location_id)) locs) psets)"
  by (induction psets arbitrary: s) (simp_all add: etl_locations_calls)

lemma etl_psets_transformed:
  "etl_transformed (foldl (\<lambda>s pset. foldl (etl_one w dry pset) s locs) s psets)
     = etl_transformed s
       @ filter (has_results w)
           (concat (map (\<lambda>pset. map (\<lambda>location_id. (pset, location_id)) locs) psets))"
  by (induction psets arbitrary: s) (simp_all add: etl_locations_transformed)

lemma etl_psets_dry_table:
  "etl_table (foldl (\<lambda>s pset. foldl (etl_one w True pset) s locs) s psets) = etl_table s"
  by (induction psets arbitrary: s) (simp_all add: etl_locations_dry_table)

lemma etl_run_dry:
  "etl_table (process_transaction_list_etl w True tbl locations) = tbl
   \<and> etl_api_calls (process_transaction_list_etl w True tbl locations) = etl_work_items locations
   \<and> etl_transformed (process_transaction_list_etl w True tbl locations)
       = filter (has_results w) (etl_work_items locations)"
  by (simp add: process_transaction_list_etl_def Let_def etl_psets_dry_table etl_psets_calls
      etl_psets_transformed etl_work_items_def)

subsection \<open>The CMA sales importer in a dry run\<close>

text \<open>
  \<open>process_cma_sales\<close> returns right after logging when \<open>dry_run\<close> is set: the flusher is not
  started, no task is generated and no request is sent. A real run sends one request per task.
\<close>

lemma sales_task_requests:
  "cma_requests (sales_task srv bs now api s t) = cma_requests s @ [t]"
  by (simp add: sales_task_def Let_def split: sum.splits)

lemma sales_tasks_requests:
  "cma_requests (foldl (sales_task srv bs now api) s ts) = cma_requests s @ ts"
  by (induction ts arbitrary: s) (simp_all add: sales_task_requests)

lemma stop_flusher_requests: "cma_requests (stop_flusher srv bs now s) = cma_requests s"
  by (simp add: stop_flusher_def Let_def)

lemma cma_sales_dry:
  "table (env (process_cma_sales cfg srv api bs now True cap tbl props)) = tbl
   \<and> cma_requests (process_cma_sales cfg srv api bs now True cap tbl props) = []
   \<and> items (queue (env (process_cma_sales cfg srv api bs now True cap tbl props))) = []"
  by (simp add: process_cma_sales_def)

lemma cma_sales_real_run_requests:
  "cma_requests (process_cma_sales cma_sales_importer srv api bs now False cap [] [Some 1])
     = tasks_for_property cma_sales_importer 1"
proof -
  have g: "generate_api_tasks cma_sales_importer [Some 1] cap
      = Inr (tasks_for_property cma_sales_importer 1)"
    by (simp add: generate_api_tasks_def)
  have r: "resume_filter cma_sales_importer (Inr []) ts = ts" for ts
    by (simp add: resume_filter_def get_processed_property_ids_def cma_sales_importer_def)
  have ne: "tasks_for_property cma_sales_importer 1 \<noteq> []"
    by (simp add: tasks_for_property_def cma_sales_importer_def relevant_subtypes_def)
  show ?thesis
    by (simp add: process_cma_sales_def g r ne stop_flusher_requests sales_tasks_requests)
qed

subsection \<open>Sample dry runs\<close>

definition rent_dry_config :: rent_config where
  "rent_dry_config = rent_default_config\<lparr>dry_run := True\<rparr>"

definition any_server :: rent_server where
  "any_server = \<lparr>copy_accepts = (\<lambda>rows. True), insert_accepts = (\<lambda>rows. True)\<rparr>"

definition sample_world :: "nat etl_world" where
  "sample_world =
     \<lparr>etl_api = (\<lambda>pset location_id. Inr (scenario_B_page 1)),
      etl_transform = (\<lambda>results location_id pset. [length results]),
      etl_insert = (\<lambda>tbl rows. Inr (tbl @ rows))\<rparr>"

text \<open>
  A server that answers every request with an object whose \<open>results\<close> is a number other
  than zero: the test \<^verbatim>\<open>if results:\<close> passes, the transform is called and raises, and
  the request is counted as failed; nothing is stored, dry run or not.
\<close>

definition scalar_world :: "nat etl_world" where
  "scalar_world =
     \<lparr>etl_api = (\<lambda>pset location_id. Inr (Payload (Scalar_results True) None)),
      etl_transform = (\<lambda>results location_id pset. [length results]),
      etl_insert = (\<lambda>tbl rows. Inr (tbl @ rows))\<rparr>"

lemma etl_truthy_scalar:
  "length (etl_transformed (process_transaction_list_etl scalar_world dry [] [7])) = 8
   \<and> etl_successful_requests (process_transaction_list_etl scalar_world dry [] [7]) = 0
   \<and> etl_failed_requests (process_transaction_list_etl scalar_world dry [] [7]) = 8
   \<and> etl_table (process_transaction_list_etl scalar_world dry [] [7]) = []"
  by (simp add: process_transaction_list_etl_def generate_parameter_combinations_def etl_one_def
      scalar_world_def Let_def)

text \<open>
  Claim C9 as stated fails in its first half. A dry run of the CMA sales importer over one
  property sends no request at all, where the real run sends 31; a dry run of the rent importer
  on the Scenario B server fetches both pages and counts their 100 items, but flattens none of
  them: nothing is accumulated.
\<close>

theorem dry_run_skips_fetch_counterexample:
  "cma_requests (process_cma_sales cma_sales_importer plain_server one_comparable 5000 0 True 10 []
      [Some 1]) = []
   \<and> length (cma_requests (process_cma_sales cma_sales_importer plain_server one_comparable 5000 0
      False 10 [] [Some 1])) = 31
   \<and> total_records (fst (fetch_location_data rent_dry_config scenario_B_api 1 ''int'')) = 100
   \<and> accumulated_data (fst (fetch_location_data rent_dry_config scenario_B_api 1 ''int'')) = []"
proof -
  have a: "cma_requests (process_cma_sales cma_sales_importer plain_server one_comparable 5000 0
      True 10 [] [Some 1]) = []"
    by (simp add: cma_sales_dry)
  have b: "length (cma_requests (process_cma_sales cma_sales_importer plain_server one_comparable
      5000 0 False 10 [] [Some 1])) = 31"
    by (simp only: cma_sales_real_run_requests)
       (simp add: tasks_for_property_def cma_sales_importer_def relevant_subtypes_def)
  have c: "total_records (fst (fetch_location_data rent_dry_config scenario_B_api 1 ''int'')) = 100"
    by (simp add: fetch_location_data_def rent_dry_config_def rent_default_config_def
        rent_pages_step scenario_B_api_def build_api_params_def Let_def scenario_pages
        rent_page_body_def split del: if_split)
  have d: "accumulated_data (fst (fetch_location_data rent_dry_config scenario_B_api 1 ''int'')) = []"
    by (simp add: fetch_location_data_dry rent_dry_config_def)
  from a b c d show ?thesis by blast
qed

text \<open>
  Claim C9, amended. For every run invoked with the dry-run flag set, the destination store's
  contents after the run equal its contents before the run. What else is performed depends on
  the importer: the CMA sales importer returns before any request; the rent importer sends its
  requests (every location gets at least its first page, given a positive page limit and batch
  size) but flattens and accumulates nothing; the transaction-list ETL calls the API for every
  work item and the transform for every response whose results are true in Python's sense
  (a list that is not empty, in a well-formed response).
\<close>

theorem dry_run_leaves_destination:
  "table (env (process_cma_sales cfg srv api bs now True cap tbl props)) = tbl
   \<and> cma_requests (process_cma_sales cfg srv api bs now True cap tbl props) = []
   \<and> (dry_run rcfg \<longrightarrow>
        rent_table (fst (process_optimized_transaction_rent_batch rcfg rsrv rapi rtbl locations)) = rtbl
        \<and> all_accumulated_data
            (fst (process_optimized_transaction_rent_batch rcfg rsrv rapi rtbl locations)) = []
        \<and> (0 < max_pages rcfg \<and> 0 < locations_per_batch rcfg \<longrightarrow>
             (\<forall>loc \<in> set locations.
                \<exists>req \<in> set (run_requests
                    (fst (process_optimized_transaction_rent_batch rcfg rsrv rapi rtbl locations))).
                  location req = loc \<and> page_number req = 1)))
   \<and> etl_table (process_transaction_list_etl w True etbl elocations) = etbl
   \<and> etl_api_calls (process_transaction_list_etl w True etbl elocations)
       = etl_work_items elocations
   \<and> etl_transformed (process_transaction_list_etl w True etbl elocations)
       = filter (has_results w) (etl_work_items elocations)"
  using cma_sales_dry [of cfg srv api bs now cap tbl props]
    rent_run_dry [of rcfg rsrv rapi rtbl locations]
    rent_run_requests_every_location [of rcfg _ locations rsrv rapi rtbl]
    etl_run_dry [of w etbl elocations]
  by blast

theorem dry_run_leaves_destination_witness:
  "dry_run rent_dry_config \<and> 0 < max_pages rent_dry_config
   \<and> 0 < locations_per_batch rent_dry_config \<and> 7 \<in> set [7]
   \<and> rent_table (fst (process_optimized_transaction_rent_batch rent_dry_config any_server
        scenario_B_api [] [7])) = []
   \<and> (\<exists>req \<in> set (run_requests (fst (process_optimized_transaction_rent_batch rent_dry_config
        any_server scenario_B_api [] [7]))). location req = 7 \<and> page_number req = 1)
   \<and> etl_table (process_transaction_list_etl sample_world True [] [7]) = []
   \<and> length (etl_transformed (process_transaction_list_etl sample_world True [] [7])) = 8"
proof -
  have h: "dry_run rent_dry_config" "0 < max_pages rent_dry_config"
    "0 < locations_per_batch rent_dry_config" "7 \<in> set [7::int]"
    by (simp_all add: rent_dry_config_def rent_default_config_def)
  have t: "length (filter (has_results sample_world) (etl_work_items [7])) = 8"
    by (simp add: has_results_def sample_world_def etl_work_items_def
        generate_parameter_combinations_def scenario_B_page_def)
  from dry_run_leaves_destination [of _ _ _ _ _ _ "[]" _ rent_dry_config any_server scenario_B_api
      "[]" "[7]" sample_world "[]" "[7]"] h t
  show ?thesis by simp
qed


section \<open>Records without a price\<close>

text \<open>
  Both loops filter on \<^verbatim>\<open>record.get('price') is not None\<close> before anything is kept.
  In the rent importer the filtered Records reach the table through the accumulator and
  \<open>insert_transaction_raw_rent_data\<close>, which stores rows of its argument and no others; in
  the sales importer the filtered list is what \<open>insert_transaction_sales_data\<close> is called with.
\<close>

subsection \<open>The rent loader stores rows of the batch only\<close>

lemma insert_on_conflict_rows: "set (insert_on_conflict tbl r) \<subseteq> set tbl \<union> {r}"
  by (auto simp: insert_on_conflict_def split: option.splits if_splits)

lemma insert_on_conflict_fold_rows:
  "set (foldl insert_on_conflict tbl batch_data) \<subseteq> set tbl \<union> set batch_data"
proof (induction batch_data arbitrary: tbl)
  case Nil
  show ?case by simp
next
  case (Cons r rs)
  have "set (foldl insert_on_conflict (insert_on_conflict tbl r) rs)
      \<subseteq> set (insert_on_conflict tbl r) \<union> set rs"
    by (rule Cons.IH)
  with insert_on_conflict_rows [of tbl r] show ?case by auto
qed

lemma bulk_insert_rows:
  "set (fst (bulk_insert_with_copy_optimized srv tbl batch_data)) \<subseteq> set tbl \<union> set batch_data"
  using insert_on_conflict_fold_rows [of tbl batch_data]
  by (auto simp: bulk_insert_with_copy_optimized_def copy_expert_def
      bulk_insert_with_execute_values_fallback_def split: sum.splits if_splits)

lemma insert_batches_rows:
  "set (fst (insert_batches srv tbl bs)) \<subseteq> set tbl \<union> set (concat bs)"
proof (induction bs arbitrary: tbl)
  case Nil
  show ?case by simp
next
  case (Cons b bs)
  obtain tbl' err where step: "bulk_insert_with_copy_optimized srv tbl b = (tbl', err)"
    by (cases "bulk_insert_with_copy_optimized srv tbl b")
  have sub: "set tbl' \<subseteq> set tbl \<union> set b"
    using bulk_insert_rows [of srv tbl b] step by simp
  show ?case
  proof (cases err)
    case None
    with step have "insert_batches srv tbl (b # bs) = insert_batches srv tbl' bs" by simp
    with Cons.IH [of tbl'] sub show ?thesis by auto
  next
    case (Some e)
    with step have "insert_batches srv tbl (b # bs) = (tbl', Some e)" by simp
    with sub show ?thesis by auto
  qed
qed

lemma insert_rent_rows:
  "set (fst (insert_transaction_raw_rent_data srv tbl data_list)) \<subseteq> set tbl \<union> set data_list"
  using insert_batches_rows [of srv tbl "paginate 50000 data_list"]
  by (simp add: insert_transaction_raw_rent_data_def concat_paginate)

subsection \<open>The rent run\<close>

definition priced_rows :: "flat_record list \<Rightarrow> bool" where
  "priced_rows rows \<longleftrightarrow> (\<forall>r \<in> set rows. record_price r \<noteq> None)"

definition priced_or_old :: "flat_record list \<Rightarrow> flat_record list \<Rightarrow> bool" where
  "priced_or_old old rows \<longleftrightarrow> (\<forall>r \<in> set rows. r \<in> set old \<or> record_price r \<noteq> None)"

lemma process_location_priced:
  "priced_rows (all_processed_data b) \<Longrightarrow>
   priced_rows (all_processed_data (process_location cfg api template b loc))"
  using fetch_location_data_priced [of cfg api loc template]
  by (cases "fetch_location_data cfg api loc template")
     (auto simp: process_location_def priced_rows_def)

lemma process_locations_priced:
  "priced_rows (all_processed_data b) \<Longrightarrow>
   priced_rows (all_processed_data (foldl (process_location cfg api template) b locs))"
  by (induction locs arbitrary: b) (simp_all add: process_location_priced)

lemma process_batch_request_priced:
  "priced_rows (all_processed_data (process_batch_request cfg api br))"
  unfolding process_batch_request_def
  by (rule process_locations_priced) (simp add: priced_rows_def)

lemma insert_rent_priced:
  "priced_or_old old tbl \<Longrightarrow> priced_rows data_list \<Longrightarrow>
   priced_or_old old (fst (insert_transaction_raw_rent_data srv tbl data_list))"
  using insert_rent_rows [of srv tbl data_list]
  by (auto simp: priced_or_old_def priced_rows_def)

lemma rent_batch_done_priced:
  assumes "priced_rows (all_accumulated_data r)" and "priced_or_old old (rent_table r)"
  shows "priced_rows (all_accumulated_data (rent_batch_done cfg srv api r br))
         \<and> priced_or_old old (rent_table (rent_batch_done cfg srv api r br))"
proof -
  define b where "b = process_batch_request cfg api br"
  define acc where "acc = all_accumulated_data r @ all_processed_data b"
  have pa: "priced_rows acc"
    using assms(1) process_batch_request_priced [of cfg api br]
    by (auto simp: acc_def b_def priced_rows_def)
  have pt: "priced_or_old old (fst (insert_transaction_raw_rent_data srv (rent_table r) acc))"
    using assms(2) pa by (rule insert_rent_priced)
  have pn: "priced_rows []" by (simp add: priced_rows_def)
  show ?thesis
    using pa pt pn assms(2)
    by (cases "insert_transaction_raw_rent_data srv (rent_table r) acc")
       (auto simp: rent_batch_done_def Let_def b_def [symmetric] acc_def [symmetric]
          split: option.splits)
qed

lemma rent_batches_priced:
  "priced_rows (all_accumulated_data r) \<Longrightarrow> priced_or_old old (rent_table r) \<Longrightarrow>
   priced_rows (all_accumulated_data (foldl (rent_batch_done cfg srv api) r brs))
   \<and> priced_or_old old (rent_table (foldl (rent_batch_done cfg srv api) r brs))"
proof (induction brs arbitrary: r)
  case Nil
  then show ?case by simp
next
  case (Cons br brs)
  from rent_batch_done_priced [OF Cons.prems, of cfg srv api br]
  show ?case using Cons.IH by simp
qed

lemma rent_run_priced:
  "priced_or_old tbl
     (rent_table (fst (process_optimized_transaction_rent_batch cfg srv api tbl locations)))"
proof -
  define r0 :: rent_run where "r0 = \<lparr>run_total_records = 0, total_successful_requests = 0,
                total_failed_requests = 0, all_accumulated_data = [], rent_table = tbl,
                run_requests = []\<rparr>"
  have p0: "priced_rows (all_accumulated_data r0)" "priced_or_old tbl (rent_table r0)"
    by (simp_all add: r0_def priced_rows_def priced_or_old_def)
  have fold: "priced_rows (all_accumulated_data (foldl (rent_batch_done cfg srv api) r0 brs))
      \<and> priced_or_old tbl (rent_table (foldl (rent_batch_done cfg srv api) r0 brs))" for brs
    using p0 by (rule rent_batches_priced)
  have ins: "priced_or_old tbl (fst (insert_transaction_raw_rent_data srv
        (rent_table (foldl (rent_batch_done cfg srv api) r0 brs))
        (all_accumulated_data (foldl (rent_batch_done cfg srv api) r0 brs))))" for brs
    using fold [of brs] insert_rent_priced by blast
  show ?thesis
    unfolding process_optimized_transaction_rent_batch_def r0_def [symmetric] Let_def
    using p0(2) fold ins
    by (auto split: sum.splits prod.splits) (metis fst_conv)
qed


subsection \<open>The sales loop\<close>

lemma sales_pages_new_batches:
  "\<exists>new. inserted (fst (sales_pages db_rejects api loc meas ttype psize dry n s)) = inserted s @ new
         \<and> only_priced new"
proof (induction n arbitrary: s)
  case 0
  show ?case by (simp add: only_priced_def)
next
  case (Suc n)
  define s1 where "s1 = sales_request_sent loc meas ttype psize s"
  have i1: "inserted s1 = inserted s"
    by (simp add: s1_def sales_request_sent_def)
  have e0: "\<exists>new. inserted s1 = inserted s @ new \<and> only_priced new"
    by (rule exI [of _ "[]"]) (simp add: i1 only_priced_def)
  show ?case
  proof (cases "api (build_params loc (page s) (current_scroll_id s) meas ttype psize)")
    case (Inl e)
    then show ?thesis using e0 by (simp add: Let_def s1_def sales_request_sent_def)
  next
    case (Inr payload)
    show ?thesis
    proof (cases "nonempty_results payload")
      case None
      with Inr show ?thesis using e0 by (simp add: Let_def s1_def sales_request_sent_def)
    next
      case (Some results)
      define valid where "valid = (if dry then []
          else filter (\<lambda>record. record_price record \<noteq> None)
                 (process_transaction_sales_data [] results loc meas ttype))"
      define s2 where "s2 = s1\<lparr>total_records := total_records s1 + length results\<rparr>"
      define s3 where "s3 = s2\<lparr>inserted := (if valid \<noteq> [] then inserted s2 @ [valid] else inserted s2),
          current_scroll_id := payload_scroll_id payload, page := page s2 + 1\<rparr>"
      have v: "only_priced [valid]" by (simp add: valid_def only_priced_def)
      have i2: "inserted s2 = inserted s" using i1 by (simp add: s2_def)
      have e2: "\<exists>new. inserted s2 = inserted s @ new \<and> only_priced new"
        using e0 by (simp add: s2_def)
      have e3: "\<exists>new. inserted s3 = inserted s @ new \<and> only_priced new"
      proof (cases "valid = []")
        case True
        then show ?thesis using e2 by (simp add: s3_def)
      next
        case False
        then have "inserted s3 = inserted s @ [valid]" using i2 by (simp add: s3_def)
        with v show ?thesis by blast
      qed
      then obtain new3 where n3: "inserted s3 = inserted s @ new3" "only_priced new3" by blast
      obtain new4 where n4: "inserted (fst (sales_pages db_rejects api loc meas ttype psize dry n s3))
          = inserted s3 @ new4" "only_priced new4"
        using Suc.IH [of s3] by blast
      have e4: "\<exists>new. inserted (fst (sales_pages db_rejects api loc meas ttype psize dry n s3))
          = inserted s @ new \<and> only_priced new"
      proof -
        have "inserted (fst (sales_pages db_rejects api loc meas ttype psize dry n s3))
            = inserted s @ (new3 @ new4)" using n3 n4 by simp
        moreover have "only_priced (new3 @ new4)" using n3 n4 by (auto simp: only_priced_def)
        ultimately show ?thesis by blast
      qed
      have unfold: "sales_pages db_rejects api loc meas ttype psize dry (Suc n) s
          = (if valid \<noteq> [] \<and> db_rejects valid then (s2, Some DataError)
             else if \<not> truthy (payload_scroll_id payload) then (s3, None)
             else sales_pages db_rejects api loc meas ttype psize dry n s3)"
        using Inr Some
        by (simp add: Let_def s1_def s2_def s3_def valid_def sales_request_sent_def)
      show ?thesis
        using e2 e3 e4 by (simp only: unfold split: if_splits) simp
    qed
  qed
qed

lemma fetch_and_process_one_new_batches:
  "\<exists>new. inserted (fst (fetch_and_process_one db_rejects api db loc meas ttype max_pgs psize dry))
           = db @ new \<and> only_priced new"
proof -
  define s0 :: sales_fetch where "s0 = \<lparr>total_records = 0, current_scroll_id = None, page = 1,
              sales_requests = [], inserted = db\<rparr>"
  have "\<exists>new. inserted (fst (sales_pages db_rejects api loc meas ttype psize dry (nat max_pgs) s0))
           = inserted s0 @ new \<and> only_priced new"
    by (rule sales_pages_new_batches)
  then show ?thesis
    unfolding fetch_and_process_one_def s0_def [symmetric]
    by (cases "sales_pages db_rejects api loc meas ttype psize dry (nat max_pgs) s0")
       (auto simp: s0_def split: option.splits)
qed

subsection \<open>Sample pages\<close>

text \<open>A server whose only page holds a Record without a price and one with a price.\<close>

definition mixed_page_api :: "'a rent_request_scheme \<Rightarrow> py_error + api_payload" where
  "mixed_page_api req = Inr (Payload (Result_list [Dict unpriced_item, Dict priced_item]) None)"

lemma paginate_short:
  "0 < n \<Longrightarrow> xs \<noteq> [] \<Longrightarrow> length xs \<le> n \<Longrightarrow> paginate n xs = [xs]"
  by (subst paginate.simps) (simp add: paginate.simps)

lemma mixed_fetch:
  "fetch_location_data rent_default_config mixed_page_api 1 meas
     = (\<lparr>total_records = 2, current_scroll_id = None, page = 2,
         accumulated_data = [flatten_response priced_item 1 meas],
         requests = [build_api_params 1 meas 1 None]\<rparr>, True)"
  by (simp add: fetch_location_data_def rent_default_config_def rent_pages_step mixed_page_api_def
      Let_def rent_page_body_def record_price_def flatten_response_def priced_item_def
      unpriced_item_def split del: if_split)

lemma mixed_run_table:
  "rent_table (fst (process_optimized_transaction_rent_batch rent_default_config any_server
       mixed_page_api [] [1]))
     = [flatten_response priced_item 1 ''int'', flatten_response priced_item 1 ''imp'']"
proof -
  have b: "create_location_batches rent_default_config [1] [''int'', ''imp'']
      = Inr [(''int'', [1]), (''imp'', [1])]"
    by (simp add: create_location_batches_def rent_default_config_def paginate_short)
  have p: "process_batch_request rent_default_config mixed_page_api (meas, [1])
      = \<lparr>batch_records = 2, all_processed_data = [flatten_response priced_item 1 meas],
         successful_locations = 1, failed_locations = 0,
         batch_requests = [build_api_params 1 meas 1 None]\<rparr>" for meas
    by (simp add: process_batch_request_def process_location_def mixed_fetch)
  have i: "insert_transaction_raw_rent_data any_server []
        [flatten_response priced_item 1 ''int'', flatten_response priced_item 1 ''imp'']
      = ([flatten_response priced_item 1 ''int'', flatten_response priced_item 1 ''imp''], None)"
    by (simp add: insert_transaction_raw_rent_data_def paginate_short
        bulk_insert_with_copy_optimized_def copy_expert_def any_server_def rent_index_key_def
        flatten_response_def priced_item_def)
  have c: "\<not> dry_run rent_default_config" "max_accumulated_records rent_default_config = 50000"
    by (simp_all add: rent_default_config_def)
  show ?thesis
    by (simp add: process_optimized_transaction_rent_batch_def b rent_batch_done_def p Let_def i c)
qed

lemma unpriced_page_api_first:
  "unpriced_page_api (build_api_params 1 ''int'' (Suc 0) None)
     = Inr (Payload (Result_list [Dict unpriced_item]) (Some ''s1''))"
  "unpriced_page_api (build_api_params 1 ''int'' (Suc (Suc 0)) (Some ''s1''))
     = Inr (Payload (Result_list [Dict priced_item]) None)"
  by (simp_all add: unpriced_page_api_def build_api_params_def)

text \<open>
  Claim C10 as stated fails in its second half when the run is a dry run. The first page of
  \<open>unpriced_page_api\<close> is not empty, its one Record has a null price, and it carries a cursor;
  with \<open>dry_run\<close> set the rent importer counts the page, skips the price filter together with
  its \<open>break\<close>, and asks for page 2.
\<close>

theorem unpriced_page_dry_run_counterexample:
  "unpriced_page_api (build_api_params 1 ''int'' 1 None)
     = Inr (Payload (Result_list [Dict unpriced_item]) (Some ''s1''))
   \<and> field_get (price unpriced_item) = None
   \<and> map page_number (requests (fst (fetch_location_data rent_dry_config unpriced_page_api 1 ''int'')))
       = [1, 2]"
  by (simp add: fetch_location_data_def rent_dry_config_def rent_default_config_def
      rent_pages_step unpriced_page_api_first Let_def rent_page_body_def unpriced_item_def
      build_api_params_def unpriced_page_api_def split del: if_split)

text \<open>
  Claim C10, amended. In the transaction rent and transaction sales importers, a fetched
  result record whose price field is null is never inserted into the destination: after a rent
  run every row of the table was there before or has a price, and every batch the sales
  importer hands to the insert holds Records with a price only. In the rent importer, outside
  a dry run, a non-empty page all of whose records have null price terminates pagination for
  that work item even when the response carries a continuation cursor: the call returns after
  this request, with the success flag set and nothing accumulated from the page.
\<close>

theorem unpriced_records_not_stored:
  "(\<forall>r \<in> set (rent_table (fst (process_optimized_transaction_rent_batch cfg srv api tbl locations))).
      r \<in> set tbl \<or> record_price r \<noteq> None)
   \<and> (\<exists>new. inserted (fst (fetch_and_process_one db_rejects sales_api db sales_loc sales_meas ttype
                  max_pgs psize dry)) = db @ new
          \<and> (\<forall>batch \<in> set new. \<forall>r \<in> set batch. record_price r \<noteq> None))
   \<and> (\<not> dry_run cfg
        \<and> page_api (build_api_params loc meas (page s) (current_scroll_id s)) = Inr payload
        \<and> nonempty_results payload = Some results
        \<and> (\<forall>item. Dict item \<in> set results \<longrightarrow> field_get (price item) = None)
      \<longrightarrow> rent_pages cfg page_api loc meas (Suc n) s
            = ((request_sent loc meas s)\<lparr>total_records := total_records s + length results\<rparr>, True))"
  using rent_run_priced [of tbl cfg srv api locations]
    fetch_and_process_one_new_batches [of db_rejects sales_api db sales_loc sales_meas ttype
      max_pgs psize dry]
    rent_pages_unpriced_page_ends [of cfg page_api loc meas s payload results n]
  unfolding priced_or_old_def only_priced_def by blast


theorem unpriced_records_not_stored_witness:
  "\<not> dry_run rent_default_config
   \<and> unpriced_page_api (build_api_params 1 ''int'' 1 None)
       = Inr (Payload (Result_list [Dict unpriced_item]) (Some ''s1''))
   \<and> nonempty_results (Payload (Result_list [Dict unpriced_item]) (Some ''s1''))
       = Some [Dict unpriced_item]
   \<and> field_get (price unpriced_item) = None
   \<and> map page_number (requests (fst (fetch_location_data rent_default_config unpriced_page_api 1
        ''int''))) = [1]
   \<and> rent_table (fst (process_optimized_transaction_rent_batch rent_default_config any_server
        mixed_page_api [] [1]))
       = [flatten_response priced_item 1 ''int'', flatten_response priced_item 1 ''imp'']
   \<and> flatten_response unpriced_item 1 ''int''
       \<notin> set (rent_table (fst (process_optimized_transaction_rent_batch rent_default_config
            any_server mixed_page_api [] [1])))
   \<and> \<lparr>raw_data = unpriced_item, currency_col = ''aed'', measurement_col = ''int'',
        location_id_col = 1, transaction_type_col = Some ''Sales - Ready''\<rparr>
       \<notin> set (concat (inserted (fst (fetch_and_process_one (\<lambda>batch. False) mixed_page_api [] 1
            ''int'' ''Sales - Ready'' 5 1000 False))))"
proof -
  define s0 :: rent_fetch where "s0 = \<lparr>total_records = 0, current_scroll_id = None, page = 1,
        accumulated_data = [], requests = []\<rparr>"
  have h1: "\<not> dry_run rent_default_config" by (simp add: rent_default_config_def)
  have h2: "unpriced_page_api (build_api_params 1 ''int'' 1 None)
       = Inr (Payload (Result_list [Dict unpriced_item]) (Some ''s1''))"
    by (simp add: unpriced_page_api_def build_api_params_def)
  have h2': "unpriced_page_api (build_api_params 1 ''int'' (page s0) (current_scroll_id s0))
       = Inr (Payload (Result_list [Dict unpriced_item]) (Some ''s1''))"
    using h2 by (simp add: s0_def)
  have h3: "nonempty_results (Payload (Result_list [Dict unpriced_item]) (Some ''s1''))
       = Some [Dict unpriced_item]"
    by simp
  have h4: "\<forall>item. Dict item \<in> set [Dict unpriced_item] \<longrightarrow> field_get (price item) = None"
    by (simp add: unpriced_item_def)
  have f: "fetch_location_data rent_default_config unpriced_page_api 1 ''int''
      = rent_pages rent_default_config unpriced_page_api 1 ''int'' (Suc 19) s0"
    by (simp add: fetch_location_data_def rent_default_config_def s0_def)
  have np: "record_price (flatten_response unpriced_item 1 ''int'') = None"
    by (simp add: record_price_def flatten_response_def unpriced_item_def)
  note inst = unpriced_records_not_stored [of rent_default_config any_server mixed_page_api "[]" "[1]"
      "\<lambda>batch. False" mixed_page_api "[]" 1 "''int''" "''Sales - Ready''" 5 1000 False
      unpriced_page_api 1 "''int''" s0 "Payload (Result_list [Dict unpriced_item]) (Some ''s1'')"
      "[Dict unpriced_item]" 19]
  have c1: "map page_number (requests (fst (fetch_location_data rent_default_config
      unpriced_page_api 1 ''int''))) = [1]"
    using inst h1 h2' h3 h4
    by (simp add: f request_sent_def s0_def build_api_params_def)
  have c2: "flatten_response unpriced_item 1 ''int''
       \<notin> set (rent_table (fst (process_optimized_transaction_rent_batch rent_default_config
            any_server mixed_page_api [] [1])))"
    using inst np by auto
  have h5: "field_get (price unpriced_item) = None" by (simp add: unpriced_item_def)
  have sales: "\<forall>batch \<in> set (inserted (fst (fetch_and_process_one (\<lambda>batch. False)
        mixed_page_api [] 1 ''int'' ''Sales - Ready'' 5 1000 False))).
      \<forall>r \<in> set batch. record_price r \<noteq> None"
    using conjunct1 [OF conjunct2 [OF inst]] by auto
  have ns: "record_price \<lparr>raw_data = unpriced_item, currency_col = ''aed'',
        measurement_col = ''int'', location_id_col = 1,
        transaction_type_col = Some ''Sales - Ready''\<rparr> = None"
    by (simp add: record_price_def unpriced_item_def)
  have c3: "\<lparr>raw_data = unpriced_item, currency_col = ''aed'', measurement_col = ''int'',
        location_id_col = 1, transaction_type_col = Some ''Sales - Ready''\<rparr>
       \<notin> set (concat (inserted (fst (fetch_and_process_one (\<lambda>batch. False) mixed_page_api [] 1
            ''int'' ''Sales - Ready'' 5 1000 False))))"
  proof
    assume "\<lparr>raw_data = unpriced_item, currency_col = ''aed'', measurement_col = ''int'',
        location_id_col = 1, transaction_type_col = Some ''Sales - Ready''\<rparr>
       \<in> set (concat (inserted (fst (fetch_and_process_one (\<lambda>batch. False) mixed_page_api [] 1
            ''int'' ''Sales - Ready'' 5 1000 False))))"
    then obtain batch where "batch \<in> set (inserted (fst (fetch_and_process_one (\<lambda>batch. False)
            mixed_page_api [] 1 ''int'' ''Sales - Ready'' 5 1000 False)))"
      and "\<lparr>raw_data = unpriced_item, currency_col = ''aed'', measurement_col = ''int'',
        location_id_col = 1, transaction_type_col = Some ''Sales - Ready''\<rparr> \<in> set batch"
      by auto
    with sales have "record_price \<lparr>raw_data = unpriced_item, currency_col = ''aed'',
        measurement_col = ''int'', location_id_col = 1,
        transaction_type_col = Some ''Sales - Ready''\<rparr> \<noteq> None"
      by blast
    with ns show False by simp
  qed
  from h1 h2 h3 h5 c1 c2 c3 mixed_run_table show ?thesis by blast
qed

end
